theory Spec2Isabelle
  imports Main "HOL-Library.Word" "HOL-Library.Monad_Syntax" "HOL-Library.Multiset"
    "HOL-Library.Sublist"
begin

section \<open>The linker graph of \<^verbatim>\<open>internal/graph/graph.go\<close>\<close>

text \<open>
  The file \<^verbatim>\<open>graph.go\<close> builds, from the parsed input files, the graph one linker
  works on (\<^verbatim>\<open>CloneLinkerGraph\<close>) and extends it afterwards
  (\<^verbatim>\<open>AddPartToFile\<close>, \<^verbatim>\<open>GenerateNewSymbol\<close>,
  \<^verbatim>\<open>GenerateSymbolImportAndUse\<close>).

  Go values that are references are modelled with an explicit store, because the
  file's whole point is which of them are shared with the input and which are cloned:
  \<^item> a pointer (\<^verbatim>\<open>*JSRepr\<close>, \<^verbatim>\<open>*CSSRepr\<close>, \<^verbatim>\<open>*js_ast.Scope\<close>) is an address into a
    store of objects;
  \<^item> a slice that the code copies element by element wherever it copies its holder
    (\<^verbatim>\<open>[]Symbol\<close>, \<^verbatim>\<open>[]Part\<close>, \<^verbatim>\<open>[]ImportRecord\<close>) is \<open>None\<close> (the nil slice) or the
    address of an array that holds exactly its elements; \<^verbatim>\<open>append(s, x)\<close> yields a new
    array (Go may instead reuse spare capacity, which no other slice reaches);
  \<^item> \<^verbatim>\<open>Part.Dependencies\<close> is copied with its part (line 172 copies the \<^verbatim>\<open>Part\<close>
    structs, not what they point to) and appended to afterwards, so it is a slice header:
    \<open>None\<close> (the nil slice) or the address of a backing array together with a length. The
    size of the backing array is the capacity of the slice, and \<^verbatim>\<open>append\<close> writes in
    place as long as the capacity allows it;
  \<^item> a map the code writes, copies or shares (\<^verbatim>\<open>SymbolUses\<close>, \<^verbatim>\<open>NamedImports\<close>,
    \<^verbatim>\<open>NamedExports\<close>, and \<^verbatim>\<open>TopLevelSymbolToPartsOverlay\<close>, which the copy of a
    \<^verbatim>\<open>JSRepr\<close> shares with the original) is \<open>None\<close> (the nil map) or the address of a
    map object;
  \<^item> the slices that only their holder reaches (\<^verbatim>\<open>Generated\<close>, which is copied with
    its scope, and the lists of part indices, which live in one entry of one map) and the
    maps that \<^verbatim>\<open>CloneLinkerGraph\<close> makes anew for its copy (\<^verbatim>\<open>ResolvedExports\<close>,
    \<^verbatim>\<open>IsProbablyTypeScriptType\<close>, \<^verbatim>\<open>ImportsToBind\<close>) are values.
  An address is an index into its store; allocation appends to the store. A run-time
  panic (index out of range, nil dereference, failed type assertion, write to a nil map)
  is the result \<open>None\<close>; so is following an address that the store does not hold, which
  no Go program can do.

  File identities, part indices and lengths are \<open>nat\<close>; where the source converts a
  length to \<^verbatim>\<open>uint32\<close> the truncation is written out (\<open>u32\<close>). Use counts are
  \<^verbatim>\<open>uint32\<close> values that the source adds, so they are 32-bit words.
\<close>

subsection \<open>Types of the packages \<^verbatim>\<open>js_ast\<close> and \<^verbatim>\<open>ast\<close> that the file uses\<close>

type_synonym addr = nat

definition u32 :: "nat \<Rightarrow> nat" where
  "u32 n = n mod 2 ^ 32"

datatype Ref = Ref (RefSourceIndex: nat) (InnerIndex: nat)

definition InvalidRef :: Ref where
  "InvalidRef = Ref (2 ^ 32 - 1) (2 ^ 32 - 1)"

datatype ImportKind =
  ImportEntryPoint | ImportStmt | ImportRequire | ImportDynamic | ImportRequireResolve
  | ImportAt | ImportURL

text \<open>
  \<^verbatim>\<open>ast.ImportRecord\<close>: \<open>RecordSourceIndex\<close> is the \<^verbatim>\<open>ast.Index32\<close> field
  \<^verbatim>\<open>SourceIndex\<close> (\<open>None\<close> when \<^verbatim>\<open>IsValid()\<close> is false, \<open>Some i\<close> when
  \<^verbatim>\<open>GetIndex()\<close> is \<open>i\<close>); \<open>Assertions\<close> is a pointer that may be nil.
\<close>

record ImportRecord =
  RecordSourceIndex :: "nat option"
  Kind :: ImportKind
  Assertions :: "(string \<times> string) list option"

record Symbol =
  SymbolKind :: nat
  OriginalName :: string
  Link :: Ref

record SymbolUse =
  CountEstimate :: "32 word"

record DeclaredSymbol =
  DeclaredRef :: Ref
  IsTopLevel :: bool

datatype Dependency = Dependency (DepSourceIndex: nat) (DepPartIndex: nat)

text \<open>
  The header of a \<^verbatim>\<open>[]js_ast.Dependency\<close>: \<open>None\<close> is the nil slice, \<open>Some (a, n)\<close> the
  first \<open>n\<close> elements of the backing array at address \<open>a\<close>. A slice begins at the first
  element of its backing array, as every slice does that \<^verbatim>\<open>append\<close> has made; two
  slices on one array differ in their lengths only.
\<close>

type_synonym dependencySlice = "(addr \<times> nat) option"

record Part =
  SymbolUses :: "addr option"
  DeclaredSymbols :: "DeclaredSymbol list"
  Dependencies :: dependencySlice

typedecl NamedImport
typedecl TSEnumValue
typedecl ConstValue

record NamedExport =
  NamedExportRef :: Ref
  AliasLoc :: int

record Scope =
  Generated :: "Ref list"

record js_ast_AST =
  Symbols :: "addr option"
  Parts :: "addr option"
  ImportRecords :: "addr option"
  NamedImports :: "addr option"
  NamedExports :: "addr option"
  ModuleScope :: "addr option"
  TSEnums :: "(Ref \<rightharpoonup> (string \<rightharpoonup> TSEnumValue)) option"
  ConstValues :: "(Ref \<rightharpoonup> ConstValue) option"
  TopLevelSymbolToPartsFromParser :: "Ref \<rightharpoonup> nat list"
  ExportsRef :: Ref
  ModuleRef :: Ref
  UsesExportsRef :: bool
  UsesModuleRef :: bool

subsection \<open>Types of package \<^verbatim>\<open>graph\<close>\<close>

record ExportData =
  ExportDataRef :: Ref
  ExportDataSourceIndex :: nat
  NameLoc :: int

record ImportData =
  ImportDataSourceIndex :: nat
  ImportDataRef :: Ref

record JSReprMeta =
  ResolvedExports :: "(string \<rightharpoonup> ExportData) option"
  IsProbablyTypeScriptType :: "(Ref \<rightharpoonup> bool) option"
  ImportsToBind :: "(Ref \<rightharpoonup> ImportData) option"
  TopLevelSymbolToPartsOverlay :: "addr option"

record JSRepr =
  AST :: js_ast_AST
  Meta :: JSReprMeta

record CSSRepr =
  CSSImportRecords :: "addr option"

text \<open>
  \<^verbatim>\<open>InputFile.Repr\<close> is an interface value: a \<^verbatim>\<open>*JSRepr\<close>, a \<^verbatim>\<open>*CSSRepr\<close>, or
  anything else (nil included), which the type switch of \<^verbatim>\<open>CloneLinkerGraph\<close> skips
  and the type assertions of the mutators reject.
\<close>

datatype InputFileRepr = ReprJS addr | ReprCSS addr | ReprOther

record InputFile =
  Source :: string
  Repr :: InputFileRepr

datatype entryPointKind = entryPointNone | entryPointUserSpecified | entryPointDynamicImport

record LinkerFile =
  EntryBits :: "bool list"
  InputFile :: InputFile
  DistanceFromEntryPoint :: nat
  EntryPointChunkIndex :: nat
  entryPointKind :: entryPointKind
  IsLive :: bool

record EntryPoint =
  OutputPath :: string
  SourceIndex :: nat
  OutputPathWasAutoGenerated :: bool

record LinkerGraph =
  Files :: "LinkerFile list"
  entryPoints :: "EntryPoint list"
  SymbolsForSource :: "addr option list"
  GraphTSEnums :: "(Ref \<rightharpoonup> (string \<rightharpoonup> TSEnumValue)) option"
  GraphConstValues :: "(Ref \<rightharpoonup> ConstValue) option"
  ReachableFiles :: "nat list"
  StableSourceIndices :: "nat list"

subsection \<open>The store\<close>

record heap =
  js_reprs :: "JSRepr list"
  css_reprs :: "CSSRepr list"
  scopes :: "Scope list"
  symbol_arrays :: "Symbol list list"
  part_arrays :: "Part list list"
  record_arrays :: "ImportRecord list list"
  symbol_use_maps :: "(Ref \<rightharpoonup> SymbolUse) list"
  named_import_maps :: "(Ref \<rightharpoonup> NamedImport) list"
  named_export_maps :: "(string \<rightharpoonup> NamedExport) list"
  dependency_arrays :: "Dependency list list"
  overlay_maps :: "(Ref \<rightharpoonup> nat list) list"
  spare_capacity :: "nat \<Rightarrow> nat"

text \<open>
  \<open>dependency_arrays\<close> holds the backing arrays of the \<^verbatim>\<open>Dependencies\<close> slices, each
  as long as its capacity. How much capacity \<^verbatim>\<open>append\<close> leaves spare when it has to
  allocate is the runtime's choice: \<open>spare_capacity\<close> gives it for the length of the slice
  that is made, and nothing below depends on what it is.
\<close>

text \<open>Indexing (and dereferencing an address): \<open>None\<close> out of range.\<close>

definition nth_opt :: "'a list \<Rightarrow> nat \<Rightarrow> 'a option" where
  "nth_opt xs i = (if i < length xs then Some (xs ! i) else None)"

text \<open>The elements of a slice; the nil slice has none.\<close>

definition slice_elems :: "'a list list \<Rightarrow> addr option \<Rightarrow> 'a list option" where
  "slice_elems store s = (case s of None \<Rightarrow> Some [] | Some a \<Rightarrow> nth_opt store a)"

text \<open>The entries of a map as a read sees them; the nil map has none.\<close>

definition map_entries :: "('k \<rightharpoonup> 'v) list \<Rightarrow> addr option \<Rightarrow> ('k \<rightharpoonup> 'v) option" where
  "map_entries store m = (case m of None \<Rightarrow> Some Map.empty | Some a \<Rightarrow> nth_opt store a)"

text \<open>The \<^verbatim>\<open>*JSRepr\<close> behind a file, as the assertion \<^verbatim>\<open>Repr.(*JSRepr)\<close> yields it.\<close>

definition asJSRepr :: "InputFileRepr \<Rightarrow> addr option" where
  "asJSRepr r = (case r of ReprJS a \<Rightarrow> Some a | _ \<Rightarrow> None)"

subsection \<open>\<^verbatim>\<open>CloneLinkerGraph\<close>: the task that clones one reachable file\<close>

text \<open>
  Lines 171--180: every part of the copied part list gets a fresh map holding the
  entries of its \<^verbatim>\<open>SymbolUses\<close> (ranging over a nil map visits nothing).
\<close>

fun cloneSymbolUses ::
  "(Ref \<rightharpoonup> SymbolUse) list \<Rightarrow> Part list \<Rightarrow> ((Ref \<rightharpoonup> SymbolUse) list \<times> Part list) option" where
  "cloneSymbolUses store [] = Some (store, [])"
| "cloneSymbolUses store (part # rest) = do {
     uses \<leftarrow> map_entries store (SymbolUses part);
     let clone = length store;
     (store', rest') \<leftarrow> cloneSymbolUses (store @ [uses]) rest;
     Some (store', part\<lparr>SymbolUses := Some clone\<rparr> # rest')
   }"

text \<open>
  Lines 185--201, the loop over the copied import records when code splitting is on:
  the records it picks, the targets it appends to \<^verbatim>\<open>dynamicImportEntryPoints\<close>, and the
  records it leaves behind.
\<close>

definition isDynamicImportEntry :: "ImportRecord \<Rightarrow> bool" where
  "isDynamicImportEntry record \<longleftrightarrow> RecordSourceIndex record \<noteq> None \<and> Kind record = ImportDynamic"

definition dynamicImportTargets :: "bool \<Rightarrow> ImportRecord list \<Rightarrow> nat list" where
  "dynamicImportTargets codeSplitting records =
     (if codeSplitting then map (the \<circ> RecordSourceIndex) (filter isDynamicImportEntry records)
      else [])"

definition removeAssertions :: "bool \<Rightarrow> ImportRecord list \<Rightarrow> ImportRecord list" where
  "removeAssertions codeSplitting records =
     (if codeSplitting
      then map (\<lambda>record. if isDynamicImportEntry record then record\<lparr>Assertions := None\<rparr> else record) records
      else records)"

text \<open>Lines 210--218: the resolved exports made from the named exports.\<close>

definition resolveExports :: "nat \<Rightarrow> (string \<rightharpoonup> NamedExport) \<Rightarrow> (string \<rightharpoonup> ExportData)" where
  "resolveExports sourceIndex namedExports =
     (\<lambda>alias. map_option
        (\<lambda>name. \<lparr>ExportDataRef = NamedExportRef name, ExportDataSourceIndex = sourceIndex,
                  NameLoc = AliasLoc name\<rparr>)
        (namedExports alias))"

text \<open>
  Lines 158--231, the case \<^verbatim>\<open>*JSRepr\<close>. The clone is a fresh object that only this
  task holds until it returns, so its fields are set on a local value that is stored
  once. The result is the store, the address of the clone, the address of
  \<^verbatim>\<open>fileSymbols\<close> and the targets appended to \<^verbatim>\<open>dynamicImportEntryPoints\<close>.
\<close>

definition cloneJSRepr :: "bool \<Rightarrow> nat \<Rightarrow> addr \<Rightarrow> heap \<Rightarrow> (heap \<times> addr \<times> addr \<times> nat list) option" where
  "cloneJSRepr codeSplitting sourceIndex a h = do {
     repr \<leftarrow> nth_opt (js_reprs h) a;
     let ast = AST repr;
     syms \<leftarrow> slice_elems (symbol_arrays h) (Symbols ast);
     let fileSymbols = length (symbol_arrays h);
     let h = h\<lparr>symbol_arrays := symbol_arrays h @ [syms]\<rparr>;
     let ast = ast\<lparr>Symbols := None\<rparr>;
     parts \<leftarrow> slice_elems (part_arrays h) (Parts ast);
     (uses, parts) \<leftarrow> cloneSymbolUses (symbol_use_maps h) parts;
     let h = h\<lparr>symbol_use_maps := uses\<rparr>;
     let ast = ast\<lparr>Parts := Some (length (part_arrays h))\<rparr>;
     let h = h\<lparr>part_arrays := part_arrays h @ [parts]\<rparr>;
     records \<leftarrow> slice_elems (record_arrays h) (ImportRecords ast);
     let ast = ast\<lparr>ImportRecords := Some (length (record_arrays h))\<rparr>;
     let h = h\<lparr>record_arrays := record_arrays h @ [removeAssertions codeSplitting records]\<rparr>;
     let dyn = dynamicImportTargets codeSplitting records;
     namedImports \<leftarrow> map_entries (named_import_maps h) (NamedImports ast);
     let ast = ast\<lparr>NamedImports := Some (length (named_import_maps h))\<rparr>;
     let h = h\<lparr>named_import_maps := named_import_maps h @ [namedImports]\<rparr>;
     namedExports \<leftarrow> map_entries (named_export_maps h) (NamedExports ast);
     let resolvedExports = resolveExports sourceIndex namedExports;
     old \<leftarrow> ModuleScope ast;
     scope \<leftarrow> nth_opt (scopes h) old;
     let ast = ast\<lparr>ModuleScope := Some (length (scopes h))\<rparr>;
     let h = h\<lparr>scopes := scopes h @ [scope\<lparr>Generated := Generated scope\<rparr>]\<rparr>;
     let meta = (Meta repr)\<lparr>ResolvedExports := Some resolvedExports,
                  IsProbablyTypeScriptType := Some Map.empty,
                  ImportsToBind := Some Map.empty\<rparr>;
     let clone = length (js_reprs h);
     let h = h\<lparr>js_reprs := js_reprs h @ [repr\<lparr>AST := ast, Meta := meta\<rparr>]\<rparr>;
     Some (h, clone, fileSymbols, dyn)
   }"

text \<open>Lines 233--243, the case \<^verbatim>\<open>*CSSRepr\<close>.\<close>

definition cloneCSSRepr :: "addr \<Rightarrow> heap \<Rightarrow> (heap \<times> addr) option" where
  "cloneCSSRepr a h = do {
     repr \<leftarrow> nth_opt (css_reprs h) a;
     records \<leftarrow> slice_elems (record_arrays h) (CSSImportRecords repr);
     let repr = repr\<lparr>CSSImportRecords := Some (length (record_arrays h))\<rparr>;
     let h = h\<lparr>record_arrays := record_arrays h @ [records]\<rparr>;
     let clone = length (css_reprs h);
     let h = h\<lparr>css_reprs := css_reprs h @ [repr]\<rparr>;
     Some (h, clone)
   }"

text \<open>
  Lines 153--248, the body of one goroutine. It works on the store, on its own slot of
  \<^verbatim>\<open>files\<close> and of \<^verbatim>\<open>symbols.SymbolsForSource\<close>, and returns the targets it appends
  to the shared \<^verbatim>\<open>dynamicImportEntryPoints\<close>, in its own order.
\<close>

type_synonym cloneState = "heap \<times> LinkerFile list \<times> addr option list"

definition cloneFile ::
  "bool \<Rightarrow> InputFile list \<Rightarrow> nat \<Rightarrow> cloneState \<Rightarrow> (cloneState \<times> nat list) option" where
  "cloneFile codeSplitting inputFiles sourceIndex st = (case st of (h, files, symbols) \<Rightarrow> do {
     file \<leftarrow> nth_opt files sourceIndex;
     inputFile \<leftarrow> nth_opt inputFiles sourceIndex;
     let file = file\<lparr>InputFile := inputFile\<rparr>;
     (case Repr inputFile of
        ReprJS a \<Rightarrow> do {
          (h, clone, fileSymbols, dyn) \<leftarrow> cloneJSRepr codeSplitting sourceIndex a h;
          let file = file\<lparr>InputFile := inputFile\<lparr>Repr := ReprJS clone\<rparr>,
                          DistanceFromEntryPoint := 2 ^ 32 - 1\<rparr>;
          Some ((h, files[sourceIndex := file], symbols[sourceIndex := Some fileSymbols]), dyn)
        }
      | ReprCSS a \<Rightarrow> do {
          (h, clone) \<leftarrow> cloneCSSRepr a h;
          let file = file\<lparr>InputFile := inputFile\<lparr>Repr := ReprCSS clone\<rparr>,
                          DistanceFromEntryPoint := 2 ^ 32 - 1\<rparr>;
          Some ((h, files[sourceIndex := file], symbols), [])
        }
      | ReprOther \<Rightarrow>
          Some ((h, files[sourceIndex := file\<lparr>DistanceFromEntryPoint := 2 ^ 32 - 1\<rparr>], symbols), []))
   })"

subsection \<open>\<^verbatim>\<open>CloneLinkerGraph\<close>: the serial phases\<close>

definition zeroLinkerFile :: LinkerFile where
  "zeroLinkerFile = \<lparr>EntryBits = [], InputFile = \<lparr>Source = [], Repr = ReprOther\<rparr>,
     DistanceFromEntryPoint = 0, EntryPointChunkIndex = 0, entryPointKind = entryPointNone,
     IsLive = False\<rparr>"

text \<open>Lines 136--139.\<close>

fun markEntryPoints :: "EntryPoint list \<Rightarrow> LinkerFile list \<Rightarrow> LinkerFile list option" where
  "markEntryPoints [] files = Some files"
| "markEntryPoints (entryPoint # rest) files =
     (if SourceIndex entryPoint < length files
      then markEntryPoints rest
             (files[SourceIndex entryPoint :=
                (files ! SourceIndex entryPoint)\<lparr>entryPointKind := entryPointUserSpecified\<rparr>])
      else None)"

text \<open>Lines 149--151: \<^verbatim>\<open>stableSourceIndices[sourceIndex] = uint32(stableIndex)\<close>.\<close>

fun assignStableSourceIndices :: "nat list \<Rightarrow> nat \<Rightarrow> nat list \<Rightarrow> nat list option" where
  "assignStableSourceIndices [] stableIndex indices = Some indices"
| "assignStableSourceIndices (sourceIndex # rest) stableIndex indices =
     (if sourceIndex < length indices
      then assignStableSourceIndices rest (Suc stableIndex) (indices[sourceIndex := u32 stableIndex])
      else None)"

text \<open>
  The goroutines of lines 149--250. Each writes its own slots and fresh objects only, so
  their bodies are run one after the other in the order of \<^verbatim>\<open>reachableFiles\<close>; what
  depends on the scheduler is the order in which their appends reach the shared list,
  which \<open>interleave\<close> below decides from a schedule.
\<close>

fun runCloneTasks ::
  "bool \<Rightarrow> InputFile list \<Rightarrow> nat list \<Rightarrow> cloneState \<Rightarrow> (cloneState \<times> nat list list) option" where
  "runCloneTasks codeSplitting inputFiles [] st = Some (st, [])"
| "runCloneTasks codeSplitting inputFiles (sourceIndex # rest) st = do {
     (st, q) \<leftarrow> cloneFile codeSplitting inputFiles sourceIndex st;
     (st, qs) \<leftarrow> runCloneTasks codeSplitting inputFiles rest st;
     Some (st, q # qs)
   }"

text \<open>
  The shared list \<^verbatim>\<open>dynamicImportEntryPoints\<close> after the barrier: task \<open>t\<close> appends the
  elements of its queue in order, and the schedule names the task whose next append
  comes first. When the schedule ends, the tasks that are left append in order.
\<close>

fun interleave :: "nat list \<Rightarrow> 'a list list \<Rightarrow> 'a list" where
  "interleave [] qs = concat qs"
| "interleave (t # ts) qs =
     (if t < length qs
      then (case qs ! t of
              [] \<Rightarrow> interleave ts qs
            | x # q \<Rightarrow> x # interleave ts (qs[t := q]))
      else interleave ts qs)"

text \<open>Lines 252--259.\<close>

fun processDynamicEntryPoints ::
  "nat list \<Rightarrow> nat list \<Rightarrow> LinkerFile list \<Rightarrow> nat list \<Rightarrow> (LinkerFile list \<times> nat list) option" where
  "processDynamicEntryPoints indices [] files stableEntryPoints = Some (files, stableEntryPoints)"
| "processDynamicEntryPoints indices (sourceIndex # rest) files stableEntryPoints = do {
     otherFile \<leftarrow> nth_opt files sourceIndex;
     if entryPointKind otherFile = entryPointNone
     then do {
       stableIndex \<leftarrow> nth_opt indices sourceIndex;
       processDynamicEntryPoints indices rest
         (files[sourceIndex := otherFile\<lparr>entryPointKind := entryPointDynamicImport\<rparr>])
         (stableEntryPoints @ [stableIndex])
     }
     else processDynamicEntryPoints indices rest files stableEntryPoints
   }"

text \<open>Lines 263--265.\<close>

fun appendDynamicEntryPoints :: "nat list \<Rightarrow> nat list \<Rightarrow> EntryPoint list \<Rightarrow> EntryPoint list option" where
  "appendDynamicEntryPoints reachableFiles [] entries = Some entries"
| "appendDynamicEntryPoints reachableFiles (stableIndex # rest) entries = do {
     sourceIndex \<leftarrow> nth_opt reachableFiles stableIndex;
     appendDynamicEntryPoints reachableFiles rest
       (entries @ [\<lparr>OutputPath = [], SourceIndex = sourceIndex, OutputPathWasAutoGenerated = False\<rparr>])
   }"

text \<open>
  Lines 267--298. \<open>mergeTable\<close> is one of the two guarded merge loops: a nil table of
  the file leaves the merged table alone, any other one is written over it.
\<close>

definition mergeTable :: "('k \<rightharpoonup> 'v) option \<Rightarrow> ('k \<rightharpoonup> 'v) option \<Rightarrow> ('k \<rightharpoonup> 'v) option" where
  "mergeTable merged table =
     (case table of
        None \<Rightarrow> merged
      | Some t \<Rightarrow> Some ((case merged of None \<Rightarrow> Map.empty | Some m \<Rightarrow> m) ++ t))"

type_synonym finalState =
  "LinkerFile list \<times> (Ref \<rightharpoonup> (string \<rightharpoonup> TSEnumValue)) option \<times> (Ref \<rightharpoonup> ConstValue) option"

fun finalPass :: "heap \<Rightarrow> nat \<Rightarrow> nat list \<Rightarrow> finalState \<Rightarrow> finalState option" where
  "finalPass h bitCount [] st = Some st"
| "finalPass h bitCount (sourceIndex # rest) st = (case st of (files, tsEnums, constValues) \<Rightarrow> do {
     file \<leftarrow> nth_opt files sourceIndex;
     let files = files[sourceIndex := file\<lparr>EntryBits := replicate bitCount False\<rparr>];
     (case Repr (InputFile file) of
        ReprJS a \<Rightarrow> do {
          repr \<leftarrow> nth_opt (js_reprs h) a;
          finalPass h bitCount rest
            (files, mergeTable tsEnums (TSEnums (AST repr)),
             mergeTable constValues (ConstValues (AST repr)))
        }
      | _ \<Rightarrow> finalPass h bitCount rest (files, tsEnums, constValues))
   })"

subsection \<open>\<^verbatim>\<open>CloneLinkerGraph\<close>\<close>

text \<open>
  The first argument is the schedule of the goroutines; the others are the arguments of
  the source, after the store they point into.
\<close>

definition CloneLinkerGraph ::
  "nat list \<Rightarrow> heap \<Rightarrow> InputFile list \<Rightarrow> nat list \<Rightarrow> EntryPoint list \<Rightarrow> bool
     \<Rightarrow> (LinkerGraph \<times> heap) option" where
  "CloneLinkerGraph schedule h inputFiles reachableFiles originalEntryPoints codeSplitting = do {
     let entries = originalEntryPoints;
     let symbols = replicate (length inputFiles) None;
     let files = replicate (length inputFiles) zeroLinkerFile;
     files \<leftarrow> markEntryPoints entries files;
     stableSourceIndices \<leftarrow>
       assignStableSourceIndices reachableFiles 0 (replicate (length inputFiles) 0);
     ((h, files, symbols), queues) \<leftarrow>
       runCloneTasks codeSplitting inputFiles reachableFiles (h, files, symbols);
     let dynamicImportEntryPoints = interleave schedule queues;
     (files, stableEntryPoints) \<leftarrow>
       processDynamicEntryPoints stableSourceIndices dynamicImportEntryPoints files [];
     entries \<leftarrow> appendDynamicEntryPoints reachableFiles (sort stableEntryPoints) entries;
     (files, tsEnums, constValues) \<leftarrow>
       finalPass h (length entries) reachableFiles (files, None, None);
     Some (\<lparr>Files = files, entryPoints = entries, SymbolsForSource = symbols,
             GraphTSEnums = tsEnums, GraphConstValues = constValues,
             ReachableFiles = reachableFiles, StableSourceIndices = stableSourceIndices\<rparr>, h)
   }"

subsection \<open>The mutators\<close>

text \<open>
  Lines 326--344 of \<^verbatim>\<open>AddPartToFile\<close>: the loop over the declared symbols of the
  new part, on the entries of the overlay (\<open>None\<close> while the overlay is nil) and the
  parser's table (read only). The loop reaches the overlay through the field of the
  representation only, so it is run on the entries, which \<open>readOverlay\<close> fetches from
  the map object and \<open>writeOverlay\<close> puts back: into the same object when there was
  one, which every holder of its address then sees, and into a new one (line 340)
  otherwise.
\<close>

fun addDeclaredSymbols ::
  "(Ref \<rightharpoonup> nat list) \<Rightarrow> nat \<Rightarrow> DeclaredSymbol list \<Rightarrow> (Ref \<rightharpoonup> nat list) option
     \<Rightarrow> (Ref \<rightharpoonup> nat list) option" where
  "addDeclaredSymbols fromParser partIndex [] overlay = overlay"
| "addDeclaredSymbols fromParser partIndex (declaredSymbol # rest) overlay =
     (if IsTopLevel declaredSymbol
      then
        let existing = (case overlay of None \<Rightarrow> None | Some m \<Rightarrow> m (DeclaredRef declaredSymbol));
            partIndices =
              (case existing of
                 Some found \<Rightarrow> found
               | None \<Rightarrow> (case fromParser (DeclaredRef declaredSymbol) of
                            None \<Rightarrow> [] | Some original \<Rightarrow> original));
            partIndices = partIndices @ [partIndex];
            m = (case overlay of None \<Rightarrow> Map.empty | Some m \<Rightarrow> m)
        in addDeclaredSymbols fromParser partIndex rest
             (Some (m(DeclaredRef declaredSymbol \<mapsto> partIndices)))
      else addDeclaredSymbols fromParser partIndex rest overlay)"

definition readOverlay :: "(Ref \<rightharpoonup> nat list) list \<Rightarrow> addr option \<Rightarrow> (Ref \<rightharpoonup> nat list) option option" where
  "readOverlay store overlay =
     (case overlay of None \<Rightarrow> Some None | Some a \<Rightarrow> map_option Some (nth_opt store a))"

definition writeOverlay :: "heap \<Rightarrow> addr option \<Rightarrow> (Ref \<rightharpoonup> nat list) option \<Rightarrow> heap \<times> addr option" where
  "writeOverlay h overlay entries =
     (case entries of
        None \<Rightarrow> (h, overlay)
      | Some m \<Rightarrow>
          (case overlay of
             None \<Rightarrow> (h\<lparr>overlay_maps := overlay_maps h @ [m]\<rparr>, Some (length (overlay_maps h)))
           | Some a \<Rightarrow> (h\<lparr>overlay_maps := (overlay_maps h)[a := m]\<rparr>, Some a)))"

text \<open>Lines 317--320: a nil \<^verbatim>\<open>SymbolUses\<close> of the new part is replaced by a fresh map.\<close>

definition ensureSymbolUses :: "heap \<Rightarrow> Part \<Rightarrow> heap \<times> Part" where
  "ensureSymbolUses h part =
     (if SymbolUses part = None
      then (h\<lparr>symbol_use_maps := symbol_use_maps h @ [Map.empty]\<rparr>,
            part\<lparr>SymbolUses := Some (length (symbol_use_maps h))\<rparr>)
      else (h, part))"

text \<open>Lines 316--347. The graph itself holds pointers only and is not written.\<close>

definition AddPartToFile :: "LinkerGraph \<Rightarrow> heap \<Rightarrow> nat \<Rightarrow> Part \<Rightarrow> (nat \<times> heap) option" where
  "AddPartToFile g h sourceIndex part = do {
     let (h, part) = ensureSymbolUses h part;
     file \<leftarrow> nth_opt (Files g) sourceIndex;
     a \<leftarrow> asJSRepr (Repr (InputFile file));
     repr \<leftarrow> nth_opt (js_reprs h) a;
     parts \<leftarrow> slice_elems (part_arrays h) (Parts (AST repr));
     let partIndex = u32 (length parts);
     let repr = repr\<lparr>AST := (AST repr)\<lparr>Parts := Some (length (part_arrays h))\<rparr>\<rparr>;
     let h = h\<lparr>part_arrays := part_arrays h @ [parts @ [part]]\<rparr>;
     entries \<leftarrow> readOverlay (overlay_maps h) (TopLevelSymbolToPartsOverlay (Meta repr));
     let entries = addDeclaredSymbols (TopLevelSymbolToPartsFromParser (AST repr)) partIndex
                     (DeclaredSymbols part) entries;
     let (h, overlay) = writeOverlay h (TopLevelSymbolToPartsOverlay (Meta repr)) entries;
     let repr = repr\<lparr>Meta := (Meta repr)\<lparr>TopLevelSymbolToPartsOverlay := overlay\<rparr>\<rparr>;
     Some (partIndex, h\<lparr>js_reprs := (js_reprs h)[a := repr]\<rparr>)
   }"


text \<open>
  Modelled from the spec: the method \<^verbatim>\<open>TopLevelSymbolToParts\<close> of \<^verbatim>\<open>JSRepr\<close> is
  declared outside \<^verbatim>\<open>graph.go\<close>. The spec calls it the declaring-parts lookup that
  transparently consults the overlay, an overlay entry being seeded with the parts the
  parser recorded: the overlay's entry when there is one, the parser's otherwise. The
  first argument is the store of the overlay maps.
\<close>

definition TopLevelSymbolToParts ::
  "(Ref \<rightharpoonup> nat list) list \<Rightarrow> JSRepr \<Rightarrow> Ref \<Rightarrow> nat list option" where
  "TopLevelSymbolToParts store repr ref = do {
     overlay \<leftarrow> map_entries store (TopLevelSymbolToPartsOverlay (Meta repr));
     Some (case overlay ref of
             Some parts \<Rightarrow> parts
           | None \<Rightarrow> (case TopLevelSymbolToPartsFromParser (AST repr) ref of
                        None \<Rightarrow> [] | Some parts \<Rightarrow> parts))
   }"

text \<open>
  Lines 368--411, block by block. Lines 382--385: the use count of the symbol on the
  part (reading a missing key yields the zero \<^verbatim>\<open>SymbolUse\<close>; the addition is
  \<^verbatim>\<open>uint32\<close> addition).
\<close>

definition markSymbolUsed :: "Ref \<Rightarrow> 32 word \<Rightarrow> (Ref \<rightharpoonup> SymbolUse) \<Rightarrow> (Ref \<rightharpoonup> SymbolUse)" where
  "markSymbolUsed ref useCount uses =
     (let use = (case uses ref of None \<Rightarrow> \<lparr>CountEstimate = 0\<rparr> | Some found \<Rightarrow> found);
          use = use\<lparr>CountEstimate := CountEstimate use + useCount\<rparr>
      in uses(ref \<mapsto> use))"

text \<open>Lines 387--393.\<close>

definition upholdCommonJSInvariants :: "Ref \<Rightarrow> js_ast_AST \<Rightarrow> js_ast_AST" where
  "upholdCommonJSInvariants ref ast =
     (let ast = (if ref = ExportsRef ast then ast\<lparr>UsesExportsRef := True\<rparr> else ast);
          ast = (if ref = ModuleRef ast then ast\<lparr>UsesModuleRef := True\<rparr> else ast)
      in ast)"

text \<open>Lines 395--401; writing to a nil \<^verbatim>\<open>ImportsToBind\<close> panics.\<close>

definition trackImport :: "nat \<Rightarrow> nat \<Rightarrow> Ref \<Rightarrow> JSReprMeta \<Rightarrow> JSReprMeta option" where
  "trackImport sourceIndex sourceIndexToImportFrom ref meta =
     (if sourceIndexToImportFrom \<noteq> sourceIndex
      then (case ImportsToBind meta of
              None \<Rightarrow> None
            | Some imports \<Rightarrow>
                Some (meta\<lparr>ImportsToBind := Some (imports(ref \<mapsto>
                  \<lparr>ImportDataSourceIndex = sourceIndexToImportFrom, ImportDataRef = ref\<rparr>))\<rparr>))
      else Some meta)"

text \<open>
  \<^verbatim>\<open>append(part.Dependencies, dependency)\<close> of line 406. While the slice is shorter than
  its backing array the element is written into the array, behind the elements of the
  slice, where every other slice on that array that is longer sees it. Otherwise (the nil
  slice included) the elements move to a new array, with the spare capacity that the
  runtime chooses, filled with zero values.
\<close>

definition allocateDependencies ::
  "(nat \<Rightarrow> nat) \<Rightarrow> Dependency list list \<Rightarrow> Dependency list
     \<Rightarrow> Dependency list list \<times> dependencySlice" where
  "allocateDependencies spare arrays elements =
     (arrays @ [elements @ replicate (spare (length elements)) (Dependency 0 0)],
      Some (length arrays, length elements))"

definition appendDependency ::
  "(nat \<Rightarrow> nat) \<Rightarrow> Dependency list list \<Rightarrow> dependencySlice \<Rightarrow> Dependency
     \<Rightarrow> (Dependency list list \<times> dependencySlice) option" where
  "appendDependency spare arrays header dependency =
     (case header of
        None \<Rightarrow> Some (allocateDependencies spare arrays [dependency])
      | Some (a, n) \<Rightarrow> do {
          array \<leftarrow> nth_opt arrays a;
          if n < length array
          then Some (arrays[a := array[n := dependency]], Some (a, Suc n))
          else if n = length array
          then Some (allocateDependencies spare arrays (array @ [dependency]))
          else None
        })"

text \<open>
  Lines 403--410: the loop over the declaring parts, on the store of the backing arrays
  and the header of \<^verbatim>\<open>part.Dependencies\<close>.
\<close>

fun pullInDeclaringParts ::
  "nat \<Rightarrow> nat list \<Rightarrow> (nat \<Rightarrow> nat) \<Rightarrow> Dependency list list \<Rightarrow> dependencySlice
     \<Rightarrow> (Dependency list list \<times> dependencySlice) option" where
  "pullInDeclaringParts sourceIndexToImportFrom [] spare arrays header = Some (arrays, header)"
| "pullInDeclaringParts sourceIndexToImportFrom (partIndex # rest) spare arrays header = do {
     (arrays, header) \<leftarrow>
       appendDependency spare arrays header (Dependency sourceIndexToImportFrom partIndex);
     pullInDeclaringParts sourceIndexToImportFrom rest spare arrays header
   }"

text \<open>
  The whole function. Taking the address of an element of a nil \<^verbatim>\<open>Parts\<close> and
  writing to a nil \<^verbatim>\<open>SymbolUses\<close> panic. The target's representation is read
  after the using file's has been written, as in the source. \<^verbatim>\<open>part\<close> points into
  the part list, so the header that the loop leaves is the one of the part there.
\<close>

definition GenerateSymbolImportAndUse ::
  "LinkerGraph \<Rightarrow> heap \<Rightarrow> nat \<Rightarrow> nat \<Rightarrow> Ref \<Rightarrow> 32 word \<Rightarrow> nat \<Rightarrow> heap option" where
  "GenerateSymbolImportAndUse g h sourceIndex partIndex ref useCount sourceIndexToImportFrom =
     (if useCount = 0 then Some h else do {
        file \<leftarrow> nth_opt (Files g) sourceIndex;
        a \<leftarrow> asJSRepr (Repr (InputFile file));
        repr \<leftarrow> nth_opt (js_reprs h) a;
        partsAddr \<leftarrow> Parts (AST repr);
        parts \<leftarrow> nth_opt (part_arrays h) partsAddr;
        part \<leftarrow> nth_opt parts partIndex;
        usesAddr \<leftarrow> SymbolUses part;
        uses \<leftarrow> nth_opt (symbol_use_maps h) usesAddr;
        let h = h\<lparr>symbol_use_maps := (symbol_use_maps h)[usesAddr := markSymbolUsed ref useCount uses]\<rparr>;
        let ast = upholdCommonJSInvariants ref (AST repr);
        meta \<leftarrow> trackImport sourceIndex sourceIndexToImportFrom ref (Meta repr);
        let h = h\<lparr>js_reprs := (js_reprs h)[a := repr\<lparr>AST := ast, Meta := meta\<rparr>]\<rparr>;
        targetFile \<leftarrow> nth_opt (Files g) sourceIndexToImportFrom;
        targetAddr \<leftarrow> asJSRepr (Repr (InputFile targetFile));
        targetRepr \<leftarrow> nth_opt (js_reprs h) targetAddr;
        declaring \<leftarrow> TopLevelSymbolToParts (overlay_maps h) targetRepr ref;
        (arrays, dependencies) \<leftarrow>
          pullInDeclaringParts sourceIndexToImportFrom declaring (spare_capacity h)
            (dependency_arrays h) (Dependencies part);
        Some (h\<lparr>dependency_arrays := arrays,
                part_arrays := (part_arrays h)[partsAddr :=
                  parts[partIndex := part\<lparr>Dependencies := dependencies\<rparr>]]\<rparr>)
      })"

text \<open>A sequence of calls of the mutators on one graph, as later passes make them.\<close>

datatype mutation =
  CallAddPartToFile nat Part
  | CallGenerateNewSymbol nat nat string
  | CallGenerateSymbolImportAndUse nat nat Ref "32 word" nat



subsection \<open>Reading the graph\<close>

text \<open>
  What a later pass sees through the graph: the representation of a file
  (\<^verbatim>\<open>g.Files[sourceIndex].InputFile.Repr.(*JSRepr)\<close>), one of its parts, and the use
  counts of that part.
\<close>

definition fileRepr :: "LinkerGraph \<Rightarrow> heap \<Rightarrow> nat \<Rightarrow> JSRepr option" where
  "fileRepr g h sourceIndex = do {
     file \<leftarrow> nth_opt (Files g) sourceIndex;
     a \<leftarrow> asJSRepr (Repr (InputFile file));
     nth_opt (js_reprs h) a
   }"

definition fileParts :: "LinkerGraph \<Rightarrow> heap \<Rightarrow> nat \<Rightarrow> Part list option" where
  "fileParts g h sourceIndex = do {
     repr \<leftarrow> fileRepr g h sourceIndex;
     slice_elems (part_arrays h) (Parts (AST repr))
   }"

definition filePart :: "LinkerGraph \<Rightarrow> heap \<Rightarrow> nat \<Rightarrow> nat \<Rightarrow> Part option" where
  "filePart g h sourceIndex partIndex = do {
     parts \<leftarrow> fileParts g h sourceIndex;
     nth_opt parts partIndex
   }"

definition partSymbolUses :: "LinkerGraph \<Rightarrow> heap \<Rightarrow> nat \<Rightarrow> nat \<Rightarrow> (Ref \<rightharpoonup> SymbolUse) option" where
  "partSymbolUses g h sourceIndex partIndex = do {
     part \<leftarrow> filePart g h sourceIndex partIndex;
     map_entries (symbol_use_maps h) (SymbolUses part)
   }"

text \<open>
  The elements of the \<^verbatim>\<open>Dependencies\<close> of a part: those of its backing array that
  lie within the length of the slice.
\<close>

definition dependencyElements :: "Dependency list list \<Rightarrow> dependencySlice \<Rightarrow> Dependency list option" where
  "dependencyElements arrays header =
     (case header of
        None \<Rightarrow> Some []
      | Some (a, n) \<Rightarrow> do {
          array \<leftarrow> nth_opt arrays a;
          if n \<le> length array then Some (take n array) else None
        })"

definition partDependencies :: "LinkerGraph \<Rightarrow> heap \<Rightarrow> nat \<Rightarrow> nat \<Rightarrow> Dependency list option" where
  "partDependencies g h sourceIndex partIndex = do {
     part \<leftarrow> filePart g h sourceIndex partIndex;
     dependencyElements (dependency_arrays h) (Dependencies part)
   }"

text \<open>The use-count estimate a read of \<^verbatim>\<open>SymbolUses[ref].CountEstimate\<close> yields.\<close>

definition useCountEstimate :: "(Ref \<rightharpoonup> SymbolUse) \<Rightarrow> Ref \<Rightarrow> 32 word" where
  "useCountEstimate uses ref = (case uses ref of None \<Rightarrow> 0 | Some use \<Rightarrow> CountEstimate use)"

text \<open>
  The declaring parts of a top-level symbol: the entry of the overlay (none while the
  overlay is nil or has no such key) and the entry of the parser's table (reading a
  missing key yields the nil slice).
\<close>

definition declaringPartsOverlay :: "heap \<Rightarrow> JSRepr \<Rightarrow> Ref \<Rightarrow> nat list option" where
  "declaringPartsOverlay h repr ref =
     (case readOverlay (overlay_maps h) (TopLevelSymbolToPartsOverlay (Meta repr)) of
        Some (Some m) \<Rightarrow> m ref
      | _ \<Rightarrow> None)"

definition declaringPartsFromParser :: "JSRepr \<Rightarrow> Ref \<Rightarrow> nat list" where
  "declaringPartsFromParser repr ref =
     (case TopLevelSymbolToPartsFromParser (AST repr) ref of None \<Rightarrow> [] | Some parts \<Rightarrow> parts)"

text \<open>
  The history of \<^verbatim>\<open>AddPartToFile\<close> on one file is the list of its calls, each the
  index it returned and the part it was given. \<open>addedDeclaringParts\<close> lists, in the order
  of the calls, the indices of the added parts that declare the symbol at top level, once
  for each such entry of \<^verbatim>\<open>DeclaredSymbols\<close>.
\<close>

definition topLevelDeclarations :: "DeclaredSymbol list \<Rightarrow> Ref \<Rightarrow> nat" where
  "topLevelDeclarations declared ref =
     length (filter (\<lambda>d. IsTopLevel d \<and> DeclaredRef d = ref) declared)"

definition addedDeclaringParts :: "(nat \<times> Part) list \<Rightarrow> Ref \<Rightarrow> nat list" where
  "addedDeclaringParts added ref =
     concat (map (\<lambda>(partIndex, part).
       replicate (topLevelDeclarations (DeclaredSymbols part) ref) partIndex) added)"

text \<open>
  The invariant of the overlay: a symbol has an entry exactly when an added part
  declares it, and the entry is what the parser recorded followed by the added parts.
\<close>

definition overlayInvariant :: "heap \<Rightarrow> JSRepr \<Rightarrow> (nat \<times> Part) list \<Rightarrow> bool" where
  "overlayInvariant h repr added \<longleftrightarrow>
     (\<forall>ref. declaringPartsOverlay h repr ref =
        (if addedDeclaringParts added ref = [] then None
         else Some (declaringPartsFromParser repr ref @ addedDeclaringParts added ref)))"

text \<open>The entry point that line 264 appends for a promoted file.\<close>

definition dynamicEntryPoint :: "nat \<Rightarrow> EntryPoint" where
  "dynamicEntryPoint sourceIndex =
     \<lparr>OutputPath = [], SourceIndex = sourceIndex, OutputPathWasAutoGenerated = False\<rparr>"

subsection \<open>What \<^verbatim>\<open>CloneLinkerGraph\<close> leaves of the store and of the files\<close>

text \<open>
  A store extends another one when every object of the old one is still there, at its
  address and with its value: the new store has only allocated.
\<close>

definition heapExtends :: "heap \<Rightarrow> heap \<Rightarrow> bool" where
  "heapExtends h h' \<longleftrightarrow>
     prefix (js_reprs h) (js_reprs h') \<and> prefix (css_reprs h) (css_reprs h') \<and>
     prefix (scopes h) (scopes h') \<and> prefix (symbol_arrays h) (symbol_arrays h') \<and>
     prefix (part_arrays h) (part_arrays h') \<and> prefix (record_arrays h) (record_arrays h') \<and>
     prefix (symbol_use_maps h) (symbol_use_maps h') \<and>
     prefix (named_import_maps h) (named_import_maps h') \<and>
     prefix (named_export_maps h) (named_export_maps h') \<and>
     prefix (dependency_arrays h) (dependency_arrays h') \<and>
     prefix (overlay_maps h) (overlay_maps h')"

text \<open>
  Lines 252--259 in one step: the files after the promotion of the targets in \<open>D\<close>, and
  the targets among \<open>D\<close> that are promoted (those that are no entry point yet).
\<close>

definition promoteAll :: "nat set \<Rightarrow> LinkerFile list \<Rightarrow> LinkerFile list" where
  "promoteAll D files =
     map (\<lambda>j. if j \<in> D \<and> entryPointKind (files ! j) = entryPointNone
              then (files ! j)\<lparr>entryPointKind := entryPointDynamicImport\<rparr> else files ! j)
       [0..<length files]"

definition promotable :: "nat set \<Rightarrow> LinkerFile list \<Rightarrow> nat set" where
  "promotable D files = {x \<in> D. entryPointKind (files ! x) = entryPointNone}"

text \<open>
  The import records of a file, read through its representation, and the representation
  itself when it is a \<^verbatim>\<open>*JSRepr\<close>. They are \<open>None\<close> when the store does not hold them.
\<close>

definition importRecordsOf :: "heap \<Rightarrow> InputFile \<Rightarrow> ImportRecord list option" where
  "importRecordsOf h f =
     (case Repr f of
        ReprJS a \<Rightarrow> do {
          repr \<leftarrow> nth_opt (js_reprs h) a;
          slice_elems (record_arrays h) (ImportRecords (AST repr))
        }
      | ReprCSS a \<Rightarrow> do {
          repr \<leftarrow> nth_opt (css_reprs h) a;
          slice_elems (record_arrays h) (CSSImportRecords repr)
        }
      | ReprOther \<Rightarrow> Some [])"

definition jsReprOf :: "heap \<Rightarrow> InputFile \<Rightarrow> JSRepr option" where
  "jsReprOf h f = do { a \<leftarrow> asJSRepr (Repr f); nth_opt (js_reprs h) a }"

text \<open>
  The targets that the task of a file appends to \<^verbatim>\<open>dynamicImportEntryPoints\<close>: the
  resolved targets of the dynamic imports of a JS file when code splitting is on.
\<close>

definition dynamicImportsOf :: "bool \<Rightarrow> heap \<Rightarrow> InputFile \<Rightarrow> nat list option" where
  "dynamicImportsOf codeSplitting h f =
     (case Repr f of
        ReprJS a \<Rightarrow> map_option (dynamicImportTargets codeSplitting) (importRecordsOf h f)
      | _ \<Rightarrow> Some [])"

text \<open>
  What the task of lines 153--248 establishes for its file, stated against the store
  \<open>h0\<close> that \<^verbatim>\<open>CloneLinkerGraph\<close> was given: the file of the graph points to a fresh
  clone, the symbols have moved to a fresh array in the slot of the symbol table, and the
  records are a copy, with the assertions removed where line 198 does.
\<close>

definition clonedJS ::
  "bool \<Rightarrow> heap \<Rightarrow> JSRepr \<Rightarrow> heap \<Rightarrow> InputFileRepr \<Rightarrow> addr option \<Rightarrow> bool" where
  "clonedJS codeSplitting h0 repr h r slot \<longleftrightarrow>
     (\<exists>c clone. r = ReprJS c \<and> length (js_reprs h0) \<le> c \<and>
        nth_opt (js_reprs h) c = Some clone \<and>
        Symbols (AST clone) = None \<and>
        TSEnums (AST clone) = TSEnums (AST repr) \<and>
        ConstValues (AST clone) = ConstValues (AST repr) \<and>
        (\<forall>syms. slice_elems (symbol_arrays h0) (Symbols (AST repr)) = Some syms \<longrightarrow>
           (\<exists>sa. slot = Some sa \<and> length (symbol_arrays h0) \<le> sa \<and>
                 nth_opt (symbol_arrays h) sa = Some syms)) \<and>
        (\<forall>records. slice_elems (record_arrays h0) (ImportRecords (AST repr)) = Some records \<longrightarrow>
           slice_elems (record_arrays h) (ImportRecords (AST clone))
             = Some (removeAssertions codeSplitting records)))"

definition clonedCSS :: "heap \<Rightarrow> CSSRepr \<Rightarrow> heap \<Rightarrow> InputFileRepr \<Rightarrow> bool" where
  "clonedCSS h0 repr h r \<longleftrightarrow>
     (\<exists>c clone. r = ReprCSS c \<and> nth_opt (css_reprs h) c = Some clone \<and>
        (\<forall>records. slice_elems (record_arrays h0) (CSSImportRecords repr) = Some records \<longrightarrow>
           slice_elems (record_arrays h) (CSSImportRecords clone) = Some records))"

definition clonedInto ::
  "bool \<Rightarrow> heap \<Rightarrow> InputFile \<Rightarrow> heap \<Rightarrow> LinkerFile \<Rightarrow> addr option \<Rightarrow> bool" where
  "clonedInto codeSplitting h0 f h lf slot \<longleftrightarrow>
     (case Repr f of
        ReprJS a \<Rightarrow> (case nth_opt (js_reprs h0) a of
                       None \<Rightarrow> True
                     | Some repr \<Rightarrow> clonedJS codeSplitting h0 repr h (Repr (InputFile lf)) slot)
      | ReprCSS a \<Rightarrow> (case nth_opt (css_reprs h0) a of
                        None \<Rightarrow> True
                      | Some repr \<Rightarrow> clonedCSS h0 repr h (Repr (InputFile lf)))
      | ReprOther \<Rightarrow> Repr (InputFile lf) = ReprOther)"

text \<open>
  The tables of a file of the graph that lines 280 and 290 merge: those of its
  representation when it is a \<^verbatim>\<open>*JSRepr\<close>.
\<close>

definition fileTSEnums :: "heap \<Rightarrow> LinkerFile \<Rightarrow> (Ref \<rightharpoonup> (string \<rightharpoonup> TSEnumValue)) option" where
  "fileTSEnums h lf = (case Repr (InputFile lf) of ReprJS a \<Rightarrow> TSEnums (AST (js_reprs h ! a)) | _ \<Rightarrow> None)"

definition fileConstValues :: "heap \<Rightarrow> LinkerFile \<Rightarrow> (Ref \<rightharpoonup> ConstValue) option" where
  "fileConstValues h lf = (case Repr (InputFile lf) of ReprJS a \<Rightarrow> ConstValues (AST (js_reprs h ! a)) | _ \<Rightarrow> None)"

text \<open>Every target that some task appends: the dynamic imports of the reachable files.\<close>

definition allDynamicTargets :: "bool \<Rightarrow> heap \<Rightarrow> InputFile list \<Rightarrow> nat list \<Rightarrow> nat set" where
  "allDynamicTargets codeSplitting h inputFiles reachableFiles =
     (\<Union>i\<in>set reachableFiles.
        (case dynamicImportsOf codeSplitting h (inputFiles ! i) of
           None \<Rightarrow> {} | Some targets \<Rightarrow> set targets))"

subsection \<open>What a linker leaves of the input alone\<close>

text \<open>
  The substructures of an input file as the store holds them, by value: its symbols, its
  parts, its import records and its named imports and exports. A file that is neither
  JavaScript nor CSS has none; a CSS file has import records only.
\<close>

type_synonym inputFileView =
  "Symbol list \<times> Part list \<times> ImportRecord list \<times>
   (Ref \<rightharpoonup> NamedImport) \<times> (string \<rightharpoonup> NamedExport)"

definition inputSnapshot :: "heap \<Rightarrow> InputFile \<Rightarrow> inputFileView option" where
  "inputSnapshot h f =
     (case Repr f of
        ReprJS a \<Rightarrow> do {
          repr \<leftarrow> nth_opt (js_reprs h) a;
          syms \<leftarrow> slice_elems (symbol_arrays h) (Symbols (AST repr));
          parts \<leftarrow> slice_elems (part_arrays h) (Parts (AST repr));
          records \<leftarrow> slice_elems (record_arrays h) (ImportRecords (AST repr));
          namedImports \<leftarrow> map_entries (named_import_maps h) (NamedImports (AST repr));
          namedExports \<leftarrow> map_entries (named_export_maps h) (NamedExports (AST repr));
          Some (syms, parts, records, namedImports, namedExports)
        }
      | ReprCSS a \<Rightarrow> do {
          repr \<leftarrow> nth_opt (css_reprs h) a;
          records \<leftarrow> slice_elems (record_arrays h) (CSSImportRecords repr);
          Some ([], [], records, Map.empty, Map.empty)
        }
      | ReprOther \<Rightarrow> Some ([], [], [], Map.empty, Map.empty))"

text \<open>
  A part of the snapshot is the \<^verbatim>\<open>Part\<close> struct, which names its \<^verbatim>\<open>SymbolUses\<close> and
  its \<^verbatim>\<open>Dependencies\<close> by address. What the parts of an input file hold by value is,
  for each part, the entries of the one and the elements of the other.
\<close>

definition inputParts :: "heap \<Rightarrow> InputFile \<Rightarrow> Part list option" where
  "inputParts h f =
     (case Repr f of
        ReprJS a \<Rightarrow> do {
          repr \<leftarrow> nth_opt (js_reprs h) a;
          slice_elems (part_arrays h) (Parts (AST repr))
        }
      | _ \<Rightarrow> Some [])"

fun partContents ::
  "heap \<Rightarrow> Part list \<Rightarrow> ((Ref \<rightharpoonup> SymbolUse) \<times> Dependency list) list option" where
  "partContents h [] = Some []"
| "partContents h (part # rest) = do {
     uses \<leftarrow> map_entries (symbol_use_maps h) (SymbolUses part);
     dependencies \<leftarrow> dependencyElements (dependency_arrays h) (Dependencies part);
     others \<leftarrow> partContents h rest;
     Some ((uses, dependencies) # others)
   }"

definition inputContents ::
  "heap \<Rightarrow> InputFile \<Rightarrow> ((Ref \<rightharpoonup> SymbolUse) \<times> Dependency list) list option" where
  "inputContents h f = do { parts \<leftarrow> inputParts h f; partContents h parts }"

text \<open>The store without its \<^verbatim>\<open>SymbolUses\<close> maps: every such map is then a new one.\<close>

definition forgetSymbolUses :: "heap \<Rightarrow> heap" where
  "forgetSymbolUses h = h\<lparr>symbol_use_maps := []\<rparr>"

text \<open>
  \<^verbatim>\<open>append\<close> writes behind the elements of the slice it is given. So appending to a
  slice leaves the elements of the slices in \<open>protected\<close> alone when none of them, on the
  same backing array, is longer than it.
\<close>

definition keepsClear :: "(addr \<times> nat) list \<Rightarrow> dependencySlice \<Rightarrow> bool" where
  "keepsClear protected header \<longleftrightarrow>
     (case header of
        None \<Rightarrow> True
      | Some (b, m) \<Rightarrow> list_all (\<lambda>(a, n). a = b \<longrightarrow> n \<le> m) protected)"




text \<open>
  A part that brings nothing of the input with it: its \<^verbatim>\<open>SymbolUses\<close> is nil or a map
  made after the store \<open>h0\<close> was taken, and its \<^verbatim>\<open>Dependencies\<close> keep the protected
  slices clear. A call of a mutator is fresh when the part it hands over, if any, is.
\<close>

definition freshPart :: "heap \<Rightarrow> (addr \<times> nat) list \<Rightarrow> Part \<Rightarrow> bool" where
  "freshPart h0 protected part \<longleftrightarrow>
     (case SymbolUses part of None \<Rightarrow> True | Some m \<Rightarrow> length (symbol_use_maps h0) \<le> m) \<and>
     keepsClear protected (Dependencies part)"

fun freshMutation :: "heap \<Rightarrow> (addr \<times> nat) list \<Rightarrow> mutation \<Rightarrow> bool" where
  "freshMutation h0 protected (CallAddPartToFile sourceIndex part) = freshPart h0 protected part"
| "freshMutation h0 protected (CallGenerateNewSymbol sourceIndex kind originalName) = True"
| "freshMutation h0 protected
     (CallGenerateSymbolImportAndUse sourceIndex partIndex ref useCount other) = True"




definition dependenciesKept ::
  "(addr \<times> nat) list \<Rightarrow> Dependency list list \<Rightarrow> Dependency list list \<Rightarrow> bool" where
  "dependenciesKept protected arrays0 arrays \<longleftrightarrow>
     list_all (\<lambda>(a, n). a < length arrays \<and> take n (arrays ! a) = take n (arrays0 ! a)) protected"

subsection \<open>Two runs on the same bundle\<close>

text \<open>
  The same bundle under other file identities: \<open>\<pi>\<close> maps the identity a file has in
  the first run to the one it has in the second. An entry point then names its file by the
  new identity.
\<close>

definition relabelEntryPoint :: "(nat \<Rightarrow> nat) \<Rightarrow> EntryPoint \<Rightarrow> EntryPoint" where
  "relabelEntryPoint \<pi> entryPoint = entryPoint\<lparr>SourceIndex := \<pi> (SourceIndex entryPoint)\<rparr>"

text \<open>
  The entry points of a graph with each file named by its stable index, its position in
  \<^verbatim>\<open>reachableFiles\<close>, instead of its identity.
\<close>

definition entryPointsByStableIndex :: "LinkerGraph \<Rightarrow> (string \<times> nat \<times> bool) list" where
  "entryPointsByStableIndex g =
     map (\<lambda>entryPoint. (OutputPath entryPoint, StableSourceIndices g ! SourceIndex entryPoint,
                         OutputPathWasAutoGenerated entryPoint))
       (entryPoints g)"

text \<open>The tables of an input file that lines 280 and 290 merge.\<close>

definition inputTSEnums :: "heap \<Rightarrow> InputFile \<Rightarrow> (Ref \<rightharpoonup> (string \<rightharpoonup> TSEnumValue)) option" where
  "inputTSEnums h f = (case jsReprOf h f of None \<Rightarrow> None | Some repr \<Rightarrow> TSEnums (AST repr))"

definition inputConstValues :: "heap \<Rightarrow> InputFile \<Rightarrow> (Ref \<rightharpoonup> ConstValue) option" where
  "inputConstValues h f = (case jsReprOf h f of None \<Rightarrow> None | Some repr \<Rightarrow> ConstValues (AST repr))"

text \<open>
  A table under renamed keys: its entry at a key is the entry that the given table has at
  the key's old name. For a \<^verbatim>\<open>Ref\<close> the old name is found by mapping the identity of its
  file back.
\<close>

definition relabelRef :: "(nat \<Rightarrow> nat) \<Rightarrow> Ref \<Rightarrow> Ref" where
  "relabelRef \<rho> ref = Ref (\<rho> (RefSourceIndex ref)) (InnerIndex ref)"

definition relabelTable :: "('k \<Rightarrow> 'k) \<Rightarrow> ('k \<rightharpoonup> 'v) option \<Rightarrow> ('k \<rightharpoonup> 'v) option" where
  "relabelTable old table = map_option (\<lambda>t. t \<circ> old) table"

text \<open>
  The input file \<open>f2\<close> in the store \<open>h2\<close> is the input file \<open>f1\<close> in the store \<open>h1\<close>
  under the relabeling, in what \<^verbatim>\<open>CloneLinkerGraph\<close> reads of it for its entry points
  and merged tables: both stores hold the file's import records, the targets of its
  dynamic imports are relabeled by \<open>\<pi>\<close>, and its tables have their keys renamed.
\<close>

definition relabeledInput ::
  "(nat \<Rightarrow> nat) \<Rightarrow> (Ref \<Rightarrow> Ref) \<Rightarrow> bool \<Rightarrow> heap \<Rightarrow> InputFile \<Rightarrow> heap \<Rightarrow> InputFile \<Rightarrow> bool" where
  "relabeledInput \<pi> old codeSplitting h1 f1 h2 f2 \<longleftrightarrow>
     importRecordsOf h1 f1 \<noteq> None \<and> importRecordsOf h2 f2 \<noteq> None \<and>
     dynamicImportsOf codeSplitting h2 f2 = map_option (map \<pi>) (dynamicImportsOf codeSplitting h1 f1) \<and>
     inputTSEnums h2 f2 = relabelTable old (inputTSEnums h1 f1) \<and>
     inputConstValues h2 f2 = relabelTable old (inputConstValues h1 f1)"

subsection \<open>A small bundle\<close>

text \<open>
  Four input files, used to try the theorems below on concrete data: \<^verbatim>\<open>a.js\<close> (file
  0, the entry point) imports \<^verbatim>\<open>b.js\<close> statically and \<^verbatim>\<open>c.js\<close> dynamically;
  \<^verbatim>\<open>b.js\<close> (file 1) imports \<^verbatim>\<open>c.js\<close> dynamically; \<^verbatim>\<open>c.js\<close> (file 2) declares
  the symbol \<open>Ref 2 0\<close> in two parts and exports it; \<^verbatim>\<open>d.css\<close> (file 3) is a style
  sheet. The part of \<^verbatim>\<open>b.js\<close> has one dependency, on part 0 of file 0, in a backing
  array with room for three. An array that \<^verbatim>\<open>append\<close> allocates gets as much spare
  capacity as it has elements.
\<close>

definition zeroAST :: js_ast_AST where
  "zeroAST = \<lparr>Symbols = None, Parts = None, ImportRecords = None, NamedImports = None,
     NamedExports = None, ModuleScope = None, TSEnums = None, ConstValues = None,
     TopLevelSymbolToPartsFromParser = Map.empty, ExportsRef = Ref 0 0, ModuleRef = Ref 0 0,
     UsesExportsRef = False, UsesModuleRef = False\<rparr>"

definition zeroMeta :: JSReprMeta where
  "zeroMeta = \<lparr>ResolvedExports = None, IsProbablyTypeScriptType = None, ImportsToBind = None,
     TopLevelSymbolToPartsOverlay = None\<rparr>"

definition jsonAssertion :: "(string \<times> string) list option" where
  "jsonAssertion = Some [(''type'', ''json'')]"

definition exampleHeap :: heap where
  "exampleHeap = \<lparr>
     js_reprs = [
       \<lparr>AST = zeroAST\<lparr>Symbols := Some 0, Parts := Some 0, ImportRecords := Some 0,
                ModuleScope := Some 0, ExportsRef := Ref 0 1, ModuleRef := Ref 0 2\<rparr>,
         Meta = zeroMeta\<rparr>,
       \<lparr>AST = zeroAST\<lparr>Symbols := Some 1, Parts := Some 1, ImportRecords := Some 1,
                ModuleScope := Some 1, TSEnums := Some [Ref 1 0 \<mapsto> Map.empty],
                ExportsRef := Ref 1 1, ModuleRef := Ref 1 2\<rparr>,
         Meta = zeroMeta\<rparr>,
       \<lparr>AST = zeroAST\<lparr>Symbols := Some 2, Parts := Some 2, NamedExports := Some 0,
                ModuleScope := Some 2, ConstValues := Some Map.empty,
                TopLevelSymbolToPartsFromParser := [Ref 2 0 \<mapsto> [0, 1]],
                ExportsRef := Ref 2 1, ModuleRef := Ref 2 2\<rparr>,
         Meta = zeroMeta\<rparr>],
     css_reprs = [\<lparr>CSSImportRecords = Some 2\<rparr>],
     scopes = [\<lparr>Generated = []\<rparr>, \<lparr>Generated = []\<rparr>, \<lparr>Generated = []\<rparr>],
     symbol_arrays = [
       [\<lparr>SymbolKind = 1, OriginalName = ''a'', Link = InvalidRef\<rparr>],
       [\<lparr>SymbolKind = 1, OriginalName = ''b'', Link = InvalidRef\<rparr>],
       [\<lparr>SymbolKind = 1, OriginalName = ''c'', Link = InvalidRef\<rparr>]],
     part_arrays = [
       [\<lparr>SymbolUses = None,
          DeclaredSymbols = [\<lparr>DeclaredRef = Ref 0 0, IsTopLevel = True\<rparr>], Dependencies = None\<rparr>],
       [\<lparr>SymbolUses = Some 0,
          DeclaredSymbols = [\<lparr>DeclaredRef = Ref 1 0, IsTopLevel = True\<rparr>],
          Dependencies = Some (0, 1)\<rparr>],
       [\<lparr>SymbolUses = None,
          DeclaredSymbols = [\<lparr>DeclaredRef = Ref 2 0, IsTopLevel = True\<rparr>], Dependencies = None\<rparr>,
        \<lparr>SymbolUses = None,
          DeclaredSymbols = [\<lparr>DeclaredRef = Ref 2 0, IsTopLevel = True\<rparr>], Dependencies = None\<rparr>]],
     record_arrays = [
       [\<lparr>RecordSourceIndex = Some 1, Kind = ImportStmt, Assertions = None\<rparr>,
        \<lparr>RecordSourceIndex = Some 2, Kind = ImportDynamic, Assertions = jsonAssertion\<rparr>],
       [\<lparr>RecordSourceIndex = Some 2, Kind = ImportDynamic, Assertions = jsonAssertion\<rparr>,
        \<lparr>RecordSourceIndex = None, Kind = ImportDynamic, Assertions = jsonAssertion\<rparr>],
       [\<lparr>RecordSourceIndex = None, Kind = ImportURL, Assertions = None\<rparr>]],
     symbol_use_maps = [[Ref 1 0 \<mapsto> \<lparr>CountEstimate = 1\<rparr>]],
     named_import_maps = [],
     named_export_maps = [[''c'' \<mapsto> \<lparr>NamedExportRef = Ref 2 0, AliasLoc = 7\<rparr>]],
     dependency_arrays = [[Dependency 0 0, Dependency 0 0, Dependency 0 0]],
     overlay_maps = [],
     spare_capacity = (\<lambda>n. n)\<rparr>"

definition exampleInputFiles :: "InputFile list" where
  "exampleInputFiles = [
     \<lparr>Source = ''a.js'', Repr = ReprJS 0\<rparr>, \<lparr>Source = ''b.js'', Repr = ReprJS 1\<rparr>,
     \<lparr>Source = ''c.js'', Repr = ReprJS 2\<rparr>, \<lparr>Source = ''d.css'', Repr = ReprCSS 0\<rparr>]"

definition exampleEntryPoints :: "EntryPoint list" where
  "exampleEntryPoints = [\<lparr>OutputPath = ''out/a'', SourceIndex = 0, OutputPathWasAutoGenerated = True\<rparr>]"

text \<open>
  A graph of two files as \<^verbatim>\<open>CloneLinkerGraph\<close> leaves them: file 0 has one part,
  file 1 has two parts that both declare \<open>Ref 1 0\<close>.
\<close>

definition linkedHeap :: heap where
  "linkedHeap = \<lparr>
     js_reprs = [
       \<lparr>AST = zeroAST\<lparr>Parts := Some 0, ImportRecords := Some 0, NamedImports := Some 0,
                ModuleScope := Some 0, ExportsRef := Ref 0 1, ModuleRef := Ref 0 2\<rparr>,
         Meta = zeroMeta\<lparr>ResolvedExports := Some Map.empty,
                IsProbablyTypeScriptType := Some Map.empty, ImportsToBind := Some Map.empty\<rparr>\<rparr>,
       \<lparr>AST = zeroAST\<lparr>Parts := Some 1, ImportRecords := Some 1, NamedImports := Some 1,
                ModuleScope := Some 1,
                TopLevelSymbolToPartsFromParser := [Ref 1 0 \<mapsto> [0, 1]],
                ExportsRef := Ref 1 1, ModuleRef := Ref 1 2\<rparr>,
         Meta = zeroMeta\<lparr>ResolvedExports := Some Map.empty,
                IsProbablyTypeScriptType := Some Map.empty, ImportsToBind := Some Map.empty\<rparr>\<rparr>],
     css_reprs = [],
     scopes = [\<lparr>Generated = []\<rparr>, \<lparr>Generated = []\<rparr>],
     symbol_arrays = [
       [\<lparr>SymbolKind = 1, OriginalName = ''a'', Link = InvalidRef\<rparr>],
       [\<lparr>SymbolKind = 1, OriginalName = ''c'', Link = InvalidRef\<rparr>]],
     part_arrays = [
       [\<lparr>SymbolUses = Some 0,
          DeclaredSymbols = [\<lparr>DeclaredRef = Ref 0 0, IsTopLevel = True\<rparr>], Dependencies = None\<rparr>],
       [\<lparr>SymbolUses = Some 1,
          DeclaredSymbols = [\<lparr>DeclaredRef = Ref 1 0, IsTopLevel = True\<rparr>], Dependencies = None\<rparr>,
        \<lparr>SymbolUses = Some 2,
          DeclaredSymbols = [\<lparr>DeclaredRef = Ref 1 0, IsTopLevel = True\<rparr>], Dependencies = None\<rparr>]],
     record_arrays = [[], []],
     symbol_use_maps = [Map.empty, Map.empty, Map.empty],
     named_import_maps = [Map.empty, Map.empty],
     named_export_maps = [],
     dependency_arrays = [],
     overlay_maps = [],
     spare_capacity = (\<lambda>n. n)\<rparr>"

definition linkedGraph :: LinkerGraph where
  "linkedGraph = \<lparr>
     Files = [
       \<lparr>EntryBits = [False], InputFile = \<lparr>Source = ''a.js'', Repr = ReprJS 0\<rparr>,
         DistanceFromEntryPoint = 2 ^ 32 - 1, EntryPointChunkIndex = 0,
         entryPointKind = entryPointUserSpecified, IsLive = False\<rparr>,
       \<lparr>EntryBits = [False], InputFile = \<lparr>Source = ''c.js'', Repr = ReprJS 1\<rparr>,
         DistanceFromEntryPoint = 2 ^ 32 - 1, EntryPointChunkIndex = 0,
         entryPointKind = entryPointNone, IsLive = False\<rparr>],
     entryPoints = [\<lparr>OutputPath = ''out/a'', SourceIndex = 0, OutputPathWasAutoGenerated = True\<rparr>],
     SymbolsForSource = [Some 0, Some 1],
     GraphTSEnums = None, GraphConstValues = None,
     ReachableFiles = [0, 1], StableSourceIndices = [0, 1]\<rparr>"

text \<open>A synthetic part that declares \<open>Ref 1 0\<close> at top level and has no use counts yet.\<close>

definition newPart :: Part where
  "newPart = \<lparr>SymbolUses = None,
     DeclaredSymbols = [\<lparr>DeclaredRef = Ref 1 0, IsTopLevel = True\<rparr>], Dependencies = None\<rparr>"

text \<open>The bundle linked with code splitting, the tasks appending in the order of the files.\<close>

definition exampleLinked :: "LinkerGraph \<times> heap" where
  "exampleLinked = the (CloneLinkerGraph [] exampleHeap exampleInputFiles [0, 1, 2, 3]
     exampleEntryPoints True)"


text \<open>
  A bundle that shares more with its graphs than a parser's output does. The part of file
  0 has an empty \<^verbatim>\<open>Dependencies\<close> slice on a backing array with room for two; file
  1 declares \<open>Ref 1 0\<close> in its part 1; file 2 declares \<open>Ref 2 0\<close> in its two parts, and
  its representation already has an overlay, which holds these two parts for the symbol.
\<close>

definition sharingHeap :: heap where
  "sharingHeap = \<lparr>
     js_reprs = [
       \<lparr>AST = zeroAST\<lparr>Parts := Some 0, ModuleScope := Some 0\<rparr>, Meta = zeroMeta\<rparr>,
       \<lparr>AST = zeroAST\<lparr>ModuleScope := Some 0,
                TopLevelSymbolToPartsFromParser := [Ref 1 0 \<mapsto> [1]]\<rparr>,
         Meta = zeroMeta\<rparr>,
       \<lparr>AST = zeroAST\<lparr>Parts := Some 1, ModuleScope := Some 0,
                TopLevelSymbolToPartsFromParser := [Ref 2 0 \<mapsto> [0, 1]]\<rparr>,
         Meta = zeroMeta\<lparr>TopLevelSymbolToPartsOverlay := Some 0\<rparr>\<rparr>],
     css_reprs = [],
     scopes = [\<lparr>Generated = []\<rparr>],
     symbol_arrays = [],
     part_arrays = [
       [\<lparr>SymbolUses = None, DeclaredSymbols = [], Dependencies = Some (0, 0)\<rparr>],
       [\<lparr>SymbolUses = None,
          DeclaredSymbols = [\<lparr>DeclaredRef = Ref 2 0, IsTopLevel = True\<rparr>], Dependencies = None\<rparr>,
        \<lparr>SymbolUses = None,
          DeclaredSymbols = [\<lparr>DeclaredRef = Ref 2 0, IsTopLevel = True\<rparr>], Dependencies = None\<rparr>]],
     record_arrays = [],
     symbol_use_maps = [],
     named_import_maps = [],
     named_export_maps = [],
     dependency_arrays = [[Dependency 0 0, Dependency 0 0]],
     overlay_maps = [[Ref 2 0 \<mapsto> [0, 1]]],
     spare_capacity = (\<lambda>n. n)\<rparr>"

definition sharingInputFiles :: "InputFile list" where
  "sharingInputFiles = [
     \<lparr>Source = ''x.js'', Repr = ReprJS 0\<rparr>, \<lparr>Source = ''y.js'', Repr = ReprJS 1\<rparr>,
     \<lparr>Source = ''z.js'', Repr = ReprJS 2\<rparr>]"

text \<open>Two graphs of this bundle, the second made after the first.\<close>

definition firstGraph :: "LinkerGraph \<times> heap" where
  "firstGraph = the (CloneLinkerGraph [] sharingHeap sharingInputFiles [0, 1, 2] [] False)"

definition secondGraph :: "LinkerGraph \<times> heap" where
  "secondGraph = the (CloneLinkerGraph [] (snd firstGraph) sharingInputFiles [0, 1, 2] [] False)"

text \<open>A synthetic part that declares \<open>Ref 2 0\<close> at top level.\<close>

definition thirdPart :: Part where
  "thirdPart = \<lparr>SymbolUses = None,
     DeclaredSymbols = [\<lparr>DeclaredRef = Ref 2 0, IsTopLevel = True\<rparr>], Dependencies = None\<rparr>"

text \<open>
  The same bundle with the identities of \<^verbatim>\<open>b.js\<close> and \<^verbatim>\<open>c.js\<close> exchanged: the import
  records name their targets by the new identities, the tables have their keys renamed,
  and the files are listed by their new identities.
\<close>

definition swapBC :: "nat \<Rightarrow> nat" where
  "swapBC i = (if i = 1 then 2 else if i = 2 then 1 else i)"

definition relabeledHeap :: heap where
  "relabeledHeap = exampleHeap\<lparr>
     record_arrays :=
       map (map (\<lambda>record. record\<lparr>RecordSourceIndex := map_option swapBC (RecordSourceIndex record)\<rparr>))
         (record_arrays exampleHeap),
     js_reprs :=
       map (\<lambda>repr. repr\<lparr>AST := (AST repr)\<lparr>
              TSEnums := relabelTable (relabelRef swapBC) (TSEnums (AST repr)),
              ConstValues := relabelTable (relabelRef swapBC) (ConstValues (AST repr))\<rparr>\<rparr>)
         (js_reprs exampleHeap)\<rparr>"

definition relabeledInputFiles :: "InputFile list" where
  "relabeledInputFiles =
     [exampleInputFiles ! 0, exampleInputFiles ! 2, exampleInputFiles ! 1, exampleInputFiles ! 3]"

text \<open>The relabeled bundle linked under another schedule of the tasks.\<close>

definition relabeledLinked :: "LinkerGraph \<times> heap" where
  "relabeledLinked = the (CloneLinkerGraph [1, 0] relabeledHeap relabeledInputFiles [0, 2, 1, 3]
     (map (relabelEntryPoint swapBC) exampleEntryPoints) True)"

section \<open>Properties\<close>

subsection \<open>Reading the store\<close>

lemma nth_opt_Some [simp]: "nth_opt xs i = Some x \<longleftrightarrow> i < length xs \<and> xs ! i = x"
  by (auto simp: nth_opt_def)

lemma nth_opt_None [simp]: "nth_opt xs i = None \<longleftrightarrow> length xs \<le> i"
  by (auto simp: nth_opt_def)

lemma asJSRepr_Some [simp]: "asJSRepr r = Some a \<longleftrightarrow> r = ReprJS a"
  by (cases r) (auto simp: asJSRepr_def)

text \<open>The definitions that evaluate the model on the small bundle.\<close>

lemmas example_defs = exampleHeap_def exampleInputFiles_def exampleEntryPoints_def zeroAST_def
  zeroMeta_def jsonAssertion_def

lemmas clone_eval = CloneLinkerGraph_def zeroLinkerFile_def cloneFile_def cloneJSRepr_def
  cloneCSSRepr_def nth_opt_def slice_elems_def map_entries_def Let_def dynamicImportTargets_def
  removeAssertions_def isDynamicImportEntry_def u32_def mergeTable_def

lemmas linked_defs = linkedGraph_def linkedHeap_def zeroAST_def zeroMeta_def

lemmas use_eval = GenerateSymbolImportAndUse_def markSymbolUsed_def upholdCommonJSInvariants_def
  trackImport_def appendDependency_def allocateDependencies_def TopLevelSymbolToParts_def
  nth_opt_def asJSRepr_def slice_elems_def map_entries_def Let_def

lemmas read_eval = fileRepr_def fileParts_def filePart_def partSymbolUses_def useCountEstimate_def
  partDependencies_def dependencyElements_def

lemma example_run:
  "CloneLinkerGraph [] exampleHeap exampleInputFiles [0, 1, 2, 3] exampleEntryPoints True
     = Some (fst exampleLinked, snd exampleLinked)"
  unfolding exampleLinked_def by (simp add: example_defs clone_eval)

subsection \<open>\<^verbatim>\<open>GenerateSymbolImportAndUse\<close>\<close>

lemma TopLevelSymbolToParts_cong:
  "TopLevelSymbolToPartsOverlay (Meta r') = TopLevelSymbolToPartsOverlay (Meta r) \<Longrightarrow>
   TopLevelSymbolToPartsFromParser (AST r') = TopLevelSymbolToPartsFromParser (AST r) \<Longrightarrow>
   TopLevelSymbolToParts store r' ref = TopLevelSymbolToParts store r ref"
  unfolding TopLevelSymbolToParts_def by presburger

lemma appendDependency_elements:
  assumes "appendDependency spare arrays header x = Some (arrays', header')"
    and "dependencyElements arrays header = Some deps"
  shows "dependencyElements arrays' header' = Some (deps @ [x])"
proof (cases header)
  case None
  with assms show ?thesis
    by (auto simp: appendDependency_def allocateDependencies_def dependencyElements_def nth_opt_def)
next
  case (Some slot)
  obtain a n where slot: "slot = (a, n)" by (cases slot)
  from assms(2) Some slot have a: "a < length arrays" and n: "n \<le> length (arrays ! a)"
    and deps: "deps = take n (arrays ! a)"
    by (auto simp: dependencyElements_def bind_eq_Some_conv split: if_splits)
  show ?thesis
  proof (cases "n < length (arrays ! a)")
    case True
    with assms(1) Some slot a have "arrays' = arrays[a := (arrays ! a)[n := x]]" "header' = Some (a, Suc n)"
      by (auto simp: appendDependency_def nth_opt_def)
    with a True deps show ?thesis
      by (simp add: dependencyElements_def take_Suc_conv_app_nth nth_opt_def)
  next
    case False
    with n have full: "n = length (arrays ! a)" by simp
    with assms(1) Some slot a have
      "arrays' = arrays @ [(arrays ! a @ [x]) @ replicate (spare (length (arrays ! a @ [x]))) (Dependency 0 0)]"
      "header' = Some (length arrays, Suc n)"
      by (auto simp: appendDependency_def allocateDependencies_def nth_opt_def)
    with full deps show ?thesis
      by (simp add: dependencyElements_def nth_opt_def)
  qed
qed

lemma pullInDeclaringParts_elements:
  assumes "pullInDeclaringParts f declaring spare arrays header = Some (arrays', header')"
    and "dependencyElements arrays header = Some deps"
  shows "dependencyElements arrays' header' = Some (deps @ map (Dependency f) declaring)"
  using assms
proof (induction declaring arbitrary: arrays header deps)
  case Nil
  then show ?case by simp
next
  case (Cons partIndex rest)
  from Cons.prems(1) obtain arrays1 header1 where
    step: "appendDependency spare arrays header (Dependency f partIndex) = Some (arrays1, header1)"
    and rest: "pullInDeclaringParts f rest spare arrays1 header1 = Some (arrays', header')"
    by (auto simp: bind_eq_Some_conv)
  from Cons.IH [OF rest appendDependency_elements [OF step Cons.prems(2)]]
  show ?case by simp
qed

lemma GenerateSymbolImportAndUse_SomeE:
  assumes "GenerateSymbolImportAndUse g h s p ref n f = Some h'" and "n \<noteq> 0"
  obtains a pa ua ta meta declaring arrays dependencies where
    "s < length (Files g)" "Repr (InputFile (Files g ! s)) = ReprJS a" "a < length (js_reprs h)"
    "Parts (AST (js_reprs h ! a)) = Some pa" "pa < length (part_arrays h)"
    "p < length (part_arrays h ! pa)"
    "SymbolUses (part_arrays h ! pa ! p) = Some ua" "ua < length (symbol_use_maps h)"
    "trackImport s f ref (Meta (js_reprs h ! a)) = Some meta"
    "f < length (Files g)" "Repr (InputFile (Files g ! f)) = ReprJS ta" "ta < length (js_reprs h)"
    "TopLevelSymbolToParts (overlay_maps h)
       ((js_reprs h)[a := (js_reprs h ! a)\<lparr>AST := upholdCommonJSInvariants ref (AST (js_reprs h ! a)),
               Meta := meta\<rparr>] ! ta) ref = Some declaring"
    "pullInDeclaringParts f declaring (spare_capacity h) (dependency_arrays h)
       (Dependencies (part_arrays h ! pa ! p)) = Some (arrays, dependencies)"
    "h' = h\<lparr>symbol_use_maps := (symbol_use_maps h)[ua := markSymbolUsed ref n (symbol_use_maps h ! ua)],
           js_reprs := (js_reprs h)[a := (js_reprs h ! a)\<lparr>AST := upholdCommonJSInvariants ref (AST (js_reprs h ! a)),
               Meta := meta\<rparr>],
           dependency_arrays := arrays,
           part_arrays := (part_arrays h)[pa := (part_arrays h ! pa)[p :=
               (part_arrays h ! pa ! p)\<lparr>Dependencies := dependencies\<rparr>]]\<rparr>"
  using assms
  by (clarsimp simp: GenerateSymbolImportAndUse_def bind_eq_Some_conv Let_def)

lemma upholdCommonJSInvariants_simps [simp]:
  "Parts (upholdCommonJSInvariants ref ast) = Parts ast"
  "TopLevelSymbolToPartsFromParser (upholdCommonJSInvariants ref ast) = TopLevelSymbolToPartsFromParser ast"
  "ModuleScope (upholdCommonJSInvariants ref ast) = ModuleScope ast"
  "Symbols (upholdCommonJSInvariants ref ast) = Symbols ast"
  "ImportRecords (upholdCommonJSInvariants ref ast) = ImportRecords ast"
  "NamedImports (upholdCommonJSInvariants ref ast) = NamedImports ast"
  "NamedExports (upholdCommonJSInvariants ref ast) = NamedExports ast"
  by (simp_all add: upholdCommonJSInvariants_def Let_def)

lemma trackImport_overlay:
  "trackImport s f ref meta = Some meta' \<Longrightarrow>
   TopLevelSymbolToPartsOverlay meta' = TopLevelSymbolToPartsOverlay meta"
  by (auto simp: trackImport_def split: if_splits option.splits)

lemma TopLevelSymbolToParts_after_use:
  "trackImport s f ref (Meta repr) = Some meta \<Longrightarrow>
   TopLevelSymbolToParts store (repr\<lparr>AST := upholdCommonJSInvariants ref (AST repr), Meta := meta\<rparr>) r
     = TopLevelSymbolToParts store repr r"
  by (rule TopLevelSymbolToParts_cong) (simp_all add: trackImport_overlay)

lemma markSymbolUsed_eq:
  "markSymbolUsed ref n uses = uses(ref \<mapsto> \<lparr>CountEstimate = useCountEstimate uses ref + n\<rparr>)"
proof (cases "uses ref")
  case None
  then show ?thesis by (simp add: markSymbolUsed_def useCountEstimate_def)
next
  case (Some use)
  then show ?thesis by (cases use) (simp add: markSymbolUsed_def useCountEstimate_def)
qed

lemma GenerateSymbolImportAndUse_uses:
  assumes "GenerateSymbolImportAndUse g h s p ref n f = Some h'" and "n \<noteq> 0"
  shows "\<exists>uses. partSymbolUses g h s p = Some uses \<and>
           partSymbolUses g h' s p = Some (markSymbolUsed ref n uses)"
  using assms
  by (rule GenerateSymbolImportAndUse_SomeE)
     (clarsimp simp: partSymbolUses_def filePart_def fileParts_def fileRepr_def bind_eq_Some_conv slice_elems_def
        map_entries_def)

text \<open>
  Claim C3. A call of \<^verbatim>\<open>GenerateSymbolImportAndUse\<close> (the spec's recordSymbolUse)
  with a non-zero use count appends to the dependencies of the using part exactly one edge
  for each part that the declaring-parts lookup of the file imported from returns for the
  symbol, in the lookup's order and pointing at that file; so the list grows by the number
  of declaring parts (by two when two parts declare the symbol). The dependencies of the
  part are the elements of its slice, as far as the store holds them, whether
  \<^verbatim>\<open>append\<close> wrote them in place or moved them to a new array.
\<close>

theorem recordSymbolUse_dependency_edges:
  assumes "GenerateSymbolImportAndUse g h s p ref n f = Some h'" and "n \<noteq> 0"
  shows "\<exists>part target declaring. filePart g h s p = Some part \<and> fileRepr g h f = Some target \<and>
           TopLevelSymbolToParts (overlay_maps h) target ref = Some declaring \<and>
           (\<forall>dependencies.
              dependencyElements (dependency_arrays h) (Dependencies part) = Some dependencies \<longrightarrow>
              partDependencies g h' s p = Some (dependencies @ map (Dependency f) declaring) \<and>
              map_option length (partDependencies g h' s p)
                = Some (length dependencies + length declaring))"
proof -
  from assms(1,2) obtain a pa ua ta meta declaring arrays header where
    s: "s < length (Files g)" "Repr (InputFile (Files g ! s)) = ReprJS a" "a < length (js_reprs h)"
    and pa: "Parts (AST (js_reprs h ! a)) = Some pa" "pa < length (part_arrays h)"
      "p < length (part_arrays h ! pa)"
    and meta: "trackImport s f ref (Meta (js_reprs h ! a)) = Some meta"
    and f: "f < length (Files g)" "Repr (InputFile (Files g ! f)) = ReprJS ta" "ta < length (js_reprs h)"
    and lookup: "TopLevelSymbolToParts (overlay_maps h)
       ((js_reprs h)[a := (js_reprs h ! a)\<lparr>AST := upholdCommonJSInvariants ref (AST (js_reprs h ! a)),
               Meta := meta\<rparr>] ! ta) ref = Some declaring"
    and pull: "pullInDeclaringParts f declaring (spare_capacity h) (dependency_arrays h)
       (Dependencies (part_arrays h ! pa ! p)) = Some (arrays, header)"
    and h': "h' = h\<lparr>symbol_use_maps := (symbol_use_maps h)[ua := markSymbolUsed ref n (symbol_use_maps h ! ua)],
           js_reprs := (js_reprs h)[a := (js_reprs h ! a)\<lparr>AST := upholdCommonJSInvariants ref (AST (js_reprs h ! a)),
               Meta := meta\<rparr>],
           dependency_arrays := arrays,
           part_arrays := (part_arrays h)[pa := (part_arrays h ! pa)[p :=
               (part_arrays h ! pa ! p)\<lparr>Dependencies := header\<rparr>]]\<rparr>"
    by (rule GenerateSymbolImportAndUse_SomeE)
  have target: "TopLevelSymbolToParts (overlay_maps h) (js_reprs h ! ta) ref = Some declaring"
    using s f TopLevelSymbolToParts_after_use [OF meta] lookup by (cases "ta = a") simp_all
  have part: "filePart g h s p = Some (part_arrays h ! pa ! p)"
    using s pa by (simp add: filePart_def fileParts_def fileRepr_def bind_eq_Some_conv slice_elems_def)
  have "partDependencies g h' s p = Some (dependencies @ map (Dependency f) declaring)"
    if "dependencyElements (dependency_arrays h) (Dependencies (part_arrays h ! pa ! p))
          = Some dependencies" for dependencies
    using pullInDeclaringParts_elements [OF pull that] s pa
    by (simp add: h' partDependencies_def filePart_def fileParts_def fileRepr_def bind_eq_Some_conv
        slice_elems_def)
  with f target part show ?thesis
    by (simp add: fileRepr_def bind_eq_Some_conv)
qed

theorem recordSymbolUse_dependency_edges_witness:
  "\<exists>h'. GenerateSymbolImportAndUse linkedGraph linkedHeap 0 0 (Ref 1 0) 2 1 = Some h' \<and>
         (2 :: 32 word) \<noteq> 0 \<and>
         partDependencies linkedGraph linkedHeap 0 0 = Some [] \<and>
         partDependencies linkedGraph h' 0 0 = Some [Dependency 1 0, Dependency 1 1]"
proof -
  define h' where "h' = the (GenerateSymbolImportAndUse linkedGraph linkedHeap 0 0 (Ref 1 0) 2 1)"
  have call: "GenerateSymbolImportAndUse linkedGraph linkedHeap 0 0 (Ref 1 0) 2 1 = Some h'"
    unfolding h'_def by (simp add: linked_defs use_eval)
  have part: "partDependencies linkedGraph linkedHeap 0 0 = Some []"
    by (simp add: linked_defs read_eval nth_opt_def asJSRepr_def slice_elems_def)
  have target: "(fileRepr linkedGraph linkedHeap 1 \<bind>
        (\<lambda>repr. TopLevelSymbolToParts (overlay_maps linkedHeap) repr (Ref 1 0))) = Some [0, 1]"
    by (simp add: linked_defs read_eval nth_opt_def asJSRepr_def TopLevelSymbolToParts_def
        map_entries_def)
  from recordSymbolUse_dependency_edges [OF call] part target
  have "partDependencies linkedGraph h' 0 0 = Some [Dependency 1 0, Dependency 1 1]"
    by (auto simp: partDependencies_def)
  with call part show ?thesis by simp
qed

text \<open>
  Claim C4. A call of \<^verbatim>\<open>GenerateSymbolImportAndUse\<close> with a non-zero use count
  records the binding of the symbol to (file imported from, symbol) in the
  \<^verbatim>\<open>ImportsToBind\<close> of the using file exactly when the file imported from is not the
  using file; when it is the using file, its metadata is left as it was.
\<close>

theorem recordSymbolUse_import_binding:
  assumes "GenerateSymbolImportAndUse g h s p ref n f = Some h'" and "n \<noteq> 0"
  shows "\<exists>repr repr'. fileRepr g h s = Some repr \<and> fileRepr g h' s = Some repr' \<and>
           (if f \<noteq> s
            then \<exists>imports. ImportsToBind (Meta repr) = Some imports \<and>
                   Meta repr' = (Meta repr)\<lparr>ImportsToBind := Some (imports(ref \<mapsto>
                     \<lparr>ImportDataSourceIndex = f, ImportDataRef = ref\<rparr>))\<rparr>
            else Meta repr' = Meta repr)"
  using assms
  by (rule GenerateSymbolImportAndUse_SomeE)
     (auto simp: fileRepr_def bind_eq_Some_conv trackImport_def split: option.splits if_splits)

theorem recordSymbolUse_import_binding_witness:
  "\<exists>h' h''. GenerateSymbolImportAndUse linkedGraph linkedHeap 0 0 (Ref 1 0) 2 1 = Some h' \<and>
         GenerateSymbolImportAndUse linkedGraph linkedHeap 0 0 (Ref 0 0) 2 0 = Some h'' \<and>
         (2 :: 32 word) \<noteq> 0 \<and>
         map_option (ImportsToBind \<circ> Meta) (fileRepr linkedGraph h' 0)
           = Some (Some [Ref 1 0 \<mapsto> \<lparr>ImportDataSourceIndex = 1, ImportDataRef = Ref 1 0\<rparr>]) \<and>
         map_option Meta (fileRepr linkedGraph h'' 0) = map_option Meta (fileRepr linkedGraph linkedHeap 0)"
proof -
  define h' where "h' = the (GenerateSymbolImportAndUse linkedGraph linkedHeap 0 0 (Ref 1 0) 2 1)"
  define h'' where "h'' = the (GenerateSymbolImportAndUse linkedGraph linkedHeap 0 0 (Ref 0 0) 2 0)"
  have other: "GenerateSymbolImportAndUse linkedGraph linkedHeap 0 0 (Ref 1 0) 2 1 = Some h'"
    unfolding h'_def by (simp add: linked_defs use_eval)
  have self: "GenerateSymbolImportAndUse linkedGraph linkedHeap 0 0 (Ref 0 0) 2 0 = Some h''"
    unfolding h''_def by (simp add: linked_defs use_eval)
  have before: "map_option (ImportsToBind \<circ> Meta) (fileRepr linkedGraph linkedHeap 0) = Some (Some Map.empty)"
    by (simp add: linked_defs read_eval nth_opt_def asJSRepr_def)
  from recordSymbolUse_import_binding [OF other] before
  have 1: "map_option (ImportsToBind \<circ> Meta) (fileRepr linkedGraph h' 0)
           = Some (Some [Ref 1 0 \<mapsto> \<lparr>ImportDataSourceIndex = 1, ImportDataRef = Ref 1 0\<rparr>])"
    by auto
  from recordSymbolUse_import_binding [OF self]
  have 2: "map_option Meta (fileRepr linkedGraph h'' 0) = map_option Meta (fileRepr linkedGraph linkedHeap 0)"
    by auto
  from other self 1 2 show ?thesis by simp
qed

text \<open>
  Claim C8. A call with use count 0 returns the store it was given: no use count, no
  dependency, no metadata and no flag changes. Two calls for the same file, part and
  symbol with counts \<open>n\<close> and \<open>m\<close>, not both 0, leave the symbol's entry on the part
  at the estimate it had (0 when it had no entry) plus \<open>n + m\<close>, in \<^verbatim>\<open>uint32\<close>
  arithmetic, and leave the other entries alone.
\<close>

theorem recordSymbolUse_accumulates:
  "GenerateSymbolImportAndUse g h s p ref 0 f0 = Some h \<and>
   (GenerateSymbolImportAndUse g h s p ref n f1 = Some h1 \<longrightarrow>
    GenerateSymbolImportAndUse g h1 s p ref m f2 = Some h2 \<longrightarrow>
    n \<noteq> 0 \<or> m \<noteq> 0 \<longrightarrow>
    partSymbolUses g h s p = Some uses \<longrightarrow>
    partSymbolUses g h2 s p
      = Some (uses(ref \<mapsto> \<lparr>CountEstimate = useCountEstimate uses ref + n + m\<rparr>)))"
proof (intro conjI impI)
  show "GenerateSymbolImportAndUse g h s p ref 0 f0 = Some h"
    by (simp add: GenerateSymbolImportAndUse_def)
next
  assume c1: "GenerateSymbolImportAndUse g h s p ref n f1 = Some h1"
    and c2: "GenerateSymbolImportAndUse g h1 s p ref m f2 = Some h2"
    and nm: "n \<noteq> 0 \<or> m \<noteq> 0"
    and uses: "partSymbolUses g h s p = Some uses"
  have zero: "\<And>h f. GenerateSymbolImportAndUse g h s p ref 0 f = Some h"
    by (simp add: GenerateSymbolImportAndUse_def)
  have est: "useCountEstimate (markSymbolUsed ref n uses) ref = useCountEstimate uses ref + n" for n
    by (simp add: markSymbolUsed_eq useCountEstimate_def)
  show "partSymbolUses g h2 s p
      = Some (uses(ref \<mapsto> \<lparr>CountEstimate = useCountEstimate uses ref + n + m\<rparr>))"
  proof (cases "n = 0")
    case True
    with c1 zero have "h1 = h" by simp
    moreover from True nm have "m \<noteq> 0" by simp
    ultimately show ?thesis
      using GenerateSymbolImportAndUse_uses [OF c2] uses True by (auto simp: markSymbolUsed_eq)
  next
    case False
    from GenerateSymbolImportAndUse_uses [OF c1 False] uses
    have u1: "partSymbolUses g h1 s p = Some (markSymbolUsed ref n uses)" by simp
    show ?thesis
    proof (cases "m = 0")
      case True
      with c2 zero have "h2 = h1" by simp
      with u1 True show ?thesis by (simp add: markSymbolUsed_eq)
    next
      case False
      from GenerateSymbolImportAndUse_uses [OF c2 False] u1
      have "partSymbolUses g h2 s p = Some (markSymbolUsed ref m (markSymbolUsed ref n uses))"
        by simp
      then show ?thesis
        by (simp add: markSymbolUsed_eq [of ref m] est) (simp add: markSymbolUsed_eq)
    qed
  qed
qed

theorem recordSymbolUse_accumulates_witness:
  "\<exists>h1 h2. GenerateSymbolImportAndUse linkedGraph linkedHeap 0 0 (Ref 1 0) 2 1 = Some h1 \<and>
         GenerateSymbolImportAndUse linkedGraph h1 0 0 (Ref 1 0) 3 1 = Some h2 \<and>
         partSymbolUses linkedGraph linkedHeap 0 0 = Some Map.empty \<and>
         partSymbolUses linkedGraph h2 0 0 = Some [Ref 1 0 \<mapsto> \<lparr>CountEstimate = 5\<rparr>]"
proof -
  define h1 where "h1 = the (GenerateSymbolImportAndUse linkedGraph linkedHeap 0 0 (Ref 1 0) 2 1)"
  define h2 where "h2 = the (GenerateSymbolImportAndUse linkedGraph h1 0 0 (Ref 1 0) 3 1)"
  have c1: "GenerateSymbolImportAndUse linkedGraph linkedHeap 0 0 (Ref 1 0) 2 1 = Some h1"
    unfolding h1_def by (simp add: linked_defs use_eval)
  have c2: "GenerateSymbolImportAndUse linkedGraph h1 0 0 (Ref 1 0) 3 1 = Some h2"
    unfolding h2_def h1_def by (simp add: linked_defs use_eval)
  have before: "partSymbolUses linkedGraph linkedHeap 0 0 = Some Map.empty"
    by (simp add: linked_defs read_eval nth_opt_def asJSRepr_def slice_elems_def map_entries_def)
  from recordSymbolUse_accumulates [of linkedGraph linkedHeap 0 0 "Ref 1 0" 1 2 1 h1 3 1 h2 Map.empty]
    c1 c2 before
  have "partSymbolUses linkedGraph h2 0 0 = Some [Ref 1 0 \<mapsto> \<lparr>CountEstimate = 5\<rparr>]"
    by (simp add: useCountEstimate_def)
  with c1 c2 before show ?thesis by blast
qed

subsection \<open>\<^verbatim>\<open>AddPartToFile\<close>\<close>

lemma ensureSymbolUses_simps [simp]:
  "js_reprs (fst (ensureSymbolUses h part)) = js_reprs h"
  "part_arrays (fst (ensureSymbolUses h part)) = part_arrays h"
  "css_reprs (fst (ensureSymbolUses h part)) = css_reprs h"
  "scopes (fst (ensureSymbolUses h part)) = scopes h"
  "symbol_arrays (fst (ensureSymbolUses h part)) = symbol_arrays h"
  "record_arrays (fst (ensureSymbolUses h part)) = record_arrays h"
  "named_import_maps (fst (ensureSymbolUses h part)) = named_import_maps h"
  "named_export_maps (fst (ensureSymbolUses h part)) = named_export_maps h"
  "DeclaredSymbols (snd (ensureSymbolUses h part)) = DeclaredSymbols part"
  "Dependencies (snd (ensureSymbolUses h part)) = Dependencies part"
  by (simp_all add: ensureSymbolUses_def)

lemma ensureSymbolUses_shared [simp]:
  "dependency_arrays (fst (ensureSymbolUses h part)) = dependency_arrays h"
  "overlay_maps (fst (ensureSymbolUses h part)) = overlay_maps h"
  "spare_capacity (fst (ensureSymbolUses h part)) = spare_capacity h"
  by (simp_all add: ensureSymbolUses_def)

lemma writeOverlay_simps [simp]:
  "js_reprs (fst (writeOverlay h overlay entries)) = js_reprs h"
  "part_arrays (fst (writeOverlay h overlay entries)) = part_arrays h"
  "css_reprs (fst (writeOverlay h overlay entries)) = css_reprs h"
  "scopes (fst (writeOverlay h overlay entries)) = scopes h"
  "symbol_arrays (fst (writeOverlay h overlay entries)) = symbol_arrays h"
  "record_arrays (fst (writeOverlay h overlay entries)) = record_arrays h"
  "symbol_use_maps (fst (writeOverlay h overlay entries)) = symbol_use_maps h"
  "named_import_maps (fst (writeOverlay h overlay entries)) = named_import_maps h"
  "named_export_maps (fst (writeOverlay h overlay entries)) = named_export_maps h"
  "dependency_arrays (fst (writeOverlay h overlay entries)) = dependency_arrays h"
  "spare_capacity (fst (writeOverlay h overlay entries)) = spare_capacity h"
  by (simp_all add: writeOverlay_def split: option.splits)

lemma AddPartToFile_SomeE:
  assumes "AddPartToFile g h s part = Some (i, h')"
  obtains a parts entries written where
    "s < length (Files g)" "Repr (InputFile (Files g ! s)) = ReprJS a" "a < length (js_reprs h)"
    "slice_elems (part_arrays h) (Parts (AST (js_reprs h ! a))) = Some parts"
    "i = u32 (length parts)"
    "readOverlay (overlay_maps h) (TopLevelSymbolToPartsOverlay (Meta (js_reprs h ! a))) = Some entries"
    "written = writeOverlay
       ((fst (ensureSymbolUses h part))\<lparr>
          part_arrays := part_arrays h @ [parts @ [snd (ensureSymbolUses h part)]]\<rparr>)
       (TopLevelSymbolToPartsOverlay (Meta (js_reprs h ! a)))
       (addDeclaredSymbols (TopLevelSymbolToPartsFromParser (AST (js_reprs h ! a))) i
          (DeclaredSymbols part) entries)"
    "h' = (fst written)\<lparr>
        js_reprs := (js_reprs h)[a := (js_reprs h ! a)\<lparr>
          AST := (AST (js_reprs h ! a))\<lparr>Parts := Some (length (part_arrays h))\<rparr>,
          Meta := (Meta (js_reprs h ! a))\<lparr>TopLevelSymbolToPartsOverlay := snd written\<rparr>\<rparr>]\<rparr>"
proof -
  from assms obtain a parts entries where
    1: "s < length (Files g)" "Repr (InputFile (Files g ! s)) = ReprJS a" "a < length (js_reprs h)"
      "slice_elems (part_arrays h) (Parts (AST (js_reprs h ! a))) = Some parts"
      "i = u32 (length parts)"
      "readOverlay (overlay_maps h) (TopLevelSymbolToPartsOverlay (Meta (js_reprs h ! a))) = Some entries"
    and 2: "h' = (fst (writeOverlay
       ((fst (ensureSymbolUses h part))\<lparr>
          part_arrays := part_arrays h @ [parts @ [snd (ensureSymbolUses h part)]]\<rparr>)
       (TopLevelSymbolToPartsOverlay (Meta (js_reprs h ! a)))
       (addDeclaredSymbols (TopLevelSymbolToPartsFromParser (AST (js_reprs h ! a))) i
          (DeclaredSymbols part) entries)))\<lparr>
        js_reprs := (js_reprs h)[a := (js_reprs h ! a)\<lparr>
          AST := (AST (js_reprs h ! a))\<lparr>Parts := Some (length (part_arrays h))\<rparr>,
          Meta := (Meta (js_reprs h ! a))\<lparr>TopLevelSymbolToPartsOverlay := snd (writeOverlay
       ((fst (ensureSymbolUses h part))\<lparr>
          part_arrays := part_arrays h @ [parts @ [snd (ensureSymbolUses h part)]]\<rparr>)
       (TopLevelSymbolToPartsOverlay (Meta (js_reprs h ! a)))
       (addDeclaredSymbols (TopLevelSymbolToPartsFromParser (AST (js_reprs h ! a))) i
          (DeclaredSymbols part) entries))\<rparr>\<rparr>]\<rparr>"
    by (clarsimp simp: AddPartToFile_def bind_eq_Some_conv Let_def split_def)
  show ?thesis
    by (rule that [OF 1 refl 2])
qed

lemma addDeclaredSymbols_None:
  "addDeclaredSymbols fromParser i ds entries = None \<Longrightarrow> entries = None"
  by (induction ds arbitrary: entries) (auto simp: Let_def split: if_splits)

lemma writeOverlay_read:
  assumes "readOverlay (overlay_maps h) overlay = Some entries"
  shows "readOverlay
           (overlay_maps (fst (writeOverlay h overlay (addDeclaredSymbols fromParser i ds entries))))
           (snd (writeOverlay h overlay (addDeclaredSymbols fromParser i ds entries)))
         = Some (addDeclaredSymbols fromParser i ds entries)"
proof (cases "addDeclaredSymbols fromParser i ds entries")
  case None
  with addDeclaredSymbols_None [OF None] assms show ?thesis
    by (simp add: writeOverlay_def)
next
  case (Some m)
  with assms show ?thesis
    by (cases overlay) (auto simp: writeOverlay_def readOverlay_def nth_opt_def split: if_splits)
qed

lemma addDeclaredSymbols_entry:
  "(case addDeclaredSymbols fromParser i ds overlay of None \<Rightarrow> None | Some m \<Rightarrow> m ref) =
     (if topLevelDeclarations ds ref = 0 then (case overlay of None \<Rightarrow> None | Some m \<Rightarrow> m ref)
      else Some ((case (case overlay of None \<Rightarrow> None | Some m \<Rightarrow> m ref) of
                    Some found \<Rightarrow> found
                  | None \<Rightarrow> (case fromParser ref of None \<Rightarrow> [] | Some original \<Rightarrow> original))
                 @ replicate (topLevelDeclarations ds ref) i))"
proof (induction ds arbitrary: overlay)
  case Nil
  then show ?case by (simp add: topLevelDeclarations_def)
next
  case (Cons d ds)
  show ?case
  proof (cases "IsTopLevel d")
    case False
    then show ?thesis using Cons.IH [of overlay] by (simp add: topLevelDeclarations_def)
  next
    case True
    show ?thesis
    proof (cases "DeclaredRef d = ref")
      case same: True
      with True show ?thesis
        using Cons.IH
        by (simp add: topLevelDeclarations_def Let_def replicate_app_Cons_same split: option.splits)
    next
      case other: False
      with True show ?thesis
        using Cons.IH
        by (simp add: topLevelDeclarations_def Let_def split: option.splits)
    qed
  qed
qed

lemma addedDeclaringParts_snoc:
  "addedDeclaringParts (added @ [(i, part)]) ref
     = addedDeclaringParts added ref @ replicate (topLevelDeclarations (DeclaredSymbols part) ref) i"
  by (simp add: addedDeclaringParts_def)

lemma overlayInvariant_step:
  assumes "overlayInvariant h repr added"
    and "readOverlay (overlay_maps h) (TopLevelSymbolToPartsOverlay (Meta repr)) = Some entries"
    and "readOverlay (overlay_maps h') (TopLevelSymbolToPartsOverlay (Meta repr')) =
           Some (addDeclaredSymbols (TopLevelSymbolToPartsFromParser (AST repr)) i
                   (DeclaredSymbols part) entries)"
    and "TopLevelSymbolToPartsFromParser (AST repr') = TopLevelSymbolToPartsFromParser (AST repr)"
  shows "overlayInvariant h' repr' (added @ [(i, part)])"
  unfolding overlayInvariant_def
proof
  fix ref
  from assms(1) have old: "declaringPartsOverlay h repr ref =
        (if addedDeclaringParts added ref = [] then None
         else Some (declaringPartsFromParser repr ref @ addedDeclaringParts added ref))"
    by (simp add: overlayInvariant_def)
  have before: "declaringPartsOverlay h repr ref = (case entries of None \<Rightarrow> None | Some m \<Rightarrow> m ref)"
    by (simp add: declaringPartsOverlay_def assms(2) split: option.splits)
  have after: "declaringPartsOverlay h' repr' ref =
      (case addDeclaredSymbols (TopLevelSymbolToPartsFromParser (AST repr)) i
              (DeclaredSymbols part) entries of None \<Rightarrow> None | Some m \<Rightarrow> m ref)"
    by (simp add: declaringPartsOverlay_def assms(3) split: option.splits)
  have new: "declaringPartsOverlay h' repr' ref =
     (if topLevelDeclarations (DeclaredSymbols part) ref = 0 then declaringPartsOverlay h repr ref
      else Some ((case declaringPartsOverlay h repr ref of
                    Some found \<Rightarrow> found | None \<Rightarrow> declaringPartsFromParser repr ref)
                 @ replicate (topLevelDeclarations (DeclaredSymbols part) ref) i))"
    unfolding after before declaringPartsFromParser_def
    by (rule addDeclaredSymbols_entry)
  have parser: "declaringPartsFromParser repr' ref = declaringPartsFromParser repr ref"
    by (simp add: declaringPartsFromParser_def assms(4))
  show "declaringPartsOverlay h' repr' ref =
        (if addedDeclaringParts (added @ [(i, part)]) ref = [] then None
         else Some (declaringPartsFromParser repr' ref @ addedDeclaringParts (added @ [(i, part)]) ref))"
    by (simp add: new old parser addedDeclaringParts_snoc)
qed

text \<open>
  Claim C7. For a call of \<^verbatim>\<open>AddPartToFile\<close> (the spec's addPart) on a file with fewer
  than \<open>2 ^ 32\<close> parts: the index returned is the old length of the part list, and the
  part list afterwards is the old one followed by the stored part; the stored part is the
  given one, except that a nil \<^verbatim>\<open>SymbolUses\<close> has become a map that is present and
  empty; the overlay keeps its invariant, with this call added to the history: a symbol
  has an entry exactly when an added part declares it at top level, and the entry is the
  parts the parser recorded for it followed by the indices of the added parts that declare
  it, in the order of the calls; and the parser's table is the one it was.
\<close>

theorem addPart_appends_and_overlays:
  assumes "AddPartToFile g h s part = Some (i, h')"
    and "fileRepr g h s = Some repr" and "fileParts g h s = Some parts"
    and "length parts < 2 ^ 32"
    and "overlayInvariant h repr added"
  shows "i = length parts \<and>
    (\<exists>stored repr'. fileParts g h' s = Some (parts @ [stored]) \<and> fileRepr g h' s = Some repr' \<and>
       DeclaredSymbols stored = DeclaredSymbols part \<and> Dependencies stored = Dependencies part \<and>
       (if SymbolUses part = None
        then \<exists>m. SymbolUses stored = Some m \<and> nth_opt (symbol_use_maps h') m = Some Map.empty
        else SymbolUses stored = SymbolUses part) \<and>
       overlayInvariant h' repr' (added @ [(i, part)]) \<and>
       TopLevelSymbolToPartsFromParser (AST repr') = TopLevelSymbolToPartsFromParser (AST repr))"
proof -
  from assms(1) obtain a parts0 entries written where
    s: "s < length (Files g)" "Repr (InputFile (Files g ! s)) = ReprJS a" "a < length (js_reprs h)"
    and parts0: "slice_elems (part_arrays h) (Parts (AST (js_reprs h ! a))) = Some parts0"
    and i: "i = u32 (length parts0)"
    and entries: "readOverlay (overlay_maps h) (TopLevelSymbolToPartsOverlay (Meta (js_reprs h ! a)))
        = Some entries"
    and written: "written = writeOverlay
       ((fst (ensureSymbolUses h part))\<lparr>
          part_arrays := part_arrays h @ [parts0 @ [snd (ensureSymbolUses h part)]]\<rparr>)
       (TopLevelSymbolToPartsOverlay (Meta (js_reprs h ! a)))
       (addDeclaredSymbols (TopLevelSymbolToPartsFromParser (AST (js_reprs h ! a))) i
          (DeclaredSymbols part) entries)"
    and h': "h' = (fst written)\<lparr>
        js_reprs := (js_reprs h)[a := (js_reprs h ! a)\<lparr>
          AST := (AST (js_reprs h ! a))\<lparr>Parts := Some (length (part_arrays h))\<rparr>,
          Meta := (Meta (js_reprs h ! a))\<lparr>TopLevelSymbolToPartsOverlay := snd written\<rparr>\<rparr>]\<rparr>"
    by (rule AddPartToFile_SomeE)
  from s assms(2) have repr: "repr = js_reprs h ! a"
    by (simp add: fileRepr_def bind_eq_Some_conv)
  from s assms(3) parts0 have parts: "parts0 = parts"
    by (simp add: fileParts_def fileRepr_def bind_eq_Some_conv)
  define stored where "stored = snd (ensureSymbolUses h part)"
  define repr' where "repr' = js_reprs h' ! a"
  have index: "i = length parts"
    using i parts assms(4) by (simp add: u32_def)
  have r': "fileRepr g h' s = Some repr'"
    using s by (simp add: fileRepr_def repr'_def h' bind_eq_Some_conv)
  have p': "fileParts g h' s = Some (parts @ [stored])"
    using s parts
    by (simp add: fileParts_def fileRepr_def h' written stored_def slice_elems_def bind_eq_Some_conv)
  have uses: "if SymbolUses part = None
        then \<exists>m. SymbolUses stored = Some m \<and> nth_opt (symbol_use_maps h') m = Some Map.empty
        else SymbolUses stored = SymbolUses part"
    by (auto simp: stored_def h' written ensureSymbolUses_def)
  have "readOverlay (overlay_maps (fst written)) (snd written) =
      Some (addDeclaredSymbols (TopLevelSymbolToPartsFromParser (AST (js_reprs h ! a))) i
              (DeclaredSymbols part) entries)"
    unfolding written by (rule writeOverlay_read) (simp add: entries)
  then have after: "readOverlay (overlay_maps h') (TopLevelSymbolToPartsOverlay (Meta repr')) =
      Some (addDeclaredSymbols (TopLevelSymbolToPartsFromParser (AST repr)) i
              (DeclaredSymbols part) entries)"
    using s by (simp add: repr'_def h' repr)
  have parser: "TopLevelSymbolToPartsFromParser (AST repr') = TopLevelSymbolToPartsFromParser (AST repr)"
    using s by (simp add: repr'_def h' repr)
  have inv: "overlayInvariant h' repr' (added @ [(i, part)])"
    using assms(5) entries [folded repr] after parser by (rule overlayInvariant_step)
  from index r' p' uses inv parser show ?thesis
    by (auto simp: stored_def)
qed

lemmas addPart_eval = AddPartToFile_def ensureSymbolUses_def readOverlay_def writeOverlay_def
  nth_opt_def asJSRepr_def slice_elems_def u32_def Let_def newPart_def

theorem addPart_appends_and_overlays_witness:
  "\<exists>h1 h2. AddPartToFile linkedGraph linkedHeap 1 newPart = Some (2, h1) \<and>
           AddPartToFile linkedGraph h1 1 newPart = Some (3, h2) \<and>
           map_option length (fileParts linkedGraph linkedHeap 1) = Some 2 \<and>
           map_option length (fileParts linkedGraph h2 1) = Some 4 \<and>
           map_option (\<lambda>repr. declaringPartsOverlay linkedHeap repr (Ref 1 0)) (fileRepr linkedGraph linkedHeap 1)
             = Some None \<and>
           map_option (\<lambda>repr. declaringPartsFromParser repr (Ref 1 0)) (fileRepr linkedGraph h2 1)
             = Some [0, 1] \<and>
           map_option (\<lambda>repr. declaringPartsOverlay h2 repr (Ref 1 0)) (fileRepr linkedGraph h2 1)
             = Some (Some [0, 1, 2, 3])"
proof -
  define h1 where "h1 = snd (the (AddPartToFile linkedGraph linkedHeap 1 newPart))"
  define h2 where "h2 = snd (the (AddPartToFile linkedGraph h1 1 newPart))"
  define repr0 where "repr0 = js_reprs linkedHeap ! 1"
  define parts0 where "parts0 = part_arrays linkedHeap ! 1"
  have c1: "AddPartToFile linkedGraph linkedHeap 1 newPart = Some (2, h1)"
    unfolding h1_def by (simp add: linked_defs addPart_eval)
  have c2: "AddPartToFile linkedGraph h1 1 newPart = Some (3, h2)"
    unfolding h2_def h1_def by (simp add: linked_defs addPart_eval)
  have r0: "fileRepr linkedGraph linkedHeap 1 = Some repr0"
    by (simp add: repr0_def linked_defs read_eval nth_opt_def asJSRepr_def)
  have p0: "fileParts linkedGraph linkedHeap 1 = Some parts0"
    by (simp add: parts0_def linked_defs read_eval nth_opt_def asJSRepr_def slice_elems_def)
  have len0: "length parts0 = 2"
    by (simp add: parts0_def linked_defs)
  have parser0: "declaringPartsFromParser repr0 (Ref 1 0) = [0, 1]"
    by (simp add: repr0_def linked_defs declaringPartsFromParser_def)
  have none0: "declaringPartsOverlay linkedHeap repr0 (Ref 1 0) = None"
    by (simp add: repr0_def linked_defs declaringPartsOverlay_def readOverlay_def)
  have inv0: "overlayInvariant linkedHeap repr0 []"
    by (simp add: repr0_def linked_defs overlayInvariant_def declaringPartsOverlay_def
        readOverlay_def addedDeclaringParts_def)
  have small: "length parts0 < 2 ^ 32" "length (parts0 @ [stored]) < 2 ^ 32" for stored
    by (simp_all add: len0)
  from addPart_appends_and_overlays [OF c1 r0 p0 small(1) inv0]
  obtain stored1 repr1 where p1: "fileParts linkedGraph h1 1 = Some (parts0 @ [stored1])"
    and r1: "fileRepr linkedGraph h1 1 = Some repr1"
    and inv1: "overlayInvariant h1 repr1 ([] @ [(2, newPart)])"
    and parser1: "TopLevelSymbolToPartsFromParser (AST repr1) = TopLevelSymbolToPartsFromParser (AST repr0)"
    by (elim conjE exE) (rule that)
  from addPart_appends_and_overlays [OF c2 r1 p1 small(2) inv1]
  obtain stored2 repr2 where p2: "fileParts linkedGraph h2 1 = Some ((parts0 @ [stored1]) @ [stored2])"
    and r2: "fileRepr linkedGraph h2 1 = Some repr2"
    and inv2: "overlayInvariant h2 repr2 (([] @ [(2, newPart)]) @ [(3, newPart)])"
    and parser2: "TopLevelSymbolToPartsFromParser (AST repr2) = TopLevelSymbolToPartsFromParser (AST repr1)"
    by (elim conjE exE) (rule that)
  have parser: "declaringPartsFromParser repr2 (Ref 1 0) = [0, 1]"
    using parser0 parser1 parser2 by (simp add: declaringPartsFromParser_def)
  from inv2 have "declaringPartsOverlay h2 repr2 (Ref 1 0) =
        (if addedDeclaringParts [(2, newPart), (3, newPart)] (Ref 1 0) = [] then None
         else Some (declaringPartsFromParser repr2 (Ref 1 0)
                    @ addedDeclaringParts [(2, newPart), (3, newPart)] (Ref 1 0)))"
    by (simp add: overlayInvariant_def)
  with parser have "declaringPartsOverlay h2 repr2 (Ref 1 0) = Some [0, 1, 2, 3]"
    by (simp add: addedDeclaringParts_def topLevelDeclarations_def newPart_def)
  with c1 c2 r0 p0 len0 none0 p2 r2 parser show ?thesis
    by simp
qed


subsection \<open>The entry points of the graph\<close>

lemma appendDynamicEntryPoints_Some:
  "appendDynamicEntryPoints reachableFiles stableIndices entries = Some entries' \<Longrightarrow>
   entries' = entries @ map (\<lambda>stableIndex. dynamicEntryPoint (reachableFiles ! stableIndex)) stableIndices
   \<and> (\<forall>stableIndex\<in>set stableIndices. stableIndex < length reachableFiles)"
proof (induction stableIndices arbitrary: entries)
  case Nil
  then show ?case by simp
next
  case (Cons stableIndex rest)
  from Cons.prems have inside: "stableIndex < length reachableFiles"
    and rest: "appendDynamicEntryPoints reachableFiles rest
             (entries @ [dynamicEntryPoint (reachableFiles ! stableIndex)]) = Some entries'"
    by (auto simp: bind_eq_Some_conv dynamicEntryPoint_def)
  from Cons.IH [OF rest] inside show ?case by simp
qed

lemma CloneLinkerGraph_entryPoints:
  assumes "CloneLinkerGraph schedule h inputFiles reachableFiles originalEntryPoints codeSplitting = Some (g, h')"
  shows "\<exists>stableEntryPoints. entryPoints g = originalEntryPoints @
           map (\<lambda>stableIndex. dynamicEntryPoint (reachableFiles ! stableIndex)) stableEntryPoints"
  using assms
  by (auto simp: CloneLinkerGraph_def bind_eq_Some_conv Let_def dest!: appendDynamicEntryPoints_Some)

text \<open>
  Claim C10. The entry points of the graph are the caller's entry points, with the output
  paths and flags the caller gave them, followed by the promoted ones; every promoted entry
  point has the empty string as its \<^verbatim>\<open>OutputPath\<close> and \<open>False\<close> as its
  \<^verbatim>\<open>OutputPathWasAutoGenerated\<close>: it is the literal of line 264, which sets the source
  index only.
\<close>

theorem promoted_entry_points_carry_only_source_index:
  assumes "CloneLinkerGraph schedule h inputFiles reachableFiles originalEntryPoints codeSplitting = Some (g, h')"
  shows "take (length originalEntryPoints) (entryPoints g) = originalEntryPoints \<and>
         (\<forall>entryPoint \<in> set (drop (length originalEntryPoints) (entryPoints g)).
            OutputPath entryPoint = [] \<and> \<not> OutputPathWasAutoGenerated entryPoint \<and>
            entryPoint = \<lparr>OutputPath = [], SourceIndex = SourceIndex entryPoint,
                           OutputPathWasAutoGenerated = False\<rparr>)"
  using CloneLinkerGraph_entryPoints [OF assms]
  by (auto simp: dynamicEntryPoint_def)

theorem promoted_entry_points_carry_only_source_index_witness:
  "\<exists>g h'. CloneLinkerGraph [] exampleHeap exampleInputFiles [0, 1, 2, 3] exampleEntryPoints True
            = Some (g, h') \<and>
          length exampleEntryPoints = 1 \<and>
          map SourceIndex (entryPoints g) = [0, 2] \<and>
          take 1 (entryPoints g) = exampleEntryPoints \<and>
          list_all (\<lambda>entryPoint. OutputPath entryPoint = [] \<and> \<not> OutputPathWasAutoGenerated entryPoint)
            (drop 1 (entryPoints g))"
proof -
  define g where "g = fst (the (CloneLinkerGraph [] exampleHeap exampleInputFiles [0, 1, 2, 3]
    exampleEntryPoints True))"
  define h' where "h' = snd (the (CloneLinkerGraph [] exampleHeap exampleInputFiles [0, 1, 2, 3]
    exampleEntryPoints True))"
  have run: "CloneLinkerGraph [] exampleHeap exampleInputFiles [0, 1, 2, 3] exampleEntryPoints True
      = Some (g, h')"
    unfolding g_def h'_def by (simp add: example_defs clone_eval)
  have len: "length exampleEntryPoints = 1"
    by (simp add: exampleEntryPoints_def)
  have sources: "map SourceIndex (entryPoints g) = [0, 2]"
    unfolding g_def by (simp add: example_defs clone_eval)
  from promoted_entry_points_carry_only_source_index [OF run] len
  have "take 1 (entryPoints g) = exampleEntryPoints \<and>
        list_all (\<lambda>entryPoint. OutputPath entryPoint = [] \<and> \<not> OutputPathWasAutoGenerated entryPoint)
            (drop 1 (entryPoints g))"
    by (simp add: list_all_iff)
  with run len sources show ?thesis
    by - (rule exI [of _ g], rule exI [of _ h'], simp)
qed

subsection \<open>The phases of \<^verbatim>\<open>CloneLinkerGraph\<close>\<close>

lemma heapExtends_refl [simp]: "heapExtends h h"
  by (simp add: heapExtends_def)

lemma heapExtends_trans: "heapExtends h1 h2 \<Longrightarrow> heapExtends h2 h3 \<Longrightarrow> heapExtends h1 h3"
  unfolding heapExtends_def by (meson prefix_order.trans)

lemma prefix_nth: "prefix xs ys \<Longrightarrow> i < length xs \<Longrightarrow> ys ! i = xs ! i"
  by (auto simp: prefix_def nth_append)

lemma prefix_nth_opt: "prefix xs ys \<Longrightarrow> nth_opt xs i = Some x \<Longrightarrow> nth_opt ys i = Some x"
  by (auto simp: prefix_def nth_append)

lemma prefix_slice_elems:
  "prefix store store' \<Longrightarrow> slice_elems store s = Some xs \<Longrightarrow> slice_elems store' s = Some xs"
  by (cases s) (auto simp: slice_elems_def prefix_def nth_append)


lemma cloneSymbolUses_Some:
  "cloneSymbolUses store parts = Some (store', parts') \<Longrightarrow>
   prefix store store' \<and> length parts' = length parts \<and>
   (\<forall>k<length parts. parts' ! k = (parts ! k)\<lparr>SymbolUses := Some (length store + k)\<rparr>) \<and>
   length store' = length store + length parts"
proof (induction parts arbitrary: store store' parts')
  case Nil
  then show ?case by simp
next
  case (Cons part rest)
  from Cons.prems obtain uses rest' where
    rest: "cloneSymbolUses (store @ [uses]) rest = Some (store', rest')"
    and parts': "parts' = part\<lparr>SymbolUses := Some (length store)\<rparr> # rest'"
    by (auto simp: bind_eq_Some_conv Let_def)
  from Cons.IH [OF rest] have
    p: "prefix (store @ [uses]) store'" and l: "length rest' = length rest"
    and each: "\<forall>k<length rest. rest' ! k = (rest ! k)\<lparr>SymbolUses := Some (length (store @ [uses]) + k)\<rparr>"
    and len: "length store' = length (store @ [uses]) + length rest"
    by auto
  from p have "prefix store store'"
    by (auto simp: prefix_def)
  moreover have "\<forall>k<length (part # rest). parts' ! k = ((part # rest) ! k)\<lparr>SymbolUses := Some (length store + k)\<rparr>"
    using each by (auto simp: parts' nth_Cons split: nat.splits)
  ultimately show ?case
    using l len by (simp add: parts')
qed

lemma cloneJSRepr_SomeE:
  assumes "cloneJSRepr codeSplitting sourceIndex a h = Some (h', clone, fileSymbols, dyn)"
  obtains syms parts uses parts' records namedImports namedExports old where
    "a < length (js_reprs h)"
    "slice_elems (symbol_arrays h) (Symbols (AST (js_reprs h ! a))) = Some syms"
    "slice_elems (part_arrays h) (Parts (AST (js_reprs h ! a))) = Some parts"
    "cloneSymbolUses (symbol_use_maps h) parts = Some (uses, parts')"
    "slice_elems (record_arrays h) (ImportRecords (AST (js_reprs h ! a))) = Some records"
    "map_entries (named_import_maps h) (NamedImports (AST (js_reprs h ! a))) = Some namedImports"
    "map_entries (named_export_maps h) (NamedExports (AST (js_reprs h ! a))) = Some namedExports"
    "ModuleScope (AST (js_reprs h ! a)) = Some old" "old < length (scopes h)"
    "clone = length (js_reprs h)" "fileSymbols = length (symbol_arrays h)"
    "dyn = dynamicImportTargets codeSplitting records"
    "h' = h\<lparr>symbol_arrays := symbol_arrays h @ [syms],
           symbol_use_maps := uses,
           part_arrays := part_arrays h @ [parts'],
           record_arrays := record_arrays h @ [removeAssertions codeSplitting records],
           named_import_maps := named_import_maps h @ [namedImports],
           scopes := scopes h @ [scopes h ! old],
           js_reprs := js_reprs h @ [(js_reprs h ! a)\<lparr>
             AST := (AST (js_reprs h ! a))\<lparr>Symbols := None, Parts := Some (length (part_arrays h)),
               ImportRecords := Some (length (record_arrays h)),
               NamedImports := Some (length (named_import_maps h)),
               ModuleScope := Some (length (scopes h))\<rparr>,
             Meta := (Meta (js_reprs h ! a))\<lparr>
               ResolvedExports := Some (resolveExports sourceIndex namedExports),
               IsProbablyTypeScriptType := Some Map.empty,
               ImportsToBind := Some Map.empty\<rparr>\<rparr>]\<rparr>"
  using assms
  by (clarsimp simp: cloneJSRepr_def bind_eq_Some_conv Let_def)

lemma cloneCSSRepr_SomeE:
  assumes "cloneCSSRepr a h = Some (h', clone)"
  obtains records where
    "a < length (css_reprs h)"
    "slice_elems (record_arrays h) (CSSImportRecords (css_reprs h ! a)) = Some records"
    "clone = length (css_reprs h)"
    "h' = h\<lparr>record_arrays := record_arrays h @ [records],
           css_reprs := css_reprs h @ [(css_reprs h ! a)\<lparr>
             CSSImportRecords := Some (length (record_arrays h))\<rparr>]\<rparr>"
  using assms
  by (clarsimp simp: cloneCSSRepr_def bind_eq_Some_conv Let_def)

lemma cloneJSRepr_extends:
  assumes "cloneJSRepr codeSplitting sourceIndex a h = Some (h', clone, fileSymbols, dyn)"
  shows "heapExtends h h'"
  using assms
  by (rule cloneJSRepr_SomeE) (auto simp: heapExtends_def dest: cloneSymbolUses_Some)

lemma cloneCSSRepr_extends:
  assumes "cloneCSSRepr a h = Some (h', clone)"
  shows "heapExtends h h'"
  using assms
  by (rule cloneCSSRepr_SomeE) (auto simp: heapExtends_def)


lemma cloneFile_SomeD:
  assumes "cloneFile codeSplitting inputFiles i (h, files, symbols) = Some ((h', files', symbols'), q)"
  shows "i < length files \<and> i < length inputFiles \<and>
     (case Repr (inputFiles ! i) of
        ReprJS a \<Rightarrow> \<exists>c sa. cloneJSRepr codeSplitting i a h = Some (h', c, sa, q) \<and>
          files' = files[i := (files ! i)\<lparr>InputFile := (inputFiles ! i)\<lparr>Repr := ReprJS c\<rparr>,
                                          DistanceFromEntryPoint := 2 ^ 32 - 1\<rparr>] \<and>
          symbols' = symbols[i := Some sa]
      | ReprCSS a \<Rightarrow> \<exists>c. cloneCSSRepr a h = Some (h', c) \<and>
          files' = files[i := (files ! i)\<lparr>InputFile := (inputFiles ! i)\<lparr>Repr := ReprCSS c\<rparr>,
                                          DistanceFromEntryPoint := 2 ^ 32 - 1\<rparr>] \<and>
          symbols' = symbols \<and> q = []
      | ReprOther \<Rightarrow> h' = h \<and>
          files' = files[i := (files ! i)\<lparr>InputFile := inputFiles ! i,
                                          DistanceFromEntryPoint := 2 ^ 32 - 1\<rparr>] \<and>
          symbols' = symbols \<and> q = [])"
  using assms
  by (cases "Repr (inputFiles ! i)")
     (auto simp: cloneFile_def bind_eq_Some_conv Let_def)

lemma cloneFile_frame:
  assumes "cloneFile codeSplitting inputFiles i (h, files, symbols) = Some ((h', files', symbols'), q)"
  shows "heapExtends h h'" "length files' = length files" "length symbols' = length symbols"
    "i < length files" "i < length inputFiles"
    "entryPointKind (files' ! j) = entryPointKind (files ! j)"
    "j \<noteq> i \<Longrightarrow> files' ! j = files ! j" "j \<noteq> i \<Longrightarrow> symbols' ! j = symbols ! j"
  using cloneFile_SomeD [OF assms]
  by (cases "Repr (inputFiles ! i)";
      auto simp: nth_list_update dest: cloneJSRepr_extends cloneCSSRepr_extends)+

lemma runCloneTasks_frame:
  assumes "runCloneTasks codeSplitting inputFiles reachableFiles (h, files, symbols)
             = Some ((h', files', symbols'), queues)"
  shows "heapExtends h h' \<and> length files' = length files \<and> length symbols' = length symbols \<and>
    length queues = length reachableFiles \<and>
    (\<forall>i\<in>set reachableFiles. i < length files \<and> i < length inputFiles) \<and>
    (\<forall>j. entryPointKind (files' ! j) = entryPointKind (files ! j)) \<and>
    (\<forall>j. j \<notin> set reachableFiles \<longrightarrow> files' ! j = files ! j \<and> symbols' ! j = symbols ! j)"
  using assms
proof (induction reachableFiles arbitrary: h files symbols queues)
  case Nil
  then show ?case by simp
next
  case (Cons i rest)
  from Cons.prems obtain h1 files1 symbols1 q qs where
    step: "cloneFile codeSplitting inputFiles i (h, files, symbols) = Some ((h1, files1, symbols1), q)"
    and rest: "runCloneTasks codeSplitting inputFiles rest (h1, files1, symbols1)
                 = Some ((h', files', symbols'), qs)"
    and queues: "queues = q # qs"
    by (auto simp: bind_eq_Some_conv)
  note f = cloneFile_frame [OF step]
  from Cons.IH [OF rest] f show ?case
    by (auto simp: queues intro: heapExtends_trans)
qed

lemma markEntryPoints_Some:
  "markEntryPoints entries files = Some files' \<Longrightarrow>
   length files' = length files \<and> (\<forall>e\<in>set entries. SourceIndex e < length files) \<and>
   (\<forall>j<length files. files' ! j =
      (if j \<in> SourceIndex ` set entries
       then (files ! j)\<lparr>entryPointKind := entryPointUserSpecified\<rparr> else files ! j))"
proof (induction entries arbitrary: files)
  case Nil
  then show ?case by simp
next
  case (Cons e rest)
  let ?files1 = "files[SourceIndex e := (files ! SourceIndex e)\<lparr>entryPointKind := entryPointUserSpecified\<rparr>]"
  from Cons.prems have inside: "SourceIndex e < length files"
    and rest: "markEntryPoints rest ?files1 = Some files'"
    by (auto split: if_splits)
  from Cons.IH [OF rest] inside show ?case
    by (auto simp: nth_list_update)
qed

lemma assignStableSourceIndices_Some:
  "assignStableSourceIndices reachableFiles k indices = Some indices' \<Longrightarrow>
   length indices' = length indices \<and> (\<forall>i\<in>set reachableFiles. i < length indices) \<and>
   (\<forall>j. j \<notin> set reachableFiles \<longrightarrow> indices' ! j = indices ! j) \<and>
   (distinct reachableFiles \<longrightarrow>
      (\<forall>s<length reachableFiles. indices' ! (reachableFiles ! s) = u32 (k + s)))"
proof (induction reachableFiles arbitrary: k indices)
  case Nil
  then show ?case by simp
next
  case (Cons i rest)
  from Cons.prems have inside: "i < length indices"
    and rest: "assignStableSourceIndices rest (Suc k) (indices[i := u32 k]) = Some indices'"
    by (auto split: if_splits)
  from Cons.IH [OF rest] have
    len: "length indices' = length indices"
    and all: "\<forall>i\<in>set rest. i < length indices"
    and other: "\<forall>j. j \<notin> set rest \<longrightarrow> indices' ! j = (indices[i := u32 k]) ! j"
    and pos: "distinct rest \<longrightarrow> (\<forall>s<length rest. indices' ! (rest ! s) = u32 (Suc k + s))"
    by auto
  have "\<forall>s<length (i # rest). indices' ! ((i # rest) ! s) = u32 (k + s)" if d: "distinct (i # rest)"
  proof (intro allI impI)
    fix s assume s: "s < length (i # rest)"
    show "indices' ! ((i # rest) ! s) = u32 (k + s)"
    proof (cases s)
      case 0
      with d other inside show ?thesis by simp
    next
      case (Suc t)
      with d pos s show ?thesis by simp
    qed
  qed
  with len all other inside show ?case
    by auto
qed

lemma set_interleave: "set (interleave schedule queues) = set (concat queues)"
proof (induction schedule arbitrary: queues)
  case Nil
  then show ?case by simp
next
  case (Cons t ts)
  show ?case
  proof (cases "t < length queues")
    case False
    then show ?thesis using Cons.IH by simp
  next
    case True
    show ?thesis
    proof (cases "queues ! t")
      case Nil
      with True show ?thesis using Cons.IH by simp
    next
      case (Cons x q)
      have split: "queues = take t queues @ (x # q) # drop (Suc t) queues"
        using True Cons id_take_nth_drop [of t queues] by simp
      have upd: "queues[t := q] = take t queues @ q # drop (Suc t) queues"
        using True by (simp add: upd_conv_take_nth_drop)
      have "set (concat queues) = insert x (set (concat (queues[t := q])))"
        by (subst split, subst upd) auto
      with True Cons show ?thesis using Cons.IH by simp
    qed
  qed
qed

lemma processDynamicEntryPoints_spec:
  "map_option (\<lambda>(files', stableEntryPoints'). (files', mset stableEntryPoints'))
     (processDynamicEntryPoints indices dyn files stableEntryPoints) =
   (if (\<forall>x\<in>set dyn. x < length files) \<and> (\<forall>x\<in>promotable (set dyn) files. x < length indices)
    then Some (promoteAll (set dyn) files,
               mset stableEntryPoints + image_mset ((!) indices) (mset_set (promotable (set dyn) files)))
    else None)"
proof (induction dyn arbitrary: files stableEntryPoints)
  case Nil
  show ?case
    by (simp add: promoteAll_def promotable_def map_nth)
next
  case (Cons x rest)
  show ?case
  proof (cases "x < length files")
    case False
    then show ?thesis by (auto simp: nth_opt_def)
  next
    case inside: True
    show ?thesis
    proof (cases "entryPointKind (files ! x) = entryPointNone")
      case False
      have "promotable (insert x (set rest)) files = promotable (set rest) files"
        using False by (auto simp: promotable_def)
      moreover have "promoteAll (insert x (set rest)) files = promoteAll (set rest) files"
        using False by (auto simp: promoteAll_def)
      ultimately show ?thesis
        using inside False Cons.IH [of files stableEntryPoints] by (simp add: nth_opt_def)
    next
      case none: True
      let ?files1 = "files[x := (files ! x)\<lparr>entryPointKind := entryPointDynamicImport\<rparr>]"
      have p: "promotable (insert x (set rest)) files = insert x (promotable (set rest) ?files1)"
        using none inside by (auto simp: promotable_def nth_list_update)
      have notin: "x \<notin> promotable (set rest) ?files1"
        using inside by (simp add: promotable_def)
      have fin: "finite (promotable (set rest) ?files1)"
        by (simp add: promotable_def)
      have all: "promoteAll (insert x (set rest)) files = promoteAll (set rest) ?files1"
        using none inside by (auto simp: promoteAll_def nth_list_update)
      show ?thesis
      proof (cases "x < length indices")
        case False
        with none inside p show ?thesis by (auto simp: nth_opt_def)
      next
        case True
        with none inside show ?thesis
          using Cons.IH [of ?files1 "stableEntryPoints @ [indices ! x]"]
          by (simp add: p all notin fin nth_opt_def)
      qed
    qed
  qed
qed

lemma heapExtendsD:
  assumes "heapExtends h h'"
  shows "prefix (js_reprs h) (js_reprs h')" "prefix (css_reprs h) (css_reprs h')"
    "prefix (scopes h) (scopes h')" "prefix (symbol_arrays h) (symbol_arrays h')"
    "prefix (part_arrays h) (part_arrays h')" "prefix (record_arrays h) (record_arrays h')"
    "prefix (symbol_use_maps h) (symbol_use_maps h')"
    "prefix (named_import_maps h) (named_import_maps h')"
    "prefix (named_export_maps h) (named_export_maps h')"
  using assms by (simp_all add: heapExtends_def)

lemma clonedJS_mono:
  assumes "clonedJS codeSplitting h0 repr h r slot" and ext: "heapExtends h h'"
  shows "clonedJS codeSplitting h0 repr h' r slot"
proof -
  note p = heapExtendsD [OF ext]
  from assms(1) obtain c clone where
    c: "r = ReprJS c" "length (js_reprs h0) \<le> c" "nth_opt (js_reprs h) c = Some clone"
      "Symbols (AST clone) = None" "TSEnums (AST clone) = TSEnums (AST repr)"
      "ConstValues (AST clone) = ConstValues (AST repr)"
    and syms: "\<And>syms. slice_elems (symbol_arrays h0) (Symbols (AST repr)) = Some syms \<Longrightarrow>
           (\<exists>sa. slot = Some sa \<and> length (symbol_arrays h0) \<le> sa \<and>
                 nth_opt (symbol_arrays h) sa = Some syms)"
    and records: "\<And>records. slice_elems (record_arrays h0) (ImportRecords (AST repr)) = Some records \<Longrightarrow>
           slice_elems (record_arrays h) (ImportRecords (AST clone))
             = Some (removeAssertions codeSplitting records)"
    unfolding clonedJS_def by blast
  have "nth_opt (js_reprs h') c = Some clone"
    by (rule prefix_nth_opt [OF p(1) c(3)])
  moreover have "\<exists>sa. slot = Some sa \<and> length (symbol_arrays h0) \<le> sa \<and>
                 nth_opt (symbol_arrays h') sa = Some syms"
    if "slice_elems (symbol_arrays h0) (Symbols (AST repr)) = Some syms" for syms
    using syms [OF that] prefix_nth_opt [OF p(4)] by blast
  moreover have "slice_elems (record_arrays h') (ImportRecords (AST clone))
             = Some (removeAssertions codeSplitting records)"
    if "slice_elems (record_arrays h0) (ImportRecords (AST repr)) = Some records" for records
    by (rule prefix_slice_elems [OF p(6) records [OF that]])
  ultimately show ?thesis
    unfolding clonedJS_def using c by blast
qed

lemma clonedCSS_mono:
  assumes "clonedCSS h0 repr h r" and ext: "heapExtends h h'"
  shows "clonedCSS h0 repr h' r"
proof -
  note p = heapExtendsD [OF ext]
  from assms(1) obtain c clone where
    c: "r = ReprCSS c" "nth_opt (css_reprs h) c = Some clone"
    and records: "\<And>records. slice_elems (record_arrays h0) (CSSImportRecords repr) = Some records \<Longrightarrow>
           slice_elems (record_arrays h) (CSSImportRecords clone) = Some records"
    unfolding clonedCSS_def by blast
  have "nth_opt (css_reprs h') c = Some clone"
    by (rule prefix_nth_opt [OF p(2) c(2)])
  moreover have "slice_elems (record_arrays h') (CSSImportRecords clone) = Some records"
    if "slice_elems (record_arrays h0) (CSSImportRecords repr) = Some records" for records
    by (rule prefix_slice_elems [OF p(6) records [OF that]])
  ultimately show ?thesis
    unfolding clonedCSS_def using c by blast
qed

lemma clonedInto_mono:
  assumes "clonedInto codeSplitting h0 f h lf slot" and "heapExtends h h'"
  shows "clonedInto codeSplitting h0 f h' lf slot"
  using assms
  by (auto simp: clonedInto_def split: InputFileRepr.splits option.splits
      intro: clonedJS_mono clonedCSS_mono)

lemma cloneJSRepr_cloned:
  assumes clone: "cloneJSRepr codeSplitting i a h = Some (h', c, sa, q)"
    and ext: "heapExtends h0 h" and a0: "nth_opt (js_reprs h0) a = Some repr"
  shows "clonedJS codeSplitting h0 repr h' (ReprJS c) (Some sa)"
proof -
  note p = heapExtendsD [OF ext]
  have repr: "js_reprs h ! a = repr"
    using prefix_nth_opt [OF p(1) a0] by simp
  from clone show ?thesis
  proof (rule cloneJSRepr_SomeE)
    fix syms parts uses parts' records namedImports namedExports old
    assume syms: "slice_elems (symbol_arrays h) (Symbols (AST (js_reprs h ! a))) = Some syms"
      and records: "slice_elems (record_arrays h) (ImportRecords (AST (js_reprs h ! a))) = Some records"
      and c: "c = length (js_reprs h)" and sa: "sa = length (symbol_arrays h)"
      and h': "h' = h\<lparr>symbol_arrays := symbol_arrays h @ [syms],
           symbol_use_maps := uses,
           part_arrays := part_arrays h @ [parts'],
           record_arrays := record_arrays h @ [removeAssertions codeSplitting records],
           named_import_maps := named_import_maps h @ [namedImports],
           scopes := scopes h @ [scopes h ! old],
           js_reprs := js_reprs h @ [(js_reprs h ! a)\<lparr>
             AST := (AST (js_reprs h ! a))\<lparr>Symbols := None, Parts := Some (length (part_arrays h)),
               ImportRecords := Some (length (record_arrays h)),
               NamedImports := Some (length (named_import_maps h)),
               ModuleScope := Some (length (scopes h))\<rparr>,
             Meta := (Meta (js_reprs h ! a))\<lparr>
               ResolvedExports := Some (resolveExports i namedExports),
               IsProbablyTypeScriptType := Some Map.empty,
               ImportsToBind := Some Map.empty\<rparr>\<rparr>]\<rparr>"
    have lenjs: "length (js_reprs h0) \<le> length (js_reprs h)"
      and lensym: "length (symbol_arrays h0) \<le> length (symbol_arrays h)"
      using p(1) p(4) by (auto simp: prefix_def)
    have symsame: "syms0 = syms"
      if "slice_elems (symbol_arrays h0) (Symbols (AST repr)) = Some syms0" for syms0
      using prefix_slice_elems [OF p(4) that] syms repr by simp
    have recsame: "records0 = records"
      if "slice_elems (record_arrays h0) (ImportRecords (AST repr)) = Some records0" for records0
      using prefix_slice_elems [OF p(6) that] records repr by simp
    define clone where "clone = js_reprs h' ! c"
    have 1: "nth_opt (js_reprs h') c = Some clone"
      by (simp add: clone_def h' c)
    have 2: "Symbols (AST clone) = None" "TSEnums (AST clone) = TSEnums (AST repr)"
      "ConstValues (AST clone) = ConstValues (AST repr)"
      "ImportRecords (AST clone) = Some (length (record_arrays h))"
      by (simp_all add: clone_def h' c repr)
    have 3: "nth_opt (symbol_arrays h') sa = Some syms"
      by (simp add: h' sa)
    have 4: "slice_elems (record_arrays h') (ImportRecords (AST clone))
               = Some (removeAssertions codeSplitting records)"
      by (simp add: 2 slice_elems_def) (simp add: h')
    show ?thesis
      unfolding clonedJS_def
      using lenjs lensym 1 2 3 4 c sa symsame recsame by blast
  qed
qed

lemma cloneCSSRepr_cloned:
  assumes clone: "cloneCSSRepr a h = Some (h', c)"
    and ext: "heapExtends h0 h" and a0: "nth_opt (css_reprs h0) a = Some repr"
  shows "clonedCSS h0 repr h' (ReprCSS c)"
proof -
  note p = heapExtendsD [OF ext]
  have repr: "css_reprs h ! a = repr"
    using prefix_nth_opt [OF p(2) a0] by simp
  from clone show ?thesis
  proof (rule cloneCSSRepr_SomeE)
    fix records
    assume records: "slice_elems (record_arrays h) (CSSImportRecords (css_reprs h ! a)) = Some records"
      and c: "c = length (css_reprs h)"
      and h': "h' = h\<lparr>record_arrays := record_arrays h @ [records],
           css_reprs := css_reprs h @ [(css_reprs h ! a)\<lparr>
             CSSImportRecords := Some (length (record_arrays h))\<rparr>]\<rparr>"
    have recsame: "records0 = records"
      if "slice_elems (record_arrays h0) (CSSImportRecords repr) = Some records0" for records0
      using prefix_slice_elems [OF p(6) that] records repr by simp
    define clone where "clone = css_reprs h' ! c"
    have 1: "nth_opt (css_reprs h') c = Some clone"
      by (simp add: clone_def h' c)
    have 2: "CSSImportRecords clone = Some (length (record_arrays h))"
      by (simp add: clone_def h' c)
    have 4: "slice_elems (record_arrays h') (CSSImportRecords clone) = Some records"
      by (simp add: 2 slice_elems_def) (simp add: h')
    show ?thesis
      unfolding clonedCSS_def
      using 1 4 recsame by blast
  qed
qed

lemma cloneFile_cloned:
  assumes step: "cloneFile codeSplitting inputFiles i (h, files, symbols) = Some ((h', files', symbols'), q)"
    and ext: "heapExtends h0 h" and len: "length symbols = length files"
  shows "clonedInto codeSplitting h0 (inputFiles ! i) h' (files' ! i) (symbols' ! i)"
proof -
  from cloneFile_frame [OF step] have i: "i < length files" by simp
  show ?thesis
  proof (cases "Repr (inputFiles ! i)")
    case (ReprJS a)
    with cloneFile_SomeD [OF step] obtain c sa where
      clone: "cloneJSRepr codeSplitting i a h = Some (h', c, sa, q)"
      and files': "files' = files[i := (files ! i)\<lparr>InputFile := (inputFiles ! i)\<lparr>Repr := ReprJS c\<rparr>,
                                          DistanceFromEntryPoint := 2 ^ 32 - 1\<rparr>]"
      and symbols': "symbols' = symbols[i := Some sa]"
      by auto
    show ?thesis
      using ReprJS i len cloneJSRepr_cloned [OF clone ext]
      by (simp add: clonedInto_def files' symbols' split: option.splits)
  next
    case (ReprCSS a)
    with cloneFile_SomeD [OF step] obtain c where
      clone: "cloneCSSRepr a h = Some (h', c)"
      and files': "files' = files[i := (files ! i)\<lparr>InputFile := (inputFiles ! i)\<lparr>Repr := ReprCSS c\<rparr>,
                                          DistanceFromEntryPoint := 2 ^ 32 - 1\<rparr>]"
      by auto
    show ?thesis
      using ReprCSS i cloneCSSRepr_cloned [OF clone ext]
      by (simp add: clonedInto_def files' split: option.splits)
  next
    case ReprOther
    with cloneFile_SomeD [OF step] i show ?thesis
      by (auto simp: clonedInto_def)
  qed
qed

lemma cloneFile_queue:
  assumes step: "cloneFile codeSplitting inputFiles i (h, files, symbols) = Some ((h', files', symbols'), q)"
    and ext: "heapExtends h0 h"
    and dyn: "dynamicImportsOf codeSplitting h0 (inputFiles ! i) = Some targets"
  shows "q = targets"
proof (cases "Repr (inputFiles ! i)")
  case (ReprJS a)
  note p = heapExtendsD [OF ext]
  from ReprJS dyn obtain records where
    a0: "a < length (js_reprs h0)"
    and r0: "slice_elems (record_arrays h0) (ImportRecords (AST (js_reprs h0 ! a))) = Some records"
    and targets: "targets = dynamicImportTargets codeSplitting records"
    by (auto simp: dynamicImportsOf_def importRecordsOf_def bind_eq_Some_conv)
  have repr: "js_reprs h ! a = js_reprs h0 ! a"
    by (rule prefix_nth [OF p(1) a0])
  from ReprJS cloneFile_SomeD [OF step] obtain c sa where
    clone: "cloneJSRepr codeSplitting i a h = Some (h', c, sa, q)"
    by auto
  note r = prefix_slice_elems [OF p(6) r0]
  from clone show ?thesis
    by (rule cloneJSRepr_SomeE) (use r in \<open>simp add: repr targets\<close>)
next
  case (ReprCSS a)
  with cloneFile_SomeD [OF step] dyn show ?thesis
    by (auto simp: dynamicImportsOf_def)
next
  case ReprOther
  with cloneFile_SomeD [OF step] dyn show ?thesis
    by (auto simp: dynamicImportsOf_def)
qed

lemma runCloneTasks_cloned:
  assumes "runCloneTasks codeSplitting inputFiles reachableFiles (h, files, symbols)
             = Some ((h', files', symbols'), queues)"
    and "heapExtends h0 h" and "length symbols = length files"
  shows "(\<forall>i\<in>set reachableFiles.
            clonedInto codeSplitting h0 (inputFiles ! i) h' (files' ! i) (symbols' ! i)) \<and>
         (\<forall>k<length reachableFiles. \<forall>targets.
            dynamicImportsOf codeSplitting h0 (inputFiles ! (reachableFiles ! k)) = Some targets
              \<longrightarrow> queues ! k = targets)"
  using assms
proof (induction reachableFiles arbitrary: h files symbols queues)
  case Nil
  then show ?case by simp
next
  case (Cons i rest)
  from Cons.prems(1) obtain h1 files1 symbols1 q qs where
    step: "cloneFile codeSplitting inputFiles i (h, files, symbols) = Some ((h1, files1, symbols1), q)"
    and rest: "runCloneTasks codeSplitting inputFiles rest (h1, files1, symbols1)
                 = Some ((h', files', symbols'), qs)"
    and queues: "queues = q # qs"
    by (auto simp: bind_eq_Some_conv)
  note f = cloneFile_frame [OF step]
  have ext1: "heapExtends h0 h1"
    using Cons.prems(2) f(1) by (rule heapExtends_trans)
  have len1: "length symbols1 = length files1"
    using f Cons.prems(3) by simp
  note IH = Cons.IH [OF rest ext1 len1]
  note fr = runCloneTasks_frame [OF rest]
  have first: "clonedInto codeSplitting h0 (inputFiles ! i) h' (files' ! i) (symbols' ! i)"
  proof (cases "i \<in> set rest")
    case True
    with IH show ?thesis by blast
  next
    case False
    with fr have "files' ! i = files1 ! i" "symbols' ! i = symbols1 ! i" "heapExtends h1 h'"
      by auto
    with clonedInto_mono [OF cloneFile_cloned [OF step Cons.prems(2) Cons.prems(3)]]
    show ?thesis by simp
  qed
  have q: "q = targets" if "dynamicImportsOf codeSplitting h0 (inputFiles ! i) = Some targets" for targets
    by (rule cloneFile_queue [OF step Cons.prems(2) that])
  show ?case
    using first IH q
    by (auto simp: queues nth_Cons split: nat.splits)
qed

lemma finalPass_Some:
  "finalPass h bitCount reachableFiles (files, tsEnums, constValues) = Some (files', tsEnums', constValues') \<Longrightarrow>
   length files' = length files \<and>
   (\<forall>j. InputFile (files' ! j) = InputFile (files ! j) \<and>
        entryPointKind (files' ! j) = entryPointKind (files ! j)) \<and>
   (\<forall>i\<in>set reachableFiles. i < length files) \<and>
   tsEnums' = foldl mergeTable tsEnums (map (\<lambda>i. fileTSEnums h (files ! i)) reachableFiles) \<and>
   constValues' = foldl mergeTable constValues (map (\<lambda>i. fileConstValues h (files ! i)) reachableFiles)"
proof (induction reachableFiles arbitrary: files tsEnums constValues)
  case Nil
  then show ?case by simp
next
  case (Cons i rest)
  let ?files1 = "files[i := (files ! i)\<lparr>EntryBits := replicate bitCount False\<rparr>]"
  from Cons.prems have i: "i < length files" by (auto simp: bind_eq_Some_conv)
  have same: "InputFile (?files1 ! j) = InputFile (files ! j)"
    "entryPointKind (?files1 ! j) = entryPointKind (files ! j)" for j
    using i by (auto simp: nth_list_update)
  have ts: "fileTSEnums h (?files1 ! j) = fileTSEnums h (files ! j)"
    and cv: "fileConstValues h (?files1 ! j) = fileConstValues h (files ! j)" for j
    by (simp_all add: fileTSEnums_def fileConstValues_def same)
  from Cons.prems i have rest: "finalPass h bitCount rest
      (?files1, mergeTable tsEnums (fileTSEnums h (files ! i)),
       mergeTable constValues (fileConstValues h (files ! i))) = Some (files', tsEnums', constValues')"
    by (auto simp: bind_eq_Some_conv Let_def fileTSEnums_def fileConstValues_def mergeTable_def
        split: InputFileRepr.splits)
  from Cons.IH [OF rest] have IH:
    "length files' = length files"
    "\<And>j. InputFile (files' ! j) = InputFile (files ! j) \<and>
        entryPointKind (files' ! j) = entryPointKind (files ! j)"
    "\<forall>i\<in>set rest. i < length files"
    "tsEnums' = foldl mergeTable (mergeTable tsEnums (fileTSEnums h (files ! i)))
        (map (\<lambda>i. fileTSEnums h (files ! i)) rest)"
    "constValues' = foldl mergeTable (mergeTable constValues (fileConstValues h (files ! i)))
        (map (\<lambda>i. fileConstValues h (files ! i)) rest)"
    by (simp_all add: same ts cv)
  show ?case
    using IH i by simp
qed

lemma CloneLinkerGraph_SomeE:
  assumes "CloneLinkerGraph schedule h inputFiles reachableFiles originalEntryPoints codeSplitting
             = Some (g, h')"
  obtains files1 files2 queues files3 stableEntryPoints where
    "markEntryPoints originalEntryPoints (replicate (length inputFiles) zeroLinkerFile) = Some files1"
    "assignStableSourceIndices reachableFiles 0 (replicate (length inputFiles) 0)
       = Some (StableSourceIndices g)"
    "runCloneTasks codeSplitting inputFiles reachableFiles
       (h, files1, replicate (length inputFiles) None) = Some ((h', files2, SymbolsForSource g), queues)"
    "processDynamicEntryPoints (StableSourceIndices g) (interleave schedule queues) files2 []
       = Some (files3, stableEntryPoints)"
    "appendDynamicEntryPoints reachableFiles (sort stableEntryPoints) originalEntryPoints
       = Some (entryPoints g)"
    "finalPass h' (length (entryPoints g)) reachableFiles (files3, None, None)
       = Some (Files g, GraphTSEnums g, GraphConstValues g)"
    "ReachableFiles g = reachableFiles"
  using assms
  by (auto simp: CloneLinkerGraph_def bind_eq_Some_conv Let_def)

subsection \<open>The files of the graph are clones\<close>

lemma processDynamicEntryPoints_Some:
  assumes "processDynamicEntryPoints indices dyn files [] = Some (files', stableEntryPoints)"
  shows "files' = promoteAll (set dyn) files"
    "mset stableEntryPoints = image_mset ((!) indices) (mset_set (promotable (set dyn) files))"
    "\<forall>x\<in>set dyn. x < length files"
    "\<forall>x\<in>promotable (set dyn) files. x < length indices"
  using processDynamicEntryPoints_spec [of indices dyn files "[]"] assms
  by (auto split: if_splits)

lemma promoteAll_nth:
  "j < length files \<Longrightarrow> promoteAll D files ! j =
     (if j \<in> D \<and> entryPointKind (files ! j) = entryPointNone
      then (files ! j)\<lparr>entryPointKind := entryPointDynamicImport\<rparr> else files ! j)"
  by (simp add: promoteAll_def)

lemma promoteAll_length [simp]: "length (promoteAll D files) = length files"
  by (simp add: promoteAll_def)

lemma clonedInto_cong:
  "InputFile lf' = InputFile lf \<Longrightarrow>
   clonedInto codeSplitting h0 f h lf' slot = clonedInto codeSplitting h0 f h lf slot"
  by (simp add: clonedInto_def split: InputFileRepr.splits option.splits)

lemma CloneLinkerGraph_cloned:
  assumes run: "CloneLinkerGraph schedule h inputFiles reachableFiles originalEntryPoints codeSplitting
             = Some (g, h')"
    and i: "i \<in> set reachableFiles"
  shows "i < length inputFiles" "i < length (Files g)" "i < length (SymbolsForSource g)"
    "clonedInto codeSplitting h (inputFiles ! i) h' (Files g ! i) (SymbolsForSource g ! i)"
    "heapExtends h h'"
proof -
  from run obtain files1 files2 queues files3 stableEntryPoints where
    mark: "markEntryPoints originalEntryPoints (replicate (length inputFiles) zeroLinkerFile) = Some files1"
    and tasks: "runCloneTasks codeSplitting inputFiles reachableFiles
       (h, files1, replicate (length inputFiles) None) = Some ((h', files2, SymbolsForSource g), queues)"
    and promote: "processDynamicEntryPoints (StableSourceIndices g) (interleave schedule queues) files2 []
       = Some (files3, stableEntryPoints)"
    and final: "finalPass h' (length (entryPoints g)) reachableFiles (files3, None, None)
       = Some (Files g, GraphTSEnums g, GraphConstValues g)"
    by (rule CloneLinkerGraph_SomeE)
  from markEntryPoints_Some [OF mark] have len1: "length files1 = length inputFiles" by simp
  note fr = runCloneTasks_frame [OF tasks]
  from fr i len1 show inside: "i < length inputFiles" by simp
  from fr len1 have len2: "length files2 = length inputFiles" by simp
  from processDynamicEntryPoints_Some(1) [OF promote] have files3: "files3 = promoteAll (set (interleave schedule queues)) files2" .
  from finalPass_Some [OF final] have len4: "length (Files g) = length files3"
    and same4: "\<And>j. InputFile (Files g ! j) = InputFile (files3 ! j)"
    by auto
  from len4 files3 len2 inside show "i < length (Files g)" by simp
  from fr inside show "i < length (SymbolsForSource g)" by simp
  from fr show "heapExtends h h'" by simp
  have "InputFile (files3 ! i) = InputFile (files2 ! i)"
    using inside len2 by (simp add: files3 promoteAll_nth)
  with same4 have same: "InputFile (Files g ! i) = InputFile (files2 ! i)" by simp
  from runCloneTasks_cloned [OF tasks heapExtends_refl] len1 i
  have "clonedInto codeSplitting h (inputFiles ! i) h' (files2 ! i) (SymbolsForSource g ! i)"
    by simp
  then show "clonedInto codeSplitting h (inputFiles ! i) h' (Files g ! i) (SymbolsForSource g ! i)"
    by (simp add: clonedInto_cong [OF same])
qed

text \<open>
  Claim C9. For a reachable file whose representation is a \<^verbatim>\<open>*JSRepr\<close> held by the
  store, with symbol list \<open>syms\<close>: after \<^verbatim>\<open>CloneLinkerGraph\<close> the slot of the file
  in the symbol table is an array allocated by the call (its address is none of the old
  store's), that array holds \<open>syms\<close>, and the representation that the file of the graph
  points to has the nil slice as its \<^verbatim>\<open>AST.Symbols\<close>. The claim's Input File is read
  as the \<^verbatim>\<open>InputFile\<close> field of the graph's file, which is where line 169 writes.
\<close>

theorem symbols_moved_to_symbol_table:
  assumes run: "CloneLinkerGraph schedule h inputFiles reachableFiles originalEntryPoints codeSplitting
             = Some (g, h')"
    and i: "i \<in> set reachableFiles"
    and repr: "jsReprOf h (inputFiles ! i) = Some repr"
    and syms: "slice_elems (symbol_arrays h) (Symbols (AST repr)) = Some syms"
  shows "\<exists>sa clone. nth_opt (SymbolsForSource g) i = Some (Some sa) \<and>
           length (symbol_arrays h) \<le> sa \<and> nth_opt (symbol_arrays h') sa = Some syms \<and>
           fileRepr g h' i = Some clone \<and> Symbols (AST clone) = None"
proof -
  note c = CloneLinkerGraph_cloned [OF run i]
  from repr obtain a where a: "Repr (inputFiles ! i) = ReprJS a" "nth_opt (js_reprs h) a = Some repr"
    by (auto simp: jsReprOf_def bind_eq_Some_conv)
  with c(4) have "clonedJS codeSplitting h repr h' (Repr (InputFile (Files g ! i))) (SymbolsForSource g ! i)"
    by (simp add: clonedInto_def)
  with syms obtain c' clone sa where
    "Repr (InputFile (Files g ! i)) = ReprJS c'" "nth_opt (js_reprs h') c' = Some clone"
    "Symbols (AST clone) = None" "SymbolsForSource g ! i = Some sa"
    "length (symbol_arrays h) \<le> sa" "nth_opt (symbol_arrays h') sa = Some syms"
    unfolding clonedJS_def by blast
  with c(2,3) show ?thesis
    by (simp add: fileRepr_def bind_eq_Some_conv)
qed

theorem symbols_moved_to_symbol_table_witness:
  "CloneLinkerGraph [] exampleHeap exampleInputFiles [0, 1, 2, 3] exampleEntryPoints True
     = Some (fst exampleLinked, snd exampleLinked) \<and>
   0 \<in> set [0, 1, 2, 3 :: nat] \<and>
   map_option (Symbols \<circ> AST) (jsReprOf exampleHeap (exampleInputFiles ! 0)) = Some (Some 0) \<and>
   slice_elems (symbol_arrays exampleHeap) (Some 0)
     = Some [\<lparr>SymbolKind = 1, OriginalName = ''a'', Link = InvalidRef\<rparr>] \<and>
   (\<exists>sa clone. nth_opt (SymbolsForSource (fst exampleLinked)) 0 = Some (Some sa) \<and>
      length (symbol_arrays exampleHeap) \<le> sa \<and>
      nth_opt (symbol_arrays (snd exampleLinked)) sa
        = Some [\<lparr>SymbolKind = 1, OriginalName = ''a'', Link = InvalidRef\<rparr>] \<and>
      fileRepr (fst exampleLinked) (snd exampleLinked) 0 = Some clone \<and> Symbols (AST clone) = None)"
proof -
  have repr: "jsReprOf exampleHeap (exampleInputFiles ! 0) = Some (js_reprs exampleHeap ! 0)"
    by (simp add: example_defs jsReprOf_def asJSRepr_def nth_opt_def)
  have ptr: "Symbols (AST (js_reprs exampleHeap ! 0)) = Some 0"
    by (simp add: example_defs)
  have syms: "slice_elems (symbol_arrays exampleHeap) (Some 0)
     = Some [\<lparr>SymbolKind = 1, OriginalName = ''a'', Link = InvalidRef\<rparr>]"
    by (simp add: example_defs slice_elems_def nth_opt_def)
  have i: "0 \<in> set [0, 1, 2, 3 :: nat]" by simp
  from symbols_moved_to_symbol_table [OF example_run i repr] syms ptr
  have "\<exists>sa clone. nth_opt (SymbolsForSource (fst exampleLinked)) 0 = Some (Some sa) \<and>
      length (symbol_arrays exampleHeap) \<le> sa \<and>
      nth_opt (symbol_arrays (snd exampleLinked)) sa
        = Some [\<lparr>SymbolKind = 1, OriginalName = ''a'', Link = InvalidRef\<rparr>] \<and>
      fileRepr (fst exampleLinked) (snd exampleLinked) 0 = Some clone \<and> Symbols (AST clone) = None"
    by simp
  with example_run i repr ptr syms show ?thesis by simp
qed

text \<open>
  Claim C6. For a reachable file whose import records the store holds, the records seen
  through the graph are as many as before, and each is the old one, except that with code
  splitting on a dynamic import with a resolved target has lost its assertions; so with
  code splitting off every record is as it was. The loop of lines 186--200 runs in the
  case \<^verbatim>\<open>*JSRepr\<close>, so the file is a JS file or holds no such record (a style sheet has
  no dynamic imports).
\<close>

theorem assertions_removed_from_dynamic_imports:
  assumes run: "CloneLinkerGraph schedule h inputFiles reachableFiles originalEntryPoints codeSplitting
             = Some (g, h')"
    and i: "i \<in> set reachableFiles"
    and records: "importRecordsOf h (inputFiles ! i) = Some records"
    and js: "asJSRepr (Repr (inputFiles ! i)) \<noteq> None \<or> \<not> list_ex isDynamicImportEntry records"
  shows "\<exists>records'. importRecordsOf h' (InputFile (Files g ! i)) = Some records' \<and>
           length records' = length records \<and>
           (\<forall>k<length records.
              records' ! k =
                (if codeSplitting \<and> isDynamicImportEntry (records ! k)
                 then (records ! k)\<lparr>Assertions := None\<rparr> else records ! k))"
proof -
  note c = CloneLinkerGraph_cloned [OF run i]
  have removed: "length (removeAssertions codeSplitting records) = length records \<and>
           (\<forall>k<length records.
              removeAssertions codeSplitting records ! k =
                (if codeSplitting \<and> isDynamicImportEntry (records ! k)
                 then (records ! k)\<lparr>Assertions := None\<rparr> else records ! k))"
    by (simp add: removeAssertions_def)
  show ?thesis
  proof (cases "Repr (inputFiles ! i)")
    case (ReprJS a)
    with records obtain repr where a: "nth_opt (js_reprs h) a = Some repr"
      and r: "slice_elems (record_arrays h) (ImportRecords (AST repr)) = Some records"
      by (auto simp: importRecordsOf_def bind_eq_Some_conv)
    with ReprJS c(4) have "clonedJS codeSplitting h repr h' (Repr (InputFile (Files g ! i))) (SymbolsForSource g ! i)"
      by (simp add: clonedInto_def)
    with r obtain c' clone where
      "Repr (InputFile (Files g ! i)) = ReprJS c'" "nth_opt (js_reprs h') c' = Some clone"
      "slice_elems (record_arrays h') (ImportRecords (AST clone)) = Some (removeAssertions codeSplitting records)"
      unfolding clonedJS_def by blast
    then have "importRecordsOf h' (InputFile (Files g ! i)) = Some (removeAssertions codeSplitting records)"
      by (simp add: importRecordsOf_def bind_eq_Some_conv)
    with removed show ?thesis by blast
  next
    case (ReprCSS a)
    with records obtain repr where a: "nth_opt (css_reprs h) a = Some repr"
      and r: "slice_elems (record_arrays h) (CSSImportRecords repr) = Some records"
      by (auto simp: importRecordsOf_def bind_eq_Some_conv)
    with ReprCSS c(4) have "clonedCSS h repr h' (Repr (InputFile (Files g ! i)))"
      by (simp add: clonedInto_def)
    with r obtain c' clone where
      "Repr (InputFile (Files g ! i)) = ReprCSS c'" "nth_opt (css_reprs h') c' = Some clone"
      "slice_elems (record_arrays h') (CSSImportRecords clone) = Some records"
      unfolding clonedCSS_def by blast
    then have "importRecordsOf h' (InputFile (Files g ! i)) = Some records"
      by (simp add: importRecordsOf_def bind_eq_Some_conv)
    moreover from ReprCSS js have "\<forall>k<length records. \<not> isDynamicImportEntry (records ! k)"
      by (auto simp: list_ex_iff asJSRepr_def)
    ultimately show ?thesis by simp
  next
    case ReprOther
    with c(4) have "Repr (InputFile (Files g ! i)) = ReprOther"
      by (simp add: clonedInto_def)
    moreover from ReprOther records have "records = []"
      by (simp add: importRecordsOf_def)
    ultimately show ?thesis
      by (simp add: importRecordsOf_def)
  qed
qed

theorem assertions_removed_from_dynamic_imports_witness:
  "CloneLinkerGraph [] exampleHeap exampleInputFiles [0, 1, 2, 3] exampleEntryPoints True
     = Some (fst exampleLinked, snd exampleLinked) \<and>
   0 \<in> set [0, 1, 2, 3 :: nat] \<and>
   importRecordsOf exampleHeap (exampleInputFiles ! 0)
     = Some [\<lparr>RecordSourceIndex = Some 1, Kind = ImportStmt, Assertions = None\<rparr>,
             \<lparr>RecordSourceIndex = Some 2, Kind = ImportDynamic, Assertions = jsonAssertion\<rparr>] \<and>
   asJSRepr (Repr (exampleInputFiles ! 0)) = Some 0 \<and>
   importRecordsOf (snd exampleLinked) (InputFile (Files (fst exampleLinked) ! 0))
     = Some [\<lparr>RecordSourceIndex = Some 1, Kind = ImportStmt, Assertions = None\<rparr>,
             \<lparr>RecordSourceIndex = Some 2, Kind = ImportDynamic, Assertions = None\<rparr>]"
proof -
  let ?records = "[\<lparr>RecordSourceIndex = Some 1, Kind = ImportStmt, Assertions = None\<rparr>,
             \<lparr>RecordSourceIndex = Some 2, Kind = ImportDynamic, Assertions = jsonAssertion\<rparr>]"
  have records: "importRecordsOf exampleHeap (exampleInputFiles ! 0) = Some ?records"
    by (simp add: example_defs importRecordsOf_def slice_elems_def nth_opt_def)
  have js: "asJSRepr (Repr (exampleInputFiles ! 0)) = Some 0"
    by (simp add: example_defs asJSRepr_def)
  then have js': "asJSRepr (Repr (exampleInputFiles ! 0)) \<noteq> None \<or> \<not> list_ex isDynamicImportEntry ?records"
    by simp
  have i: "0 \<in> set [0, 1, 2, 3 :: nat]" by simp
  from assertions_removed_from_dynamic_imports [OF example_run i records js']
  obtain records' where r: "importRecordsOf (snd exampleLinked) (InputFile (Files (fst exampleLinked) ! 0)) = Some records'"
    and len: "length records' = 2"
    and each: "\<forall>k<2. records' ! k =
                (if isDynamicImportEntry (?records ! k)
                 then (?records ! k)\<lparr>Assertions := None\<rparr> else ?records ! k)"
    by auto
  from each have "records' ! 0 = \<lparr>RecordSourceIndex = Some 1, Kind = ImportStmt, Assertions = None\<rparr>"
    "records' ! 1 = \<lparr>RecordSourceIndex = Some 2, Kind = ImportDynamic, Assertions = None\<rparr>"
    by (simp_all add: isDynamicImportEntry_def)
  with len have "records' = [\<lparr>RecordSourceIndex = Some 1, Kind = ImportStmt, Assertions = None\<rparr>,
             \<lparr>RecordSourceIndex = Some 2, Kind = ImportDynamic, Assertions = None\<rparr>]"
    by (intro nth_equalityI) (auto simp: less_Suc_eq numeral_2_eq_2)
  with example_run i records js r show ?thesis by simp
qed

subsection \<open>The promoted entry points\<close>

lemma u32_small: "n < 2 ^ 32 \<Longrightarrow> u32 n = n"
  by (simp add: u32_def)

lemma CloneLinkerGraph_promoted:
  assumes run: "CloneLinkerGraph schedule h inputFiles reachableFiles originalEntryPoints codeSplitting
             = Some (g, h')"
    and distinct: "distinct reachableFiles" and small: "length reachableFiles \<le> 2 ^ 32"
    and closed: "\<forall>i\<in>set reachableFiles. \<exists>targets.
        dynamicImportsOf codeSplitting h (inputFiles ! i) = Some targets \<and>
        set targets \<subseteq> set reachableFiles"
  defines "T \<equiv> allDynamicTargets codeSplitting h inputFiles reachableFiles"
    and "U \<equiv> SourceIndex ` set originalEntryPoints"
  shows "entryPoints g = originalEntryPoints @ drop (length originalEntryPoints) (entryPoints g)"
    "mset (map SourceIndex (drop (length originalEntryPoints) (entryPoints g))) = mset_set (T - U)"
    "\<forall>x<length inputFiles. entryPointKind (Files g ! x) =
        (if x \<in> U then entryPointUserSpecified
         else if x \<in> T then entryPointDynamicImport else entryPointNone)"
proof -
  let ?n = "length inputFiles"
  from run obtain files1 files2 queues files3 stableEntryPoints where
    mark: "markEntryPoints originalEntryPoints (replicate ?n zeroLinkerFile) = Some files1"
    and assign: "assignStableSourceIndices reachableFiles 0 (replicate ?n 0)
       = Some (StableSourceIndices g)"
    and tasks: "runCloneTasks codeSplitting inputFiles reachableFiles
       (h, files1, replicate ?n None) = Some ((h', files2, SymbolsForSource g), queues)"
    and promote: "processDynamicEntryPoints (StableSourceIndices g) (interleave schedule queues) files2 []
       = Some (files3, stableEntryPoints)"
    and append: "appendDynamicEntryPoints reachableFiles (sort stableEntryPoints) originalEntryPoints
       = Some (entryPoints g)"
    and final: "finalPass h' (length (entryPoints g)) reachableFiles (files3, None, None)
       = Some (Files g, GraphTSEnums g, GraphConstValues g)"
    by (rule CloneLinkerGraph_SomeE)
  \<comment> \<open>the user-specified entry points\<close>
  from markEntryPoints_Some [OF mark] have len1: "length files1 = ?n"
    and kind1: "\<And>j. j < ?n \<Longrightarrow> entryPointKind (files1 ! j) =
        (if j \<in> U then entryPointUserSpecified else entryPointNone)"
    by (auto simp: U_def zeroLinkerFile_def)
  \<comment> \<open>the stable indices\<close>
  from assignStableSourceIndices_Some [OF assign] distinct
  have stable: "\<And>s. s < length reachableFiles \<Longrightarrow> StableSourceIndices g ! (reachableFiles ! s) = s"
    using small by (simp add: u32_small)
  \<comment> \<open>the tasks\<close>
  note fr = runCloneTasks_frame [OF tasks]
  from fr len1 have len2: "length files2 = ?n"
    and kind2: "\<And>j. entryPointKind (files2 ! j) = entryPointKind (files1 ! j)"
    and inside: "\<And>i. i \<in> set reachableFiles \<Longrightarrow> i < ?n"
    and lenq: "length queues = length reachableFiles"
    by auto
  from runCloneTasks_cloned [OF tasks heapExtends_refl] len1
  have queue: "\<And>k targets. k < length reachableFiles \<Longrightarrow>
      dynamicImportsOf codeSplitting h (inputFiles ! (reachableFiles ! k)) = Some targets \<Longrightarrow>
      queues ! k = targets"
    by simp
  have dyn: "set (interleave schedule queues) = T"
  proof -
    have "set (concat queues) = (\<Union>k<length reachableFiles. set (queues ! k))"
      using lenq by (auto simp: set_conv_nth [of queues])
    also have "\<dots> = (\<Union>k<length reachableFiles.
        (case dynamicImportsOf codeSplitting h (inputFiles ! (reachableFiles ! k)) of
           None \<Rightarrow> {} | Some targets \<Rightarrow> set targets))"
    proof (rule SUP_cong [OF refl])
      fix k assume "k \<in> {..<length reachableFiles}"
      then have k: "k < length reachableFiles" by simp
      with closed obtain targets where
        t: "dynamicImportsOf codeSplitting h (inputFiles ! (reachableFiles ! k)) = Some targets"
        by (meson nth_mem)
      with queue [OF k t] show "set (queues ! k) =
        (case dynamicImportsOf codeSplitting h (inputFiles ! (reachableFiles ! k)) of
           None \<Rightarrow> {} | Some targets \<Rightarrow> set targets)"
        by simp
    qed
    also have "\<dots> = T"
      unfolding T_def allDynamicTargets_def
      by (auto simp: set_conv_nth [of reachableFiles])
    finally show ?thesis by (simp add: set_interleave)
  qed
  have Treach: "T \<subseteq> set reachableFiles"
    unfolding T_def allDynamicTargets_def using closed by fastforce
  \<comment> \<open>the promotion\<close>
  note pr = processDynamicEntryPoints_Some [OF promote]
  have P: "promotable T files2 = T - U"
    using Treach inside kind1 kind2 by (auto simp: promotable_def split: if_splits)
  from pr(1) dyn have files3: "files3 = promoteAll T files2" by simp
  from pr(2) dyn P have seps: "mset stableEntryPoints = image_mset ((!) (StableSourceIndices g)) (mset_set (T - U))"
    by simp
  \<comment> \<open>the appended entry points\<close>
  from appendDynamicEntryPoints_Some [OF append]
  have entries: "entryPoints g = originalEntryPoints @
      map (\<lambda>stableIndex. dynamicEntryPoint (reachableFiles ! stableIndex)) (sort stableEntryPoints)"
    by simp
  then show "entryPoints g = originalEntryPoints @ drop (length originalEntryPoints) (entryPoints g)"
    by simp
  have finT: "finite T"
    using Treach by (rule finite_subset) simp
  have there: "reachableFiles ! (StableSourceIndices g ! x) = x" if "x \<in> T - U" for x
  proof -
    from that Treach have "x \<in> set reachableFiles" by auto
    then obtain s where "s < length reachableFiles" "reachableFiles ! s = x"
      by (auto simp: in_set_conv_nth)
    with stable [of s] show ?thesis by simp
  qed
  have "mset (map SourceIndex (drop (length originalEntryPoints) (entryPoints g)))
      = image_mset ((!) reachableFiles) (mset (sort stableEntryPoints))"
    by (simp add: entries dynamicEntryPoint_def comp_def)
  also have "\<dots> = image_mset (\<lambda>x. reachableFiles ! (StableSourceIndices g ! x)) (mset_set (T - U))"
    by (simp add: seps multiset.map_comp comp_def)
  also have "\<dots> = image_mset (\<lambda>x. x) (mset_set (T - U))"
    by (rule image_mset_cong) (use finT there in simp)
  finally show "mset (map SourceIndex (drop (length originalEntryPoints) (entryPoints g))) = mset_set (T - U)"
    by simp
  \<comment> \<open>the kinds\<close>
  from finalPass_Some [OF final] have kind4: "\<And>j. entryPointKind (Files g ! j) = entryPointKind (files3 ! j)"
    by simp
  show "\<forall>x<length inputFiles. entryPointKind (Files g ! x) =
        (if x \<in> U then entryPointUserSpecified
         else if x \<in> T then entryPointDynamicImport else entryPointNone)"
    using len2 by (auto simp: kind4 files3 promoteAll_nth kind2 kind1)
qed

text \<open>
  Claim C2. Code splitting is on, \<^verbatim>\<open>reachableFiles\<close> lists each file once and is
  closed under the dynamic imports of its JS files (the store holds their records), and
  two different reachable files import the file \<open>X\<close> dynamically. Then \<open>X\<close> occurs in
  the entry points of the graph once, with kind \<^verbatim>\<open>entryPointDynamicImport\<close>, unless it
  is one of the caller's entry points: then it occurs as often as the caller listed it
  (nothing is appended for it) and its kind is \<^verbatim>\<open>entryPointUserSpecified\<close>. The
  second importer is not needed for the proof: one or many, the target is appended once.
\<close>

theorem dynamic_entry_point_added_once:
  assumes run: "CloneLinkerGraph schedule h inputFiles reachableFiles originalEntryPoints True
             = Some (g, h')"
    and distinct: "distinct reachableFiles" and small: "length reachableFiles \<le> 2 ^ 32"
    and closed: "\<forall>i\<in>set reachableFiles. \<exists>targets.
        dynamicImportsOf True h (inputFiles ! i) = Some targets \<and> set targets \<subseteq> set reachableFiles"
    and f1: "f1 \<in> set reachableFiles" "dynamicImportsOf True h (inputFiles ! f1) = Some targets1"
      "X \<in> set targets1"
    and f2: "f2 \<in> set reachableFiles" "dynamicImportsOf True h (inputFiles ! f2) = Some targets2"
      "X \<in> set targets2"
    and two: "f1 \<noteq> f2"
  shows "count_list (map SourceIndex (entryPoints g)) X =
           (if X \<in> SourceIndex ` set originalEntryPoints
            then count_list (map SourceIndex originalEntryPoints) X else 1) \<and>
         entryPointKind (Files g ! X) =
           (if X \<in> SourceIndex ` set originalEntryPoints
            then entryPointUserSpecified else entryPointDynamicImport)"
proof -
  let ?T = "allDynamicTargets True h inputFiles reachableFiles"
  let ?U = "SourceIndex ` set originalEntryPoints"
  let ?added = "drop (length originalEntryPoints) (entryPoints g)"
  note p = CloneLinkerGraph_promoted [OF run distinct small closed]
  have T: "X \<in> ?T"
    unfolding allDynamicTargets_def using f1 by (intro UN_I [of f1]) simp_all
  have fin: "finite (?T - ?U)"
  proof -
    have "?T \<subseteq> set reachableFiles"
      unfolding allDynamicTargets_def using closed by fastforce
    then show ?thesis by (meson finite_Diff finite_subset finite_set)
  qed
  from closed f1 have "X \<in> set reachableFiles" by fastforce
  with CloneLinkerGraph_cloned(1) [OF run] have inside: "X < length inputFiles" .
  have "count_list (map SourceIndex ?added) X = count (mset (map SourceIndex ?added)) X"
    by (simp only: count_mset)
  also have "\<dots> = count (mset_set (?T - ?U)) X"
    by (simp only: p(2))
  also have "\<dots> = (if X \<in> ?U then 0 else 1)"
    using T fin by simp
  finally have added: "count_list (map SourceIndex ?added) X = (if X \<in> ?U then 0 else 1)" .
  have "count_list (map SourceIndex (entryPoints g)) X =
      count_list (map SourceIndex originalEntryPoints) X + count_list (map SourceIndex ?added) X"
    by (subst p(1)) simp
  moreover have "count_list (map SourceIndex originalEntryPoints) X = 0" if "X \<notin> ?U"
    using that by (simp add: count_list_0_iff)
  ultimately have "count_list (map SourceIndex (entryPoints g)) X =
           (if X \<in> ?U then count_list (map SourceIndex originalEntryPoints) X else 1)"
    using added by simp
  moreover from p(3) inside T have "entryPointKind (Files g ! X) =
           (if X \<in> ?U then entryPointUserSpecified else entryPointDynamicImport)"
    by simp
  ultimately show ?thesis by blast
qed

theorem dynamic_entry_point_added_once_witness:
  "CloneLinkerGraph [] exampleHeap exampleInputFiles [0, 1, 2, 3] exampleEntryPoints True
     = Some (fst exampleLinked, snd exampleLinked) \<and>
   distinct [0, 1, 2, 3 :: nat] \<and> length [0, 1, 2, 3 :: nat] \<le> 2 ^ 32 \<and>
   list_all (\<lambda>i. case dynamicImportsOf True exampleHeap (exampleInputFiles ! i) of
                    None \<Rightarrow> False | Some targets \<Rightarrow> set targets \<subseteq> set [0, 1, 2, 3])
     [0, 1, 2, 3] \<and>
   dynamicImportsOf True exampleHeap (exampleInputFiles ! 0) = Some [2] \<and>
   dynamicImportsOf True exampleHeap (exampleInputFiles ! 1) = Some [2] \<and>
   (0 :: nat) \<noteq> 1 \<and>
   map SourceIndex exampleEntryPoints = [0] \<and>
   count_list (map SourceIndex (entryPoints (fst exampleLinked))) 2 = 1 \<and>
   entryPointKind (Files (fst exampleLinked) ! 2) = entryPointDynamicImport \<and>
   count_list (map SourceIndex (entryPoints (fst exampleLinked))) 0 = 1 \<and>
   entryPointKind (Files (fst exampleLinked) ! 0) = entryPointUserSpecified"
proof -
  have d: "dynamicImportsOf True exampleHeap (exampleInputFiles ! 0) = Some [2]"
    "dynamicImportsOf True exampleHeap (exampleInputFiles ! 1) = Some [2]"
    "dynamicImportsOf True exampleHeap (exampleInputFiles ! 2) = Some []"
    "dynamicImportsOf True exampleHeap (exampleInputFiles ! 3) = Some []"
    by (simp_all add: example_defs dynamicImportsOf_def importRecordsOf_def slice_elems_def
        nth_opt_def dynamicImportTargets_def isDynamicImportEntry_def)
  have closed: "\<forall>i\<in>set [0, 1, 2, 3 :: nat]. \<exists>targets.
        dynamicImportsOf True exampleHeap (exampleInputFiles ! i) = Some targets \<and>
        set targets \<subseteq> set [0, 1, 2, 3]"
    using d by simp
  have eps: "map SourceIndex exampleEntryPoints = [0]"
    by (simp add: exampleEntryPoints_def)
  have user: "0 \<in> SourceIndex ` set exampleEntryPoints" "2 \<notin> SourceIndex ` set exampleEntryPoints"
    by (simp_all add: exampleEntryPoints_def)
  have k0: "entryPointKind (Files (fst exampleLinked) ! 0) = entryPointUserSpecified"
    and c0: "count_list (map SourceIndex (entryPoints (fst exampleLinked))) 0 = 1"
    unfolding exampleLinked_def by (simp_all add: example_defs clone_eval)
  from dynamic_entry_point_added_once [where X = 2, OF example_run _ _ closed _ d(1) _ _ d(2)] user
  have "count_list (map SourceIndex (entryPoints (fst exampleLinked))) 2 = 1 \<and>
        entryPointKind (Files (fst exampleLinked) ! 2) = entryPointDynamicImport"
    by simp
  with example_run d eps k0 c0 show ?thesis by simp
qed

subsection \<open>The input files are never written\<close>







lemma inputSnapshot_forget [simp]: "inputSnapshot (forgetSymbolUses h) f = inputSnapshot h f"
  by (cases "Repr f") (simp_all add: inputSnapshot_def forgetSymbolUses_def)

lemma keepsClear_Nil [simp]: "keepsClear [] header"
  by (simp add: keepsClear_def split: option.splits)

lemma freshPart_forget [simp]: "freshPart (forgetSymbolUses h) [] part"
  by (simp add: freshPart_def forgetSymbolUses_def split: option.splits)

lemma freshMutation_forget [simp]: "freshMutation (forgetSymbolUses h) [] m"
  by (cases m) simp_all

lemma dependenciesKept_Nil [simp]: "dependenciesKept [] arrays0 arrays"
  by (simp add: dependenciesKept_def)



























text \<open>
  What the graph does share with the input. Two graphs of one bundle hold, in the copies
  of a part, the same \<^verbatim>\<open>Dependencies\<close> slice as the input's part, and each appends into
  the spare capacity of its backing array: the second graph's edge overwrites the first
  edge of the first graph. The input's part, whose slice is empty, is as it was. And the
  copy of a \<^verbatim>\<open>JSRepr\<close> shares an overlay that is not nil with the original, so a part
  added through the graph shows in the overlay of the input file.
\<close>

lemmas sharing_defs = sharingHeap_def sharingInputFiles_def zeroAST_def zeroMeta_def

lemma graphs_share_backing_arrays:
  "\<exists>h1 h2.
     CloneLinkerGraph [] sharingHeap sharingInputFiles [0, 1, 2] [] False
       = Some (fst firstGraph, snd firstGraph) \<and>
     CloneLinkerGraph [] (snd firstGraph) sharingInputFiles [0, 1, 2] [] False
       = Some (fst secondGraph, snd secondGraph) \<and>
     GenerateSymbolImportAndUse (fst firstGraph) (snd secondGraph) 0 0 (Ref 2 0) 1 2 = Some h1 \<and>
     partDependencies (fst firstGraph) h1 0 0 = Some [Dependency 2 0, Dependency 2 1] \<and>
     GenerateSymbolImportAndUse (fst secondGraph) h1 0 0 (Ref 1 0) 1 1 = Some h2 \<and>
     partDependencies (fst secondGraph) h2 0 0 = Some [Dependency 1 1] \<and>
     partDependencies (fst firstGraph) h2 0 0 = Some [Dependency 1 1, Dependency 2 1] \<and>
     inputContents sharingHeap (sharingInputFiles ! 0) = Some [(Map.empty, [])] \<and>
     inputContents h2 (sharingInputFiles ! 0) = Some [(Map.empty, [])]"
proof -
  define h1 where "h1 = the (GenerateSymbolImportAndUse (fst firstGraph) (snd secondGraph) 0 0 (Ref 2 0) 1 2)"
  define h2 where "h2 = the (GenerateSymbolImportAndUse (fst secondGraph) h1 0 0 (Ref 1 0) 1 1)"
  note eval = h2_def h1_def secondGraph_def firstGraph_def sharing_defs clone_eval use_eval read_eval
    inputContents_def inputParts_def
  have "CloneLinkerGraph [] sharingHeap sharingInputFiles [0, 1, 2] [] False
       = Some (fst firstGraph, snd firstGraph)"
    by (simp add: eval)
  moreover have "CloneLinkerGraph [] (snd firstGraph) sharingInputFiles [0, 1, 2] [] False
       = Some (fst secondGraph, snd secondGraph)"
    by (simp add: eval)
  moreover have "GenerateSymbolImportAndUse (fst firstGraph) (snd secondGraph) 0 0 (Ref 2 0) 1 2 = Some h1"
    by (simp add: eval)
  moreover have "partDependencies (fst firstGraph) h1 0 0 = Some [Dependency 2 0, Dependency 2 1]"
    by (simp add: eval)
  moreover have "GenerateSymbolImportAndUse (fst secondGraph) h1 0 0 (Ref 1 0) 1 1 = Some h2"
    by (simp add: eval)
  moreover have "partDependencies (fst secondGraph) h2 0 0 = Some [Dependency 1 1]"
    by (simp add: eval)
  moreover have "partDependencies (fst firstGraph) h2 0 0 = Some [Dependency 1 1, Dependency 2 1]"
    by (simp add: eval)
  moreover have "inputContents sharingHeap (sharingInputFiles ! 0) = Some [(Map.empty, [])]"
    by (simp add: eval)
  moreover have "inputContents h2 (sharingInputFiles ! 0) = Some [(Map.empty, [])]"
    by (simp add: eval)
  ultimately show ?thesis by blast
qed

lemma graph_shares_overlay:
  "\<exists>h'. AddPartToFile (fst firstGraph) (snd firstGraph) 2 thirdPart = Some (2, h') \<and>
     map_option (\<lambda>repr. declaringPartsOverlay sharingHeap repr (Ref 2 0))
       (jsReprOf sharingHeap (sharingInputFiles ! 2)) = Some (Some [0, 1]) \<and>
     map_option (\<lambda>repr. declaringPartsOverlay h' repr (Ref 2 0))
       (jsReprOf h' (sharingInputFiles ! 2)) = Some (Some [0, 1, 2])"
proof -
  define h' where "h' = snd (the (AddPartToFile (fst firstGraph) (snd firstGraph) 2 thirdPart))"
  note eval = h'_def firstGraph_def sharing_defs clone_eval thirdPart_def addPart_eval
    declaringPartsOverlay_def jsReprOf_def
  have "AddPartToFile (fst firstGraph) (snd firstGraph) 2 thirdPart = Some (2, h')"
    by (simp add: eval)
  moreover have "map_option (\<lambda>repr. declaringPartsOverlay sharingHeap repr (Ref 2 0))
       (jsReprOf sharingHeap (sharingInputFiles ! 2)) = Some (Some [0, 1])"
    by (simp add: eval)
  moreover have "map_option (\<lambda>repr. declaringPartsOverlay h' repr (Ref 2 0))
       (jsReprOf h' (sharingInputFiles ! 2)) = Some (Some [0, 1, 2])"
    by (simp add: eval)
  ultimately show ?thesis by blast
qed






subsection \<open>Determinism of \<^verbatim>\<open>CloneLinkerGraph\<close>\<close>

text \<open>
  The order in which the tasks append to \<^verbatim>\<open>dynamicImportEntryPoints\<close> decides the
  order of the list but not its elements, and the promoted stable indices are sorted.
\<close>

lemma processDynamicEntryPoints_sorted:
  assumes "set dyn1 = set dyn2"
  shows "map_option (\<lambda>(files', stableEntryPoints'). (files', sort stableEntryPoints'))
           (processDynamicEntryPoints indices dyn1 files []) =
         map_option (\<lambda>(files', stableEntryPoints'). (files', sort stableEntryPoints'))
           (processDynamicEntryPoints indices dyn2 files [])"
proof -
  let ?r1 = "processDynamicEntryPoints indices dyn1 files []"
  let ?r2 = "processDynamicEntryPoints indices dyn2 files []"
  have eq: "map_option (\<lambda>(files', stableEntryPoints'). (files', mset stableEntryPoints')) ?r1
      = map_option (\<lambda>(files', stableEntryPoints'). (files', mset stableEntryPoints')) ?r2"
    by (simp only: processDynamicEntryPoints_spec assms)
  show ?thesis
  proof (cases ?r1)
    case None
    with eq show ?thesis by simp
  next
    case (Some a)
    with eq obtain b where b: "?r2 = Some b" by (cases ?r2) auto
    from eq Some b have "fst a = fst b" "mset (snd a) = mset (snd b)"
      by (auto simp: split_def)
    moreover from this(2) have "sort (snd a) = sort (snd b)"
      by (metis properties_for_sort sorted_sort mset_sort)
    ultimately show ?thesis using Some b by (simp add: split_def)
  qed
qed

lemma CloneLinkerGraph_reschedule:
  assumes run: "CloneLinkerGraph schedule1 h inputFiles reachableFiles originalEntryPoints codeSplitting
             = Some (g, h')"
  shows "CloneLinkerGraph schedule2 h inputFiles reachableFiles originalEntryPoints codeSplitting
             = Some (g, h')"
proof -
  let ?n = "length inputFiles"
  from run obtain files1 files2 queues files3 stableEntryPoints where
    mark: "markEntryPoints originalEntryPoints (replicate ?n zeroLinkerFile) = Some files1"
    and assign: "assignStableSourceIndices reachableFiles 0 (replicate ?n 0)
       = Some (StableSourceIndices g)"
    and tasks: "runCloneTasks codeSplitting inputFiles reachableFiles
       (h, files1, replicate ?n None) = Some ((h', files2, SymbolsForSource g), queues)"
    and promote: "processDynamicEntryPoints (StableSourceIndices g) (interleave schedule1 queues) files2 []
       = Some (files3, stableEntryPoints)"
    and append: "appendDynamicEntryPoints reachableFiles (sort stableEntryPoints) originalEntryPoints
       = Some (entryPoints g)"
    and final: "finalPass h' (length (entryPoints g)) reachableFiles (files3, None, None)
       = Some (Files g, GraphTSEnums g, GraphConstValues g)"
    and reach: "ReachableFiles g = reachableFiles"
    by (rule CloneLinkerGraph_SomeE)
  have "set (interleave schedule1 queues) = set (interleave schedule2 queues)"
    by (simp add: set_interleave)
  from processDynamicEntryPoints_sorted [OF this, of "StableSourceIndices g" files2] promote
  obtain other where
    promote2: "processDynamicEntryPoints (StableSourceIndices g) (interleave schedule2 queues) files2 []
       = Some (files3, other)"
    and sorted: "sort other = sort stableEntryPoints"
    by (cases "processDynamicEntryPoints (StableSourceIndices g) (interleave schedule2 queues) files2 []")
       auto
  have "\<lparr>Files = Files g, entryPoints = entryPoints g, SymbolsForSource = SymbolsForSource g,
          GraphTSEnums = GraphTSEnums g, GraphConstValues = GraphConstValues g,
          ReachableFiles = reachableFiles, StableSourceIndices = StableSourceIndices g\<rparr> = g"
    using reach by simp
  then show ?thesis
    unfolding CloneLinkerGraph_def
    by (simp add: mark assign tasks promote2 sorted append final)
qed

text \<open>The same bundle under other file identities.\<close>

lemma assignStableSourceIndices_relabel:
  assumes "assignStableSourceIndices reachableFiles k indices1 = Some indices1'"
    and "assignStableSourceIndices (map \<pi> reachableFiles) k indices2 = Some indices2'"
    and "inj_on \<pi> {..<n}" and "length indices1 = n"
    and "\<forall>i<n. indices2 ! \<pi> i = indices1 ! i"
  shows "\<forall>i<n. indices2' ! \<pi> i = indices1' ! i"
  using assms
proof (induction reachableFiles arbitrary: k indices1 indices2)
  case Nil
  then show ?case by simp
next
  case (Cons r rest)
  from Cons.prems(1) have r: "r < length indices1"
    and rest1: "assignStableSourceIndices rest (Suc k) (indices1[r := u32 k]) = Some indices1'"
    by (auto split: if_splits)
  from Cons.prems(2) have r2: "\<pi> r < length indices2"
    and rest2: "assignStableSourceIndices (map \<pi> rest) (Suc k) (indices2[\<pi> r := u32 k]) = Some indices2'"
    by (auto split: if_splits)
  have "\<forall>i<n. indices2[\<pi> r := u32 k] ! \<pi> i = indices1[r := u32 k] ! i"
  proof (intro allI impI)
    fix i assume i: "i < n"
    with Cons.prems(3,4) r have "\<pi> i = \<pi> r \<longleftrightarrow> i = r"
      by (auto simp: inj_on_def)
    with i r r2 Cons.prems(5) show "indices2[\<pi> r := u32 k] ! \<pi> i = indices1[r := u32 k] ! i"
      by (auto simp: nth_list_update)
  qed
  with Cons.IH [OF rest1 rest2 Cons.prems(3)] Cons.prems(4) show ?case by simp
qed

lemma relabelTable_merge:
  "mergeTable (relabelTable old merged) (relabelTable old table)
     = relabelTable old (mergeTable merged table)"
  by (cases table; cases merged)
     (auto simp: mergeTable_def relabelTable_def map_add_def fun_eq_iff split: option.splits)

lemma relabelTable_foldl:
  "foldl mergeTable (relabelTable old merged) (map (relabelTable old) tables)
     = relabelTable old (foldl mergeTable merged tables)"
  by (induction tables arbitrary: merged) (simp_all add: relabelTable_merge)

lemma CloneLinkerGraph_tables:
  assumes run: "CloneLinkerGraph schedule h inputFiles reachableFiles originalEntryPoints codeSplitting
             = Some (g, h')"
    and stored: "\<forall>i\<in>set reachableFiles. importRecordsOf h (inputFiles ! i) \<noteq> None"
  shows "GraphTSEnums g = foldl mergeTable None (map (\<lambda>i. inputTSEnums h (inputFiles ! i)) reachableFiles)"
    "GraphConstValues g = foldl mergeTable None (map (\<lambda>i. inputConstValues h (inputFiles ! i)) reachableFiles)"
proof -
  let ?n = "length inputFiles"
  from run obtain files1 files2 queues files3 stableEntryPoints where
    final: "finalPass h' (length (entryPoints g)) reachableFiles (files3, None, None)
       = Some (Files g, GraphTSEnums g, GraphConstValues g)"
    by (rule CloneLinkerGraph_SomeE)
  note fp = finalPass_Some [OF final]
  have each: "fileTSEnums h' (files3 ! i) = inputTSEnums h (inputFiles ! i) \<and>
      fileConstValues h' (files3 ! i) = inputConstValues h (inputFiles ! i)"
    if i: "i \<in> set reachableFiles" for i
  proof -
    from fp have same: "InputFile (files3 ! i) = InputFile (Files g ! i)" by simp
    from stored i have rec: "importRecordsOf h (inputFiles ! i) \<noteq> None" by simp
    note c = CloneLinkerGraph_cloned(4) [OF run i]
    show ?thesis
    proof (cases "Repr (inputFiles ! i)")
      case (ReprJS a)
      with rec obtain repr where repr: "nth_opt (js_reprs h) a = Some repr"
        by (auto simp: importRecordsOf_def bind_eq_Some_conv simp del: nth_opt_Some)
      with c ReprJS have "clonedJS codeSplitting h repr h' (Repr (InputFile (Files g ! i))) (SymbolsForSource g ! i)"
        by (simp add: clonedInto_def del: nth_opt_Some)
      then obtain c clone where "Repr (InputFile (Files g ! i)) = ReprJS c"
        "nth_opt (js_reprs h') c = Some clone" "TSEnums (AST clone) = TSEnums (AST repr)"
        "ConstValues (AST clone) = ConstValues (AST repr)"
        unfolding clonedJS_def by blast
      moreover from ReprJS repr have "jsReprOf h (inputFiles ! i) = Some repr"
        by (simp add: jsReprOf_def asJSRepr_def nth_opt_def)
      ultimately show ?thesis
        by (auto simp: fileTSEnums_def fileConstValues_def same inputTSEnums_def
            inputConstValues_def)
    next
      case (ReprCSS a)
      with rec obtain repr where repr: "nth_opt (css_reprs h) a = Some repr"
        by (auto simp: importRecordsOf_def bind_eq_Some_conv simp del: nth_opt_Some)
      with c ReprCSS have "clonedCSS h repr h' (Repr (InputFile (Files g ! i)))"
        by (simp add: clonedInto_def del: nth_opt_Some)
      with ReprCSS show ?thesis
        by (auto simp: clonedCSS_def fileTSEnums_def fileConstValues_def same inputTSEnums_def
            inputConstValues_def jsReprOf_def asJSRepr_def)
    next
      case ReprOther
      with c show ?thesis
        by (auto simp: clonedInto_def fileTSEnums_def fileConstValues_def same inputTSEnums_def
            inputConstValues_def jsReprOf_def asJSRepr_def)
    qed
  qed
  from fp have "GraphTSEnums g = foldl mergeTable None (map (\<lambda>i. fileTSEnums h' (files3 ! i)) reachableFiles)"
    by simp
  also have "map (\<lambda>i. fileTSEnums h' (files3 ! i)) reachableFiles
      = map (\<lambda>i. inputTSEnums h (inputFiles ! i)) reachableFiles"
    using each by simp
  finally show "GraphTSEnums g = foldl mergeTable None (map (\<lambda>i. inputTSEnums h (inputFiles ! i)) reachableFiles)" .
  from fp have "GraphConstValues g = foldl mergeTable None (map (\<lambda>i. fileConstValues h' (files3 ! i)) reachableFiles)"
    by simp
  also have "map (\<lambda>i. fileConstValues h' (files3 ! i)) reachableFiles
      = map (\<lambda>i. inputConstValues h (inputFiles ! i)) reachableFiles"
    using each by simp
  finally show "GraphConstValues g = foldl mergeTable None (map (\<lambda>i. inputConstValues h (inputFiles ! i)) reachableFiles)" .
qed

lemma relabelTable_None [simp]: "relabelTable old None = None"
  by (simp add: relabelTable_def)

lemma dynamicEntryPoint_relabel:
  "dynamicEntryPoint (\<pi> x) = relabelEntryPoint \<pi> (dynamicEntryPoint x)"
  by (simp add: dynamicEntryPoint_def relabelEntryPoint_def)

lemma CloneLinkerGraph_relabel:
  assumes run1: "CloneLinkerGraph schedule1 h1 inputFiles1 reachableFiles originalEntryPoints codeSplitting
             = Some (g1, h1')"
    and run2: "CloneLinkerGraph schedule2 h2 inputFiles2 (map \<pi> reachableFiles)
                 (map (relabelEntryPoint \<pi>) originalEntryPoints) codeSplitting = Some (g2, h2')"
    and len: "length inputFiles2 = length inputFiles1"
    and bij: "bij_betw \<pi> {..<length inputFiles1} {..<length inputFiles1}"
    and rel: "\<forall>i\<in>set reachableFiles.
        relabeledInput \<pi> old codeSplitting h1 (inputFiles1 ! i) h2 (inputFiles2 ! \<pi> i)"
  shows "entryPoints g2 = map (relabelEntryPoint \<pi>) (entryPoints g1)"
    "\<forall>i<length inputFiles1. StableSourceIndices g2 ! \<pi> i = StableSourceIndices g1 ! i"
    "\<forall>e\<in>set (entryPoints g1). SourceIndex e < length inputFiles1"
    "length (StableSourceIndices g1) = length inputFiles1"
    "GraphTSEnums g2 = relabelTable old (GraphTSEnums g1)"
    "GraphConstValues g2 = relabelTable old (GraphConstValues g1)"
proof -
  let ?n = "length inputFiles1"
  let ?U = "SourceIndex ` set originalEntryPoints"
  from bij have inj: "inj_on \<pi> {..<?n}" and into: "\<And>i. i < ?n \<Longrightarrow> \<pi> i < ?n"
    by (auto simp: bij_betw_def)
  from run1 obtain filesA1 filesA2 queuesA filesA3 sepsA where
    mark1: "markEntryPoints originalEntryPoints (replicate ?n zeroLinkerFile) = Some filesA1"
    and assign1: "assignStableSourceIndices reachableFiles 0 (replicate ?n 0)
       = Some (StableSourceIndices g1)"
    and tasks1: "runCloneTasks codeSplitting inputFiles1 reachableFiles
       (h1, filesA1, replicate ?n None) = Some ((h1', filesA2, SymbolsForSource g1), queuesA)"
    and promote1: "processDynamicEntryPoints (StableSourceIndices g1) (interleave schedule1 queuesA) filesA2 []
       = Some (filesA3, sepsA)"
    and append1: "appendDynamicEntryPoints reachableFiles (sort sepsA) originalEntryPoints
       = Some (entryPoints g1)"
    by (rule CloneLinkerGraph_SomeE)
  from run2 len obtain filesB1 filesB2 queuesB filesB3 sepsB where
    mark2: "markEntryPoints (map (relabelEntryPoint \<pi>) originalEntryPoints) (replicate ?n zeroLinkerFile)
       = Some filesB1"
    and assign2: "assignStableSourceIndices (map \<pi> reachableFiles) 0 (replicate ?n 0)
       = Some (StableSourceIndices g2)"
    and tasks2: "runCloneTasks codeSplitting inputFiles2 (map \<pi> reachableFiles)
       (h2, filesB1, replicate ?n None) = Some ((h2', filesB2, SymbolsForSource g2), queuesB)"
    and promote2: "processDynamicEntryPoints (StableSourceIndices g2) (interleave schedule2 queuesB) filesB2 []
       = Some (filesB3, sepsB)"
    and append2: "appendDynamicEntryPoints (map \<pi> reachableFiles) (sort sepsB)
       (map (relabelEntryPoint \<pi>) originalEntryPoints) = Some (entryPoints g2)"
    by (auto elim: CloneLinkerGraph_SomeE)
  \<comment> \<open>the stable indices\<close>
  have "\<forall>i<?n. replicate ?n (0::nat) ! \<pi> i = replicate ?n 0 ! i"
    using into by simp
  from assignStableSourceIndices_relabel [OF assign1 assign2 inj _ this]
  show st: "\<forall>i<?n. StableSourceIndices g2 ! \<pi> i = StableSourceIndices g1 ! i"
    by simp
  from assignStableSourceIndices_Some [OF assign1]
  show "length (StableSourceIndices g1) = ?n" by simp
  \<comment> \<open>the user-specified entry points\<close>
  from markEntryPoints_Some [OF mark1] have lenA1: "length filesA1 = ?n"
    and Uin: "\<And>x. x \<in> ?U \<Longrightarrow> x < ?n"
    and kindA1: "\<And>j. j < ?n \<Longrightarrow> entryPointKind (filesA1 ! j) =
        (if j \<in> ?U then entryPointUserSpecified else entryPointNone)"
    by (auto simp: zeroLinkerFile_def)
  have U2: "SourceIndex ` set (map (relabelEntryPoint \<pi>) originalEntryPoints) = \<pi> ` ?U"
    by (auto simp: relabelEntryPoint_def image_iff)
  from markEntryPoints_Some [OF mark2] have lenB1: "length filesB1 = ?n"
    and kindB1: "\<And>j. j < ?n \<Longrightarrow> entryPointKind (filesB1 ! j) =
        (if j \<in> \<pi> ` ?U then entryPointUserSpecified else entryPointNone)"
    unfolding U2 by (auto simp: zeroLinkerFile_def)
  \<comment> \<open>the tasks\<close>
  note frA = runCloneTasks_frame [OF tasks1]
  note frB = runCloneTasks_frame [OF tasks2]
  from frA lenA1 have lenA2: "length filesA2 = ?n"
    and kindA2: "\<And>j. entryPointKind (filesA2 ! j) = entryPointKind (filesA1 ! j)"
    and inside: "\<And>i. i \<in> set reachableFiles \<Longrightarrow> i < ?n"
    and lenqA: "length queuesA = length reachableFiles"
    by auto
  from frB lenB1 have lenB2: "length filesB2 = ?n"
    and kindB2: "\<And>j. entryPointKind (filesB2 ! j) = entryPointKind (filesB1 ! j)"
    and lenqB: "length queuesB = length reachableFiles"
    by auto
  from runCloneTasks_cloned [OF tasks1 heapExtends_refl] lenA1
  have queueA: "\<And>k targets. k < length reachableFiles \<Longrightarrow>
      dynamicImportsOf codeSplitting h1 (inputFiles1 ! (reachableFiles ! k)) = Some targets \<Longrightarrow>
      queuesA ! k = targets"
    by simp
  from runCloneTasks_cloned [OF tasks2 heapExtends_refl] lenB1
  have queueB: "\<And>k targets. k < length reachableFiles \<Longrightarrow>
      dynamicImportsOf codeSplitting h2 (inputFiles2 ! \<pi> (reachableFiles ! k)) = Some targets \<Longrightarrow>
      queuesB ! k = targets"
    by simp
  have queues: "queuesB = map (map \<pi>) queuesA"
  proof (rule nth_equalityI)
    show "length queuesB = length (map (map \<pi>) queuesA)"
      by (simp add: lenqA lenqB)
    fix k assume "k < length queuesB"
    then have k: "k < length reachableFiles" by (simp add: lenqB)
    then have "reachableFiles ! k \<in> set reachableFiles" by simp
    with rel have r: "relabeledInput \<pi> old codeSplitting h1 (inputFiles1 ! (reachableFiles ! k))
        h2 (inputFiles2 ! \<pi> (reachableFiles ! k))"
      by blast
    then obtain targets where
      t: "dynamicImportsOf codeSplitting h1 (inputFiles1 ! (reachableFiles ! k)) = Some targets"
      by (cases "Repr (inputFiles1 ! (reachableFiles ! k))")
         (auto simp: relabeledInput_def dynamicImportsOf_def)
    with r have "dynamicImportsOf codeSplitting h2 (inputFiles2 ! \<pi> (reachableFiles ! k))
        = Some (map \<pi> targets)"
      by (simp add: relabeledInput_def)
    from queueA [OF k t] queueB [OF k this] k lenqA
    show "queuesB ! k = map (map \<pi>) queuesA ! k" by simp
  qed
  define D where "D = set (interleave schedule1 queuesA)"
  have D2: "set (interleave schedule2 queuesB) = \<pi> ` D"
    by (auto simp: D_def set_interleave queues)
  \<comment> \<open>the promotion\<close>
  note prA = processDynamicEntryPoints_Some [OF promote1, folded D_def]
  note prB = processDynamicEntryPoints_Some [OF promote2, unfolded D2]
  from prA(3) lenA2 have Din: "\<And>x. x \<in> D \<Longrightarrow> x < ?n" by simp
  have member: "\<pi> x \<in> \<pi> ` ?U \<longleftrightarrow> x \<in> ?U" if x: "x < ?n" for x
  proof
    assume "\<pi> x \<in> \<pi> ` ?U"
    then obtain u where u: "u \<in> ?U" "\<pi> x = \<pi> u" by blast
    with Uin [OF u(1)] x inj have "x = u" by (simp add: inj_on_def)
    with u show "x \<in> ?U" by simp
  qed simp
  have P: "promotable (\<pi> ` D) filesB2 = \<pi> ` promotable D filesA2"
    using Din into
    by (auto simp: promotable_def kindA2 kindB2 kindA1 kindB1 member split: if_splits)
  have Pin: "\<And>x. x \<in> promotable D filesA2 \<Longrightarrow> x < ?n"
    using Din by (simp add: promotable_def)
  have finP: "finite (promotable D filesA2)"
    by (simp add: promotable_def D_def)
  have injP: "inj_on \<pi> (promotable D filesA2)"
    using inj by (rule inj_on_subset) (use Pin in auto)
  have "mset sepsB = image_mset ((!) (StableSourceIndices g2)) (mset_set (\<pi> ` promotable D filesA2))"
    using prB(2) by (simp only: P)
  also have "\<dots> = image_mset ((!) (StableSourceIndices g2)) (image_mset \<pi> (mset_set (promotable D filesA2)))"
    by (simp only: image_mset_mset_set [OF injP])
  also have "\<dots> = image_mset (\<lambda>x. StableSourceIndices g2 ! \<pi> x) (mset_set (promotable D filesA2))"
    by (simp add: multiset.map_comp comp_def)
  also have "\<dots> = image_mset ((!) (StableSourceIndices g1)) (mset_set (promotable D filesA2))"
    by (rule image_mset_cong) (use finP Pin st in simp)
  also have "\<dots> = mset sepsA"
    using prA(2) by simp
  finally have "mset sepsB = mset sepsA" .
  then have sorted: "sort sepsB = sort sepsA"
    by (metis properties_for_sort sorted_sort mset_sort)
  \<comment> \<open>the entry points\<close>
  note apA = appendDynamicEntryPoints_Some [OF append1]
  note apB = appendDynamicEntryPoints_Some [OF append2]
  from apA have entries1: "entryPoints g1 = originalEntryPoints @
      map (\<lambda>stableIndex. dynamicEntryPoint (reachableFiles ! stableIndex)) (sort sepsA)"
    and short: "\<And>s. s \<in> set (sort sepsA) \<Longrightarrow> s < length reachableFiles"
    by simp_all
  from apB have "entryPoints g2 = map (relabelEntryPoint \<pi>) originalEntryPoints @
      map (\<lambda>stableIndex. dynamicEntryPoint (map \<pi> reachableFiles ! stableIndex)) (sort sepsA)"
    by (simp only: sorted)
  also have "map (\<lambda>stableIndex. dynamicEntryPoint (map \<pi> reachableFiles ! stableIndex)) (sort sepsA)
      = map (\<lambda>stableIndex. relabelEntryPoint \<pi> (dynamicEntryPoint (reachableFiles ! stableIndex))) (sort sepsA)"
    by (rule map_cong [OF refl]) (use short in \<open>simp add: dynamicEntryPoint_relabel\<close>)
  finally show "entryPoints g2 = map (relabelEntryPoint \<pi>) (entryPoints g1)"
    by (simp add: entries1 comp_def)
  show "\<forall>e\<in>set (entryPoints g1). SourceIndex e < ?n"
    using Uin short inside by (auto simp: entries1 dynamicEntryPoint_def)
  \<comment> \<open>the merged tables\<close>
  from rel have stored1: "\<forall>i\<in>set reachableFiles. importRecordsOf h1 (inputFiles1 ! i) \<noteq> None"
    and stored2: "\<forall>i\<in>set (map \<pi> reachableFiles). importRecordsOf h2 (inputFiles2 ! i) \<noteq> None"
    and enums: "\<And>i. i \<in> set reachableFiles \<Longrightarrow> inputTSEnums h2 (inputFiles2 ! \<pi> i)
        = relabelTable old (inputTSEnums h1 (inputFiles1 ! i))"
    and cvals: "\<And>i. i \<in> set reachableFiles \<Longrightarrow> inputConstValues h2 (inputFiles2 ! \<pi> i)
        = relabelTable old (inputConstValues h1 (inputFiles1 ! i))"
    by (auto simp: relabeledInput_def)
  note tA = CloneLinkerGraph_tables [OF run1 stored1]
  note tB = CloneLinkerGraph_tables [OF run2 stored2]
  note merged = relabelTable_foldl [of old None, unfolded relabelTable_None]
  have enums': "map (\<lambda>i. inputTSEnums h2 (inputFiles2 ! i)) (map \<pi> reachableFiles)
      = map (relabelTable old) (map (\<lambda>i. inputTSEnums h1 (inputFiles1 ! i)) reachableFiles)"
    using enums by simp
  show "GraphTSEnums g2 = relabelTable old (GraphTSEnums g1)"
    by (simp only: tA(1) tB(1) enums' merged)
  have cvals': "map (\<lambda>i. inputConstValues h2 (inputFiles2 ! i)) (map \<pi> reachableFiles)
      = map (relabelTable old) (map (\<lambda>i. inputConstValues h1 (inputFiles1 ! i)) reachableFiles)"
    using cvals by simp
  show "GraphConstValues g2 = relabelTable old (GraphConstValues g1)"
    by (simp only: tA(2) tB(2) cvals' merged)
qed

text \<open>
  Claim C1. Two runs of \<^verbatim>\<open>CloneLinkerGraph\<close> that return, under any two schedules of
  the tasks, the second on the same bundle with the file identities relabeled by a
  permutation \<open>\<pi>\<close> (the files in \<^verbatim>\<open>reachableFiles\<close> come in the same order, the entry
  points name the same files), yield: the same list of entry points, file for file, which
  is the identical list once each file is named by its stable index; the same stable index
  for every file; and the same merged \<^verbatim>\<open>TSEnums\<close> and \<^verbatim>\<open>ConstValues\<close> tables, up to
  the renaming of their keys (literally the same tables when the keys are not renamed).
  Moreover the first run returns the same graph and the same store under every schedule.
\<close>

theorem clone_deterministic:
  assumes run1: "CloneLinkerGraph schedule1 h1 inputFiles1 reachableFiles originalEntryPoints codeSplitting
             = Some (g1, h1')"
    and run2: "CloneLinkerGraph schedule2 h2 inputFiles2 (map \<pi> reachableFiles)
                 (map (relabelEntryPoint \<pi>) originalEntryPoints) codeSplitting = Some (g2, h2')"
    and len: "length inputFiles2 = length inputFiles1"
    and bij: "bij_betw \<pi> {..<length inputFiles1} {..<length inputFiles1}"
    and rel: "\<forall>i\<in>set reachableFiles.
        relabeledInput \<pi> old codeSplitting h1 (inputFiles1 ! i) h2 (inputFiles2 ! \<pi> i)"
  shows "CloneLinkerGraph schedule h1 inputFiles1 reachableFiles originalEntryPoints codeSplitting
           = Some (g1, h1') \<and>
         entryPoints g2 = map (relabelEntryPoint \<pi>) (entryPoints g1) \<and>
         entryPointsByStableIndex g2 = entryPointsByStableIndex g1 \<and>
         map (\<lambda>i. StableSourceIndices g2 ! \<pi> i) [0..<length inputFiles1] = StableSourceIndices g1 \<and>
         GraphTSEnums g2 = relabelTable old (GraphTSEnums g1) \<and>
         GraphConstValues g2 = relabelTable old (GraphConstValues g1)"
proof -
  note r = CloneLinkerGraph_relabel [OF run1 run2 len bij rel]
  have byStable: "entryPointsByStableIndex g2 = entryPointsByStableIndex g1"
    unfolding entryPointsByStableIndex_def r(1) map_map
    by (rule map_cong [OF refl]) (use r(2,3) in \<open>simp add: relabelEntryPoint_def\<close>)
  have "map (\<lambda>i. StableSourceIndices g2 ! \<pi> i) [0..<length inputFiles1]
      = map (\<lambda>i. StableSourceIndices g1 ! i) [0..<length inputFiles1]"
    by (rule map_cong [OF refl]) (use r(2) in simp)
  also have "\<dots> = StableSourceIndices g1"
    unfolding r(4) [symmetric] by (rule map_nth)
  finally have "map (\<lambda>i. StableSourceIndices g2 ! \<pi> i) [0..<length inputFiles1] = StableSourceIndices g1" .
  with byStable show ?thesis
    using CloneLinkerGraph_reschedule [OF run1] r(1,5,6) by simp
qed

lemma relabeled_run:
  "CloneLinkerGraph [1, 0] relabeledHeap relabeledInputFiles [0, 2, 1, 3]
     (map (relabelEntryPoint swapBC) exampleEntryPoints) True
     = Some (fst relabeledLinked, snd relabeledLinked)"
  unfolding relabeledLinked_def
  by (simp add: relabeledHeap_def relabeledInputFiles_def swapBC_def relabelEntryPoint_def
      example_defs clone_eval)

theorem clone_deterministic_witness:
  "\<exists>g1 h1' g2 h2'.
     CloneLinkerGraph [] exampleHeap exampleInputFiles [0, 1, 2, 3] exampleEntryPoints True
       = Some (g1, h1') \<and>
     CloneLinkerGraph [1, 0] relabeledHeap relabeledInputFiles (map swapBC [0, 1, 2, 3])
       (map (relabelEntryPoint swapBC) exampleEntryPoints) True = Some (g2, h2') \<and>
     CloneLinkerGraph [2, 1, 1] exampleHeap exampleInputFiles [0, 1, 2, 3] exampleEntryPoints True
       = Some (g1, h1') \<and>
     map SourceIndex (entryPoints g1) = [0, 2] \<and>
     map SourceIndex (entryPoints g2) = [0, 1] \<and>
     entryPointsByStableIndex g1 = [(''out/a'', 0, True), ([], 2, False)] \<and>
     entryPointsByStableIndex g2 = [(''out/a'', 0, True), ([], 2, False)] \<and>
     StableSourceIndices g1 = [0, 1, 2, 3] \<and>
     map (\<lambda>i. StableSourceIndices g2 ! swapBC i) [0..<length exampleInputFiles] = [0, 1, 2, 3] \<and>
     GraphTSEnums g2 = relabelTable (relabelRef swapBC) (GraphTSEnums g1) \<and>
     GraphConstValues g2 = relabelTable (relabelRef swapBC) (GraphConstValues g1)"
proof -
  have run2: "CloneLinkerGraph [1, 0] relabeledHeap relabeledInputFiles (map swapBC [0, 1, 2, 3])
       (map (relabelEntryPoint swapBC) exampleEntryPoints) True
       = Some (fst relabeledLinked, snd relabeledLinked)"
    using relabeled_run by (simp add: swapBC_def)
  have len: "length relabeledInputFiles = length exampleInputFiles"
    by (simp add: relabeledInputFiles_def exampleInputFiles_def)
  have bij: "bij_betw swapBC {..<length exampleInputFiles} {..<length exampleInputFiles}"
    unfolding bij_betw_def
    by (auto simp: inj_on_def swapBC_def exampleInputFiles_def image_iff split: if_splits)
  have rel: "\<forall>i\<in>set [0, 1, 2, 3]. relabeledInput swapBC (relabelRef swapBC) True exampleHeap
      (exampleInputFiles ! i) relabeledHeap (relabeledInputFiles ! swapBC i)"
    by (simp add: relabeledInput_def importRecordsOf_def dynamicImportsOf_def inputTSEnums_def
        inputConstValues_def jsReprOf_def asJSRepr_def relabeledHeap_def relabeledInputFiles_def
        swapBC_def example_defs nth_opt_def slice_elems_def dynamicImportTargets_def
        isDynamicImportEntry_def)
  have sources1: "map SourceIndex (entryPoints (fst exampleLinked)) = [0, 2]"
    and stable1: "StableSourceIndices (fst exampleLinked) = [0, 1, 2, 3]"
    and byStable1: "entryPointsByStableIndex (fst exampleLinked) = [(''out/a'', 0, True), ([], 2, False)]"
    unfolding exampleLinked_def entryPointsByStableIndex_def
    by (simp_all add: example_defs clone_eval)
  have sources2: "map SourceIndex (entryPoints (fst relabeledLinked)) = [0, 1]"
    unfolding relabeledLinked_def
    by (simp add: relabeledHeap_def relabeledInputFiles_def swapBC_def relabelEntryPoint_def
        example_defs clone_eval)
  from clone_deterministic [OF example_run run2 len bij rel, of "[2, 1, 1]"]
    example_run run2 sources1 stable1 byStable1 sources2
  show ?thesis
    by - (rule exI [of _ "fst exampleLinked"], rule exI [of _ "snd exampleLinked"],
          rule exI [of _ "fst relabeledLinked"], rule exI [of _ "snd relabeledLinked"],
          simp add: exampleInputFiles_def)
qed

end
